(* ===== verification/Go_Base.thy ===== *)
theory Go_Base
  imports Main "HOL-Library.Word" "HOL-Library.AList" "HOL-Library.Multiset"
begin

text \<open>
  The part of the Go language and of its standard library that the components share:
  byte strings (\<open>strings.Fields\<close>, \<open>Split\<close>, \<open>Join\<close>, \<open>HasPrefix\<close>, \<open>TrimPrefix\<close>), decimal numbers
  (\<open>strconv.ParseUint\<close>, \<open>ParseInt\<close>, the verb \<open>%d\<close>), 64-bit signed arithmetic, and Go maps as
  association lists with distinct keys.  Strings are byte strings; the white space of
  \<open>strings.Fields\<close> is the ASCII white space.
\<close>

named_theorems go_string \<open>rewrite rules for the Go string functions\<close>
named_theorems go_map \<open>rewrite rules for Go maps\<close>

section \<open>Decimal numbers\<close>

fun fmt_nat :: "nat \<Rightarrow> string" where
  "fmt_nat n = (if n < 10 then [char_of (48 + n)] else fmt_nat (n div 10) @ [char_of (48 + n mod 10)])"

declare fmt_nat.simps [simp del]

definition fmt_int :: "int \<Rightarrow> string" where
  "fmt_int i = (if i < 0 then CHR ''-'' # fmt_nat (nat (- i)) else fmt_nat (nat i))"

definition digit_val :: "char \<Rightarrow> nat option" where
  "digit_val c = (let k = of_char c :: nat in if 48 \<le> k \<and> k \<le> 57 then Some (k - 48) else None)"

fun parse_digits :: "nat \<Rightarrow> string \<Rightarrow> nat option" where
  "parse_digits acc [] = Some acc"
| "parse_digits acc (c # cs) =
     (case digit_val c of None \<Rightarrow> None | Some d \<Rightarrow> parse_digits (10 * acc + d) cs)"

definition ParseUint :: "string \<Rightarrow> 64 word option" where
  "ParseUint s =
     (if s = [] then None
      else case parse_digits 0 s of
        None \<Rightarrow> None
      | Some v \<Rightarrow> if v < 2 ^ 64 then Some (of_nat v) else None)"

definition ParseInt :: "string \<Rightarrow> int option" where
  "ParseInt s =
     (let neg = (s \<noteq> [] \<and> hd s = CHR ''-'');
          ds = (if s \<noteq> [] \<and> (hd s = CHR ''-'' \<or> hd s = CHR ''+'') then tl s else s)
      in if ds = [] then None
         else case parse_digits 0 ds of
           None \<Rightarrow> None
         | Some v \<Rightarrow>
             if neg then (if v \<le> 2 ^ 63 then Some (- int v) else None)
             else (if v < 2 ^ 63 then Some (int v) else None))"

text \<open>Two's complement wrap-around of Go's \<open>int64\<close>.\<close>

definition wrap64 :: "int \<Rightarrow> int" where
  "wrap64 i = (i + 2 ^ 63) mod 2 ^ 64 - 2 ^ 63"

lemma wrap64_id: "- (2 ^ 63) \<le> i \<Longrightarrow> i < 2 ^ 63 \<Longrightarrow> wrap64 i = i"
  by (simp add: wrap64_def)

lemma wrap64_range: "- (2 ^ 63) \<le> wrap64 i" "wrap64 i < 2 ^ 63"
proof -
  have "0 \<le> (i + 2 ^ 63) mod 2 ^ 64" "(i + 2 ^ 63) mod 2 ^ 64 < 2 ^ 64" by simp_all
  then show "- (2 ^ 63) \<le> wrap64 i" "wrap64 i < 2 ^ 63" by (simp_all add: wrap64_def)
qed

lemma fmt_nat_ne [simp]: "fmt_nat n \<noteq> []"
  by (subst fmt_nat.simps) simp

lemma digit_val_char_of [simp]: "d < 10 \<Longrightarrow> digit_val (char_of (48 + d)) = Some d"
  by (simp add: digit_val_def)

lemma parse_digits_append:
  "parse_digits acc (xs @ ys) =
     (case parse_digits acc xs of None \<Rightarrow> None | Some a \<Rightarrow> parse_digits a ys)"
  by (induction xs arbitrary: acc) (auto split: option.splits)

lemma parse_digits_fmt_nat:
  "parse_digits acc (fmt_nat n) = Some (acc * 10 ^ length (fmt_nat n) + n)"
proof (induction n arbitrary: acc rule: fmt_nat.induct)
  case (1 n)
  show ?case
  proof (cases "n < 10")
    case True
    then show ?thesis by (simp add: fmt_nat.simps [of n])
  next
    case False
    then show ?thesis
      by (simp add: fmt_nat.simps [of n] parse_digits_append "1.IH" algebra_simps)
  qed
qed

definition is_digit :: "char \<Rightarrow> bool" where
  "is_digit c \<longleftrightarrow> digit_val c \<noteq> None"

lemma fmt_nat_digits: "c \<in> set (fmt_nat n) \<Longrightarrow> is_digit c"
proof (induction n rule: fmt_nat.induct)
  case (1 n)
  then show ?case
    by (cases "n < 10") (auto simp: fmt_nat.simps [of n] is_digit_def)
qed

lemma fmt_nat_inject: "fmt_nat m = fmt_nat n \<Longrightarrow> m = n"
  by (metis add_0 mult_zero_left option.inject parse_digits_fmt_nat)

lemma ParseUint_fmt [go_string]: "ParseUint (fmt_nat (unat (w :: 64 word))) = Some w"
proof -
  have "unat w < 2 ^ 64" using unsigned_less [of w] by simp
  then show ?thesis by (simp add: ParseUint_def parse_digits_fmt_nat)
qed

lemma is_digit_not_sign: "is_digit c \<Longrightarrow> c \<noteq> CHR ''-'' \<and> c \<noteq> CHR ''+''"
  by (auto simp: is_digit_def digit_val_def)

lemma ParseInt_fmt_nat: "n < 2 ^ 63 \<Longrightarrow> ParseInt (fmt_nat n) = Some (int n)"
proof -
  assume n: "n < 2 ^ 63"
  have "hd (fmt_nat n) \<in> set (fmt_nat n)" by simp
  then have "is_digit (hd (fmt_nat n))" by (rule fmt_nat_digits)
  with n show ?thesis
    by (auto simp: ParseInt_def Let_def parse_digits_fmt_nat dest: is_digit_not_sign)
qed

lemma int_less_pow: "v < 2 ^ k \<Longrightarrow> int v < 2 ^ k"
  by (metis of_nat_less_iff of_nat_numeral of_nat_power)

lemma int_le_pow: "v \<le> 2 ^ k \<Longrightarrow> int v \<le> 2 ^ k"
  by (metis of_nat_le_iff of_nat_numeral of_nat_power)

lemma int_pow_signs: "- (2 ^ k) \<le> int v" "- int v < 2 ^ k"
proof -
  have "(0 :: int) < 2 ^ k" "0 \<le> int v" by simp_all
  then show "- (2 ^ k) \<le> int v" "- int v < 2 ^ k" by linarith+
qed

lemma ParseInt_range: "ParseInt s = Some i \<Longrightarrow> - (2 ^ 63) \<le> i \<and> i < 2 ^ 63"
  by (auto simp: ParseInt_def Let_def simp del: power_numeral
      intro: int_pow_signs dest: int_less_pow int_le_pow split: if_splits option.splits)

lemma fmt_int_nonneg: "0 \<le> i \<Longrightarrow> fmt_int i = fmt_nat (nat i)"
  by (simp add: fmt_int_def)

lemma ParseInt_fmt_int: "0 \<le> i \<Longrightarrow> i < 2 ^ 63 \<Longrightarrow> ParseInt (fmt_int i) = Some i"
  by (simp add: fmt_int_nonneg ParseInt_fmt_nat nat_less_iff)

section \<open>Byte strings\<close>

definition is_space :: "char \<Rightarrow> bool" where
  "is_space c \<longleftrightarrow> (let k = of_char c :: nat in k = 32 \<or> (9 \<le> k \<and> k \<le> 13))"

fun fields_acc :: "string \<Rightarrow> string \<Rightarrow> string list" where
  "fields_acc cur [] = (if cur = [] then [] else [cur])"
| "fields_acc cur (c # cs) =
     (if is_space c then (if cur = [] then fields_acc [] cs else cur # fields_acc [] cs)
      else fields_acc (cur @ [c]) cs)"

definition Fields :: "string \<Rightarrow> string list" where
  "Fields s = fields_acc [] s"

fun split_acc :: "char \<Rightarrow> string \<Rightarrow> string \<Rightarrow> string list" where
  "split_acc sep cur [] = [cur]"
| "split_acc sep cur (c # cs) =
     (if c = sep then cur # split_acc sep [] cs else split_acc sep (cur @ [c]) cs)"

text \<open>\<open>strings.Split\<close> for the one-byte separators the source uses.\<close>

definition Split :: "string \<Rightarrow> char \<Rightarrow> string list" where
  "Split s sep = split_acc sep [] s"

fun Join :: "string list \<Rightarrow> string \<Rightarrow> string" where
  "Join [] sep = []"
| "Join [x] sep = x"
| "Join (x # y # zs) sep = x @ sep @ Join (y # zs) sep"

definition HasPrefix :: "string \<Rightarrow> string \<Rightarrow> bool" where
  "HasPrefix s p \<longleftrightarrow> take (length p) s = p"

definition TrimPrefix :: "string \<Rightarrow> string \<Rightarrow> string" where
  "TrimPrefix s p = (if HasPrefix s p then drop (length p) s else s)"

abbreviation no_space :: "string \<Rightarrow> bool" where
  "no_space s \<equiv> list_all (\<lambda>c. \<not> is_space c) s"

lemma fields_acc_word [go_string]: "no_space w \<Longrightarrow> fields_acc cur (w @ cs) = fields_acc (cur @ w) cs"
  by (induction w arbitrary: cur) auto

lemma fields_acc_end [go_string]: "no_space w \<Longrightarrow> fields_acc cur w = (if cur @ w = [] then [] else [cur @ w])"
  using fields_acc_word [of w cur "[]"] by simp

lemma is_space_blank [simp]: "is_space CHR '' ''"
  by (simp add: is_space_def)

lemma fields_acc_space [go_string]:
  "fields_acc cur (CHR '' '' # cs) = (if cur = [] then [] else [cur]) @ fields_acc [] cs"
  by simp

lemma is_digit_not_space: "is_digit c \<Longrightarrow> \<not> is_space c"
  by (auto simp: is_digit_def digit_val_def is_space_def Let_def split: if_splits)

lemma no_space_fmt_nat [simp]: "no_space (fmt_nat n)"
  by (auto simp: list_all_iff dest: fmt_nat_digits is_digit_not_space)

lemma no_space_fmt_int: "no_space (fmt_int i)"
proof -
  have "\<not> is_space CHR ''-''" by (simp add: is_space_def)
  then show ?thesis by (simp add: fmt_int_def)
qed

lemma fields_acc_no_space: "no_space cur \<Longrightarrow> f \<in> set (fields_acc cur s) \<Longrightarrow> no_space f \<and> f \<noteq> []"
  by (induction cur s rule: fields_acc.induct) (auto split: if_splits)

lemma Fields_no_space: "f \<in> set (Fields s) \<Longrightarrow> no_space f \<and> f \<noteq> []"
  unfolding Fields_def by (rule fields_acc_no_space) auto

lemma no_space_Join: "no_space sep \<Longrightarrow> list_all no_space ws \<Longrightarrow> no_space (Join ws sep)"
  by (induction ws sep rule: Join.induct) auto

text \<open>Words joined by blanks are the fields of the text.\<close>

lemma Fields_Join:
  assumes "list_all (\<lambda>w. no_space w \<and> w \<noteq> []) ws"
  shows "Fields (Join ws '' '') = ws"
  using assms
proof (induction ws "'' ''" rule: Join.induct)
  case (3 x y zs)
  then show ?case by (simp add: Fields_def go_string)
qed (simp_all add: Fields_def go_string)

lemma split_acc_word: "sep \<notin> set w \<Longrightarrow> split_acc sep cur (w @ cs) = split_acc sep (cur @ w) cs"
  by (induction w arbitrary: cur) auto

lemma split_acc_end: "sep \<notin> set w \<Longrightarrow> split_acc sep cur w = [cur @ w]"
  using split_acc_word [of sep w cur "[]"] by simp

lemma split_acc_ne [simp]: "split_acc sep cur s \<noteq> []"
  by (induction sep cur s rule: split_acc.induct) auto

lemma Split_ne [simp]: "Split s sep \<noteq> []"
  by (simp add: Split_def)

lemma Split_single: "sep \<notin> set w \<Longrightarrow> Split w sep = [w]"
  by (simp add: Split_def split_acc_end)

lemma Split_pair: "sep \<notin> set u \<Longrightarrow> Split (u @ sep # v) sep = u # Split v sep"
  by (simp add: Split_def split_acc_word)

lemma Split_Join: "xs \<noteq> [] \<Longrightarrow> \<forall>x \<in> set xs. sep \<notin> set x \<Longrightarrow> Split (Join xs [sep]) sep = xs"
proof (induction xs "[sep]" rule: Join.induct)
  case (3 x y zs)
  then show ?case using Split_pair [of sep x "Join (y # zs) [sep]"] by simp
qed (simp_all add: Split_single)

lemma split_acc_no_sep: "sep \<notin> set cur \<Longrightarrow> x \<in> set (split_acc sep cur s) \<Longrightarrow> sep \<notin> set x"
  by (induction sep cur s rule: split_acc.induct) (auto split: if_splits)

lemma split_acc_Join: "Join (split_acc sep cur s) [sep] = cur @ s"
proof (induction sep cur s rule: split_acc.induct)
  case (2 sep cur c cs)
  then show ?case
    by (cases "split_acc sep [] cs") auto
qed simp

lemma Join_Split: "Join (Split s sep) [sep] = s"
  by (simp add: Split_def split_acc_Join)

lemma HasPrefix_append [simp]: "HasPrefix (p @ s) p"
  by (simp add: HasPrefix_def)

lemma TrimPrefix_append [simp]: "TrimPrefix (p @ s) p = s"
  by (simp add: TrimPrefix_def)

section \<open>Go maps\<close>

text \<open>
  A Go map is an association list with distinct keys (\<open>gm_ok\<close>).  The order of the list is not
  observable by the program: a \<open>range\<close> loop takes its order from the environment.
\<close>

type_synonym ('k, 'v) gomap = "('k \<times> 'v) list"

abbreviation gm_get :: "('k, 'v) gomap \<Rightarrow> 'k \<Rightarrow> 'v option" where
  "gm_get m k \<equiv> map_of m k"

definition gm_put :: "'k \<Rightarrow> 'v \<Rightarrow> ('k, 'v) gomap \<Rightarrow> ('k, 'v) gomap" where
  "gm_put k v m = AList.update k v m"

definition gm_del :: "'k \<Rightarrow> ('k, 'v) gomap \<Rightarrow> ('k, 'v) gomap" where
  "gm_del k m = AList.delete k m"

definition gm_keys :: "('k, 'v) gomap \<Rightarrow> 'k set" where
  "gm_keys m = fst ` set m"

definition gm_has :: "('k, 'v) gomap \<Rightarrow> 'k \<Rightarrow> bool" where
  "gm_has m k \<longleftrightarrow> map_of m k \<noteq> None"

definition gm_ok :: "('k, 'v) gomap \<Rightarrow> bool" where
  "gm_ok m \<longleftrightarrow> distinct (map fst m)"

lemma gm_get_put [go_map]: "gm_get (gm_put k v m) k' = (if k' = k then Some v else gm_get m k')"
  by (simp add: gm_put_def update_conv')

lemma gm_get_del [go_map]: "gm_get (gm_del k m) k' = (if k' = k then None else gm_get m k')"
  by (simp add: gm_del_def delete_conv')

lemma gm_has_iff: "gm_has m k \<longleftrightarrow> k \<in> gm_keys m"
  by (auto simp: gm_has_def gm_keys_def map_of_eq_None_iff)

lemma gm_hasI: "(k, v) \<in> set m \<Longrightarrow> gm_has m k"
  by (auto simp: gm_has_iff gm_keys_def intro: rev_image_eqI)

lemma gm_keys_put [go_map]: "gm_keys (gm_put k v m) = insert k (gm_keys m)"
  by (auto simp: gm_has_def gm_get_put simp flip: gm_has_iff split: if_splits)

lemma gm_keys_del [go_map]: "gm_keys (gm_del k m) = gm_keys m - {k}"
  by (auto simp: gm_has_def gm_get_del simp flip: gm_has_iff split: if_splits)

lemma gm_keys_Nil [go_map, simp]: "gm_keys [] = {}"
  by (simp add: gm_keys_def)

lemma gm_has_put [go_map]: "gm_has (gm_put k v m) k' \<longleftrightarrow> k' = k \<or> gm_has m k'"
  by (simp add: gm_has_iff gm_keys_put)

lemma gm_has_del [go_map]: "gm_has (gm_del k m) k' \<longleftrightarrow> k' \<noteq> k \<and> gm_has m k'"
  by (auto simp: gm_has_iff gm_keys_del)

lemma gm_ok_Nil [simp]: "gm_ok []"
  by (simp add: gm_ok_def)

lemma gm_ok_put [intro, go_map]: "gm_ok m \<Longrightarrow> gm_ok (gm_put k v m)"
  by (simp add: gm_ok_def gm_put_def distinct_update)

lemma gm_ok_del [intro, go_map]: "gm_ok m \<Longrightarrow> gm_ok (gm_del k m)"
  by (simp add: gm_ok_def gm_del_def distinct_delete)

lemma gm_get_in_set: "gm_get m k = Some v \<Longrightarrow> (k, v) \<in> set m"
  by (rule map_of_SomeD)

lemma gm_ok_get_iff: "gm_ok m \<Longrightarrow> gm_get m k = Some v \<longleftrightarrow> (k, v) \<in> set m"
  by (auto simp: gm_ok_def)

lemma gm_len_card: "gm_ok m \<Longrightarrow> length m = card (gm_keys m)"
  by (metis distinct_card gm_keys_def gm_ok_def length_map set_map)

lemma gm_len_put: "gm_ok m \<Longrightarrow> length (gm_put k v m) = (if gm_has m k then length m else Suc (length m))"
  by (simp add: gm_len_card gm_ok_put gm_keys_put gm_has_iff insert_absorb)
     (simp add: gm_keys_def)

lemma gm_len_del_le: "length (gm_del k m) \<le> length m"
  by (simp add: gm_del_def length_delete_le)

lemma gm_del_set: "set (gm_del k m) = {p \<in> set m. fst p \<noteq> k}"
  by (auto simp: gm_del_def AList.delete_eq)

lemma gm_put_set_new: "\<not> gm_has m k \<Longrightarrow> gm_put k v m = m @ [(k, v)]"
  unfolding gm_put_def gm_has_def by (induction m) (auto split: if_splits)

section \<open>Multisets of lists\<close>

lemma distinct_mset_subset: "mset xs \<subseteq># mset ys \<Longrightarrow> distinct ys \<Longrightarrow> distinct xs"
proof -
  assume sub: "mset xs \<subseteq># mset ys" and d: "distinct ys"
  have "count (mset xs) a \<le> 1" for a
    using mset_subset_eq_count [OF sub, of a] d
    by (metis count_mset_0_iff distinct_count_atmost_1 le0 le_trans order_refl zero_le_one)
  then show ?thesis
    by (auto simp: distinct_count_atmost_1 count_eq_zero_iff)
       (metis One_nat_def count_mset_0_iff le_Suc_eq le_zero_eq)
qed

end
