(* ===== verification/Config.thy ===== *)
theory Config
  imports Go_Base
begin

text \<open>
  \<open>config/config.go\<close>: the configuration of an etcd node and the text form (\<open>String\<close>,
  \<open>Parse\<close>) that the scheduler uses as the Mesos task identifier, so that a restarted scheduler
  rebuilds its view of the cluster from task identifiers alone.  The locale \<open>text_codec\<close> is the
  contract between a printer and its parser; it is interpreted for nodes and for ports.
\<close>

section \<open>Printers and parsers\<close>

locale text_codec =
  fixes enc :: "'a \<Rightarrow> string"
    and dec :: "string \<Rightarrow> 'b option"
    and proj :: "'a \<Rightarrow> 'b"
    and ok :: "'a \<Rightarrow> bool"
  assumes dec_enc: "ok x \<Longrightarrow> dec (enc x) = Some (proj x)"
begin

lemma enc_determines: "ok x \<Longrightarrow> ok y \<Longrightarrow> enc x = enc y \<Longrightarrow> proj x = proj y"
  by (metis dec_enc option.inject)

lemma dec_enc_list: "list_all ok xs \<Longrightarrow> those (map (dec \<circ> enc) xs) = Some (map proj xs)"
  by (induction xs) (simp_all add: dec_enc)

lemma distinct_enc: "list_all ok xs \<Longrightarrow> distinct (map proj xs) \<Longrightarrow> distinct (map enc xs)"
proof (induction xs)
  case (Cons x xs)
  have "enc x \<notin> enc ` set xs"
  proof
    assume "enc x \<in> enc ` set xs"
    then obtain y where y: "y \<in> set xs" "enc x = enc y" by auto
    with Cons.prems have "proj x = proj y"
      by (intro enc_determines) (auto simp: list_all_iff)
    with y Cons.prems show False by auto
  qed
  with Cons show ?case by simp
qed simp

end

section \<open>Nodes\<close>

record Node =
  Name :: string
  Host :: string
  RPCPort :: "64 word"
  ClientPort :: "64 word"
  ReseedPort :: "64 word"
  Type :: string
  SlaveID :: string

datatype config_error = ErrUnmarshal

definition Parse :: "string \<Rightarrow> config_error + Node" where
  "Parse text =
     (let fs = Fields text in
      if length fs \<noteq> 5 then Inl ErrUnmarshal
      else case ParseUint (fs ! 2) of
        None \<Rightarrow> Inl ErrUnmarshal
      | Some rpc \<Rightarrow>
          (case ParseUint (fs ! 3) of
             None \<Rightarrow> Inl ErrUnmarshal
           | Some client \<Rightarrow>
               (case ParseUint (fs ! 4) of
                  None \<Rightarrow> Inl ErrUnmarshal
                | Some reseed \<Rightarrow>
                    Inr \<lparr>Name = fs ! 0, Host = fs ! 1, RPCPort = rpc, ClientPort = client,
                         ReseedPort = reseed, Type = [], SlaveID = []\<rparr>)))"

definition node_String :: "Node \<Rightarrow> string" where
  "node_String n =
     Name n @ '' '' @ Host n @ '' '' @ fmt_nat (unat (RPCPort n)) @ '' '' @
     fmt_nat (unat (ClientPort n)) @ '' '' @ fmt_nat (unat (ReseedPort n))"

text \<open>The nodes whose text form can be read back: name and host are one field each.\<close>

definition node_ok :: "Node \<Rightarrow> bool" where
  "node_ok n \<longleftrightarrow> Name n \<noteq> [] \<and> no_space (Name n) \<and> Host n \<noteq> [] \<and> no_space (Host n)"

text \<open>What the text form keeps of a node.\<close>

definition text_part :: "Node \<Rightarrow> Node" where
  "text_part n = n\<lparr>Type := [], SlaveID := []\<rparr>"

lemma Fields_node_String:
  "node_ok n \<Longrightarrow>
   Fields (node_String n) =
     [Name n, Host n, fmt_nat (unat (RPCPort n)), fmt_nat (unat (ClientPort n)),
      fmt_nat (unat (ReseedPort n))]"
  by (simp add: Fields_def node_String_def node_ok_def go_string)

lemma Parse_String: "node_ok n \<Longrightarrow> Parse (node_String n) = Inr (text_part n)"
  by (simp add: Parse_def Fields_node_String ParseUint_fmt text_part_def)

definition parse_node :: "string \<Rightarrow> Node option" where
  "parse_node t = (case Parse t of Inl _ \<Rightarrow> None | Inr n \<Rightarrow> Some n)"

interpretation port_codec: text_codec "\<lambda>w :: 64 word. fmt_nat (unat w)" ParseUint id "\<lambda>_. True"
  by unfold_locales (simp add: ParseUint_fmt)

interpretation node_codec: text_codec node_String parse_node text_part node_ok
  by unfold_locales (simp add: parse_node_def Parse_String)

lemma Parse_InrE:
  assumes "Parse t = Inr n"
  obtains r c s where "Fields t = [Name n, Host n, r, c, s]"
    "ParseUint r = Some (RPCPort n)" "ParseUint c = Some (ClientPort n)"
    "ParseUint s = Some (ReseedPort n)" "Type n = []" "SlaveID n = []"
proof -
  from assms have "length (Fields t) = 5"
    by (auto simp: Parse_def Let_def split: if_splits)
  then obtain a b r c s where f: "Fields t = [a, b, r, c, s]"
    by (auto simp: length_Suc_conv eval_nat_numeral)
  with assms show thesis
    by (intro that [of r c s]) (auto simp: Parse_def Let_def split: option.splits)
qed

lemma Parse_node_ok: "Parse t = Inr n \<Longrightarrow> node_ok n"
proof (erule Parse_InrE)
  fix r c s
  assume "Fields t = [Name n, Host n, r, c, s]"
  then have "Name n \<in> set (Fields t)" "Host n \<in> set (Fields t)" by simp_all
  then show "node_ok n" by (auto simp: node_ok_def dest: Fields_no_space)
qed

lemma Parse_text_part: "Parse t = Inr n \<Longrightarrow> text_part n = n"
  by (erule Parse_InrE) (simp add: text_part_def)

lemma node_ok_SlaveID [simp]: "node_ok (n\<lparr>SlaveID := x\<rparr>) = node_ok n"
  by (simp add: node_ok_def)

lemma text_part_simps [simp]:
  "Name (text_part n) = Name n" "Host (text_part n) = Host n" "RPCPort (text_part n) = RPCPort n"
  "ClientPort (text_part n) = ClientPort n" "ReseedPort (text_part n) = ReseedPort n"
  by (simp_all add: text_part_def)

end
