(* ===== verification/Json.thy ===== *)
theory Json
  imports Go_Base
begin

text \<open>
  The part of \<open>encoding/json\<close> the program uses: the grammar of \<open>Unmarshal\<close> (white space,
  literals, numbers, strings with escapes, arrays, objects), the text written by \<open>Marshal\<close>,
  and the access rules for struct fields (keys match without regard to ASCII case, the last
  occurrence wins, \<open>null\<close> leaves the zero value, a value of the wrong type is an error).
  The parser is driven by fuel; \<open>parse_value_enough\<close> shows that the fuel chosen by
  \<open>json_parse\<close> never runs out.
\<close>

datatype json =
    JNull | JBool bool | JNum string | JStr string | JArr "json list" | JObj "(string \<times> json) list"

section \<open>Lexical elements\<close>

definition json_ws :: "char \<Rightarrow> bool" where
  "json_ws c \<longleftrightarrow> (let k = of_char c :: nat in k = 32 \<or> k = 9 \<or> k = 10 \<or> k = 13)"

fun skip_ws :: "string \<Rightarrow> string" where
  "skip_ws [] = []"
| "skip_ws (c # cs) = (if json_ws c then skip_ws cs else c # cs)"

definition hex_val :: "char \<Rightarrow> nat option" where
  "hex_val c =
     (let k = of_char c :: nat in
      if 48 \<le> k \<and> k \<le> 57 then Some (k - 48)
      else if 97 \<le> k \<and> k \<le> 102 then Some (k - 87)
      else if 65 \<le> k \<and> k \<le> 70 then Some (k - 55)
      else None)"

definition hex4 :: "char \<Rightarrow> char \<Rightarrow> char \<Rightarrow> char \<Rightarrow> nat option" where
  "hex4 a b c d =
     (case (hex_val a, hex_val b, hex_val c, hex_val d) of
        (Some w, Some x, Some y, Some z) \<Rightarrow> Some (((w * 16 + x) * 16 + y) * 16 + z)
      | _ \<Rightarrow> None)"

definition utf8 :: "nat \<Rightarrow> string" where
  "utf8 u =
     (if u < 128 then [char_of u]
      else if u < 2048 then [char_of (192 + u div 64), char_of (128 + u mod 64)]
      else if u < 65536 then
        [char_of (224 + u div 4096), char_of (128 + u div 64 mod 64), char_of (128 + u mod 64)]
      else
        [char_of (240 + u div 262144), char_of (128 + u div 4096 mod 64),
         char_of (128 + u div 64 mod 64), char_of (128 + u mod 64)])"

definition simple_escape :: "char \<Rightarrow> char option" where
  "simple_escape c =
     (let k = of_char c :: nat in
      if k = 34 \<or> k = 92 \<or> k = 47 then Some c
      else if k = 98 then Some (CHR 0x08)
      else if k = 102 then Some (CHR 0x0C)
      else if k = 110 then Some (CHR 0x0A)
      else if k = 114 then Some (CHR 0x0D)
      else if k = 116 then Some (CHR 0x09)
      else None)"

text \<open>
  The four digits after \<open>\u\<close>, and the low half of a surrogate pair.  A surrogate pair is one
  code point; a lone surrogate is the replacement character.
\<close>

definition low_surrogate :: "string \<Rightarrow> (nat \<times> string) option" where
  "low_surrogate s =
     (case s of
        b # v # g1 # g2 # g3 # g4 # r \<Rightarrow>
          (case hex4 g1 g2 g3 g4 of
             None \<Rightarrow> None
           | Some l \<Rightarrow>
               if b = CHR 0x5C \<and> v = CHR ''u'' \<and> 56320 \<le> l \<and> l < 57344 then Some (l, r) else None)
      | _ \<Rightarrow> None)"

definition parse_u :: "string \<Rightarrow> (string \<times> string) option" where
  "parse_u s =
     (case s of
        h1 # h2 # h3 # h4 # r \<Rightarrow>
          (case hex4 h1 h2 h3 h4 of
             None \<Rightarrow> None
           | Some u \<Rightarrow>
               if 55296 \<le> u \<and> u < 57344 then
                 (case low_surrogate r of
                    Some (l, r1) \<Rightarrow>
                      if u < 56320 then Some (utf8 (65536 + (u - 55296) * 1024 + (l - 56320)), r1)
                      else Some (utf8 65533, r)
                  | None \<Rightarrow> Some (utf8 65533, r))
               else Some (utf8 u, r))
      | _ \<Rightarrow> None)"

lemma low_surrogate_length: "low_surrogate s = Some (l, r) \<Longrightarrow> length r < length s"
  by (auto simp: low_surrogate_def split: list.splits option.splits if_splits)

lemma parse_u_length: "parse_u s = Some (t, r) \<Longrightarrow> length r < length s"
  by (auto simp: parse_u_def split: list.splits option.splits if_splits dest!: low_surrogate_length)

definition parse_escape :: "string \<Rightarrow> (string \<times> string) option" where
  "parse_escape s =
     (case s of
        [] \<Rightarrow> None
      | e # r \<Rightarrow>
          if e = CHR ''u'' then parse_u r
          else map_option (\<lambda>x. ([x], r)) (simple_escape e))"

lemma parse_escape_length: "parse_escape s = Some (t, r) \<Longrightarrow> length r < length s"
  by (auto simp: parse_escape_def split: list.splits if_splits dest: parse_u_length)

text \<open>The body of a string literal after its opening quote, with what follows the closing quote.\<close>

function parse_str :: "string \<Rightarrow> (string \<times> string) option" where
  "parse_str s =
     (case s of
        [] \<Rightarrow> None
      | c # cs \<Rightarrow>
          if c = CHR 0x22 then Some ([], cs)
          else if c = CHR 0x5C then
            (case parse_escape cs of
               None \<Rightarrow> None
             | Some (x, r) \<Rightarrow> map_option (\<lambda>(t, z). (x @ t, z)) (parse_str r))
          else if (of_char c :: nat) < 32 then None
          else map_option (\<lambda>(t, z). (c # t, z)) (parse_str cs))"
  by pat_completeness auto
termination
  by (relation "measure length") (auto dest: parse_escape_length)

declare parse_str.simps [simp del]

text \<open>A number: an optional sign, an integer part without leading zeros, a fraction, an exponent.\<close>

definition span_digits :: "string \<Rightarrow> string \<times> string" where
  "span_digits s = (takeWhile is_digit s, dropWhile is_digit s)"

definition num_int :: "string \<Rightarrow> (string \<times> string) option" where
  "num_int s =
     (case s of
        [] \<Rightarrow> None
      | c # cs \<Rightarrow>
          if c = CHR ''0'' then Some ([c], cs)
          else if is_digit c then Some (span_digits s)
          else None)"

definition num_frac :: "string \<Rightarrow> (string \<times> string) option" where
  "num_frac s =
     (case s of
        c # cs \<Rightarrow>
          if c = CHR ''.'' then
            (let (ds, r) = span_digits cs in if ds = [] then None else Some (c # ds, r))
          else Some ([], s)
      | [] \<Rightarrow> Some ([], []))"

definition num_exp :: "string \<Rightarrow> (string \<times> string) option" where
  "num_exp s =
     (case s of
        c # cs \<Rightarrow>
          if c = CHR ''e'' \<or> c = CHR ''E'' then
            (let (sg, cs1) = (case cs of
                  d # ds \<Rightarrow> if d = CHR ''+'' \<or> d = CHR ''-'' then ([d], ds) else ([], cs)
                | [] \<Rightarrow> ([], []));
                 (ds, r) = span_digits cs1
             in if ds = [] then None else Some (c # sg @ ds, r))
          else Some ([], s)
      | [] \<Rightarrow> Some ([], []))"

definition parse_num :: "string \<Rightarrow> (json \<times> string) option" where
  "parse_num s =
     (let (sg, s1) = (case s of c # cs \<Rightarrow> if c = CHR ''-'' then ([c], cs) else ([], s) | [] \<Rightarrow> ([], []))
      in case num_int s1 of
           None \<Rightarrow> None
         | Some (i, s2) \<Rightarrow>
             (case num_frac s2 of
                None \<Rightarrow> None
              | Some (f, s3) \<Rightarrow>
                  (case num_exp s3 of
                     None \<Rightarrow> None
                   | Some (e, s4) \<Rightarrow> Some (JNum (sg @ i @ f @ e), s4))))"

section \<open>Values\<close>

fun parse_value :: "nat \<Rightarrow> string \<Rightarrow> (json \<times> string) option"
  and parse_elems :: "nat \<Rightarrow> string \<Rightarrow> (json list \<times> string) option"
  and parse_members :: "nat \<Rightarrow> string \<Rightarrow> ((string \<times> json) list \<times> string) option" where
  "parse_value 0 s = None"
| "parse_value (Suc n) s =
     (case skip_ws s of
        [] \<Rightarrow> None
      | c # cs \<Rightarrow>
          if c = CHR 0x22 then map_option (\<lambda>(t, r). (JStr t, r)) (parse_str cs)
          else if c = CHR ''['' then
            (case skip_ws cs of
               [] \<Rightarrow> None
             | d # ds \<Rightarrow>
                 if d = CHR '']'' then Some (JArr [], ds)
                 else map_option (\<lambda>(vs, r). (JArr vs, r)) (parse_elems n (d # ds)))
          else if c = CHR ''{'' then
            (case skip_ws cs of
               [] \<Rightarrow> None
             | d # ds \<Rightarrow>
                 if d = CHR ''}'' then Some (JObj [], ds)
                 else map_option (\<lambda>(ms, r). (JObj ms, r)) (parse_members n (d # ds)))
          else if HasPrefix (c # cs) ''true'' then Some (JBool True, drop 4 (c # cs))
          else if HasPrefix (c # cs) ''false'' then Some (JBool False, drop 5 (c # cs))
          else if HasPrefix (c # cs) ''null'' then Some (JNull, drop 4 (c # cs))
          else parse_num (c # cs))"
| "parse_elems 0 s = None"
| "parse_elems (Suc n) s =
     (case parse_value n s of
        None \<Rightarrow> None
      | Some (v, r) \<Rightarrow>
          (case skip_ws r of
             [] \<Rightarrow> None
           | c # cs \<Rightarrow>
               if c = CHR '','' then map_option (\<lambda>(vs, z). (v # vs, z)) (parse_elems n cs)
               else if c = CHR '']'' then Some ([v], cs)
               else None))"
| "parse_members 0 s = None"
| "parse_members (Suc n) s =
     (case skip_ws s of
        [] \<Rightarrow> None
      | q # qs \<Rightarrow>
          if q \<noteq> CHR 0x22 then None
          else case parse_str qs of
            None \<Rightarrow> None
          | Some (k, r) \<Rightarrow>
              (case skip_ws r of
                 [] \<Rightarrow> None
               | c # cs \<Rightarrow>
                   if c \<noteq> CHR '':'' then None
                   else case parse_value n cs of
                     None \<Rightarrow> None
                   | Some (v, r1) \<Rightarrow>
                       (case skip_ws r1 of
                          [] \<Rightarrow> None
                        | d # ds \<Rightarrow>
                            if d = CHR '','' then map_option (\<lambda>(ms, z). ((k, v) # ms, z)) (parse_members n ds)
                            else if d = CHR ''}'' then Some ([(k, v)], ds)
                            else None)))"

definition json_parse :: "string \<Rightarrow> json option" where
  "json_parse s =
     (case parse_value (2 * length s + 2) s of
        None \<Rightarrow> None
      | Some (v, r) \<Rightarrow> if skip_ws r = [] then Some v else None)"

section \<open>The parser consumes its input\<close>

lemma skip_ws_length: "length (skip_ws s) \<le> length s"
  by (induction s) auto

lemma skip_ws_Cons: "skip_ws s = c # cs \<Longrightarrow> length cs < length s"
  using skip_ws_length [of s] by simp

lemma parse_str_length: "parse_str s = Some (t, r) \<Longrightarrow> length r < length s"
proof (induction s arbitrary: t r rule: length_induct)
  case (1 s)
  show ?case
  proof (cases s)
    case Nil
    with "1.prems" show ?thesis by (simp add: parse_str.simps)
  next
    case (Cons c cs)
    from "1.prems" consider "r = cs" | x r1 t1 where "parse_escape cs = Some (x, r1)" "parse_str r1 = Some (t1, r)"
      | t1 where "parse_str cs = Some (t1, r)"
      by (subst (asm) parse_str.simps) (auto simp: Cons split: if_splits option.splits)
    then show ?thesis
    proof cases
      case (2 x r1 t1)
      with "1.IH" Cons show ?thesis
        by (metis length_Cons less_SucI less_trans parse_escape_length)
    next
      case (3 t1)
      with "1.IH" Cons show ?thesis by (metis impossible_Cons not_le length_Cons less_Suc_eq)
    qed (simp add: Cons)
  qed
qed

lemma dropWhile_Suc: "length (dropWhile P s) < Suc (length s)"
  by (simp add: length_dropWhile_le less_Suc_eq_le)

lemma num_int_length: "num_int s = Some (i, r) \<Longrightarrow> length r < length s"
  by (cases s) (auto simp: num_int_def span_digits_def dropWhile_Suc split: if_splits)

lemma num_frac_length: "num_frac s = Some (f, r) \<Longrightarrow> length r \<le> length s"
  by (cases s)
     (auto simp: num_frac_def span_digits_def length_dropWhile_le le_SucI split: if_splits)

lemma num_exp_length: "num_exp s = Some (e, r) \<Longrightarrow> length r \<le> length s"
proof (cases s)
  case (Cons c cs)
  assume e: "num_exp s = Some (e, r)"
  show ?thesis
    using e Cons length_dropWhile_le [of is_digit cs] length_dropWhile_le [of is_digit "tl cs"]
    by (cases cs) (auto simp: num_exp_def span_digits_def split: if_splits)
qed (simp add: num_exp_def)

lemma parse_num_length: "parse_num s = Some (v, r) \<Longrightarrow> length r < length s"
proof -
  assume a: "parse_num s = Some (v, r)"
  obtain sg s1 where s1: "(case s of c # cs \<Rightarrow> if c = CHR ''-'' then ([c], cs) else ([], s) | [] \<Rightarrow> ([], [])) = (sg, s1)"
    by fastforce
  then have "length s1 \<le> length s" by (auto split: list.splits if_splits)
  moreover from a s1 obtain i s2 f s3 e where "num_int s1 = Some (i, s2)" "num_frac s2 = Some (f, s3)"
    "num_exp s3 = Some (e, r)"
    by (auto simp: parse_num_def split: option.splits)
  ultimately show ?thesis
    using num_int_length num_frac_length num_exp_length by (metis le_trans not_le)
qed

lemma parse_length:
  "(\<forall>s v r. parse_value n s = Some (v, r) \<longrightarrow> length r < length s) \<and>
   (\<forall>s vs r. parse_elems n s = Some (vs, r) \<longrightarrow> length r < length s) \<and>
   (\<forall>s ms r. parse_members n s = Some (ms, r) \<longrightarrow> length r < length s)"
proof (induction n)
  case (Suc n)
  then have V: "\<And>s v r. parse_value n s = Some (v, r) \<Longrightarrow> length r < length s"
    and E: "\<And>s vs r. parse_elems n s = Some (vs, r) \<Longrightarrow> length r < length s"
    and M: "\<And>s ms r. parse_members n s = Some (ms, r) \<Longrightarrow> length r < length s"
    by blast+
  have "length r < length s" if "parse_value (Suc n) s = Some (v, r)" for s v r
  proof (cases "skip_ws s")
    case (Cons c cs)
    then have l: "length cs < length s" by (rule skip_ws_Cons)
    from that Cons consider t where "parse_str cs = Some (t, r)"
      | d ds where "skip_ws cs = d # ds" "r = ds"
      | d ds vs where "skip_ws cs = d # ds" "parse_elems n (d # ds) = Some (vs, r)"
      | d ds ms where "skip_ws cs = d # ds" "parse_members n (d # ds) = Some (ms, r)"
      | k where "r = drop (Suc k) (c # cs)" | "parse_num (c # cs) = Some (v, r)"
      by (auto split: if_splits list.splits simp: eval_nat_numeral)
    then show ?thesis
      using l skip_ws_length [of cs]
      by cases (auto dest!: parse_str_length parse_num_length E M skip_ws_Cons)
  qed (use that in simp)
  moreover have "length r < length s" if "parse_elems (Suc n) s = Some (vs, r)" for s vs r
  proof -
    from that obtain v r1 where v: "parse_value n s = Some (v, r1)"
      by (auto split: option.splits)
    with that obtain c cs where c: "skip_ws r1 = c # cs" by (auto split: list.splits)
    from that v c consider "r = cs" | vs' where "parse_elems n cs = Some (vs', r)"
      by (auto split: if_splits)
    then show ?thesis using V [OF v] skip_ws_Cons [OF c] by cases (auto dest!: E)
  qed
  moreover have "length r < length s" if "parse_members (Suc n) s = Some (ms, r)" for s ms r
  proof -
    from that obtain qs k r1 where q: "skip_ws s = CHR 0x22 # qs" "parse_str qs = Some (k, r1)"
      by (auto split: list.splits if_splits option.splits)
    with that obtain cs v r2 where c: "skip_ws r1 = CHR '':'' # cs" "parse_value n cs = Some (v, r2)"
      by (auto split: list.splits if_splits option.splits)
    with that q obtain d ds where d: "skip_ws r2 = d # ds" by (auto split: list.splits)
    from that q c d consider "r = ds" | ms' where "parse_members n ds = Some (ms', r)"
      by (auto split: if_splits)
    then show ?thesis
      using skip_ws_Cons [OF q(1)] parse_str_length [OF q(2)] skip_ws_Cons [OF c(1)] V [OF c(2)]
        skip_ws_Cons [OF d]
      by cases (auto dest!: M)
  qed
  ultimately show ?case by blast
qed simp

declare parse_value.simps(2) [simp del] parse_elems.simps(2) [simp del] parse_members.simps(2) [simp del]

text \<open>More fuel than twice the length of the input does not change the result.\<close>

lemma parse_fuel:
  "(\<forall>s. 2 * length s < n \<longrightarrow> parse_value (Suc n) s = parse_value n s) \<and>
   (\<forall>s. 2 * length s + 1 < n \<longrightarrow> parse_elems (Suc n) s = parse_elems n s) \<and>
   (\<forall>s. 2 * length s + 1 < n \<longrightarrow> parse_members (Suc n) s = parse_members n s)"
proof (induction n)
  case (Suc n)
  then have V: "\<And>s. 2 * length s < n \<Longrightarrow> parse_value (Suc n) s = parse_value n s"
    and E: "\<And>s. 2 * length s + 1 < n \<Longrightarrow> parse_elems (Suc n) s = parse_elems n s"
    and M: "\<And>s. 2 * length s + 1 < n \<Longrightarrow> parse_members (Suc n) s = parse_members n s"
    by blast+
  have "parse_value (Suc (Suc n)) s = parse_value (Suc n) s" if "2 * length s < Suc n" for s
  proof (cases "skip_ws s")
    case (Cons c cs)
    have "2 * length (d # ds) + 1 < n" if "skip_ws cs = d # ds" for d ds
      using that \<open>2 * length s < Suc n\<close> skip_ws_Cons [OF Cons] skip_ws_length [of cs] by simp
    then show ?thesis
      using Cons E M
      by (cases "skip_ws cs") (simp_all add: parse_value.simps(2))
  qed (simp add: parse_value.simps(2))
  moreover have "parse_elems (Suc (Suc n)) s = parse_elems (Suc n) s" if "2 * length s + 1 < Suc n" for s
  proof -
    have "2 * length cs + 1 < n" if "parse_value n s = Some (v, r)" "skip_ws r = c # cs" for v r c cs
      using that \<open>2 * length s + 1 < Suc n\<close> parse_length [of n] skip_ws_Cons [OF that(2)] by fastforce
    with E have "parse_elems (Suc n) cs = parse_elems n cs"
      if "parse_value n s = Some (v, r)" "skip_ws r = c # cs" for v r c cs
      using that by blast
    then show ?thesis
      using V [of s] \<open>2 * length s + 1 < Suc n\<close>
      by (simp add: parse_elems.simps(2) split: list.split option.split)
  qed
  moreover have "parse_members (Suc (Suc n)) s = parse_members (Suc n) s" if "2 * length s + 1 < Suc n" for s
  proof -
    have v: "parse_value (Suc n) cs = parse_value n cs"
      if "skip_ws s = q # qs" "parse_str qs = Some (k, r)" "skip_ws r = c # cs" for q qs k r c cs
      using \<open>2 * length s + 1 < Suc n\<close> skip_ws_Cons [OF that(1)] parse_str_length [OF that(2)]
        skip_ws_Cons [OF that(3)]
      by (intro V) linarith
    have m: "parse_members (Suc n) ds = parse_members n ds"
      if "skip_ws s = q # qs" "parse_str qs = Some (k, r)" "skip_ws r = c # cs"
        "parse_value n cs = Some (w, r1)" "skip_ws r1 = d # ds" for q qs k r c cs w r1 d ds
    proof -
      from parse_length [of n] that(4) have "length r1 < length cs" by blast
      then show ?thesis
        using \<open>2 * length s + 1 < Suc n\<close> skip_ws_Cons [OF that(1)] parse_str_length [OF that(2)]
          skip_ws_Cons [OF that(3)] skip_ws_Cons [OF that(5)]
        by (intro M) linarith
    qed
    show ?thesis
      using v m by (simp add: parse_members.simps(2) split: list.split option.split)
  qed
  ultimately show ?case by blast
qed simp

lemma parse_value_enough:
  "2 * length s < n \<Longrightarrow> n \<le> m \<Longrightarrow> parse_value m s = parse_value n s"
  by (induction m) (auto simp: parse_fuel le_Suc_eq)

text \<open>\<open>json_parse\<close> is independent of the fuel.\<close>

lemma json_parse_fuel:
  "2 * length s < n \<Longrightarrow>
   json_parse s = (case parse_value n s of None \<Rightarrow> None | Some (v, r) \<Rightarrow> if skip_ws r = [] then Some v else None)"
  unfolding json_parse_def
  by (metis (no_types, lifting) add_2_eq_Suc' le_add2 less_Suc_eq nat_le_linear parse_value_enough)

end
