(* ===== verification/Json_Print.thy ===== *)
theory Json_Print
  imports Json
begin

text \<open>
  \<open>json.Marshal\<close> as a printer of JSON values, and the round trip with the parser.
\<close>

section \<open>Marshal\<close>

definition hex_digit :: "nat \<Rightarrow> char" where
  "hex_digit d = (if d < 10 then char_of (48 + d) else char_of (87 + d))"

definition json_escape :: "char \<Rightarrow> string" where
  "json_escape c =
     (let k = of_char c :: nat in
      if k = 34 \<or> k = 92 then [CHR 0x5C, c]
      else if k = 10 then [CHR 0x5C, CHR ''n'']
      else if k = 13 then [CHR 0x5C, CHR ''r'']
      else if k = 9 then [CHR 0x5C, CHR ''t'']
      else if k < 32 \<or> k = 60 \<or> k = 62 \<or> k = 38 then
        [CHR 0x5C, CHR ''u'', CHR ''0'', CHR ''0'', hex_digit (k div 16), hex_digit (k mod 16)]
      else [c])"

definition print_str :: "string \<Rightarrow> string" where
  "print_str s = CHR 0x22 # concat (map json_escape s) @ [CHR 0x22]"

fun print_json :: "json \<Rightarrow> string" where
  "print_json JNull = ''null''"
| "print_json (JBool b) = (if b then ''true'' else ''false'')"
| "print_json (JNum s) = s"
| "print_json (JStr s) = print_str s"
| "print_json (JArr vs) = CHR ''['' # Join (map print_json vs) '','' @ '']''"
| "print_json (JObj ms) =
     CHR ''{'' # Join (map (\<lambda>(k, v). print_str k @ CHR '':'' # print_json v) ms) '','' @ ''}''"

section \<open>Round trip\<close>

lemma hex_val_hex_digit: "d < 16 \<Longrightarrow> hex_val (hex_digit d) = Some d"
  by (auto simp: hex_val_def hex_digit_def)

lemma char_eqI: "of_char c = (of_char d :: nat) \<Longrightarrow> c = d"
  by (simp add: of_char_eq_iff)

lemma parse_str_escape:
  "parse_str (json_escape c @ s) = map_option (\<lambda>(t, r). (c # t, r)) (parse_str s)"
proof -
  let ?k = "of_char c :: nat"
  have lt: "?k < 256" by simp
  consider "?k = 34 \<or> ?k = 92" | "?k = 10" | "?k = 13" | "?k = 9"
    | "\<not> (?k = 34 \<or> ?k = 92)" "?k \<noteq> 10" "?k \<noteq> 13" "?k \<noteq> 9" "?k < 32 \<or> ?k = 60 \<or> ?k = 62 \<or> ?k = 38"
    | "\<not> (?k = 34 \<or> ?k = 92)" "\<not> (?k < 32 \<or> ?k = 60 \<or> ?k = 62 \<or> ?k = 38)" by blast
  then show ?thesis
  proof cases
    case 1
    then have "c = CHR 0x22 \<or> c = CHR 0x5C"
      using char_eqI [of c "CHR 0x22"] char_eqI [of c "CHR 0x5C"] by auto
    then show ?thesis
      by (subst parse_str.simps) (auto simp: json_escape_def parse_escape_def simple_escape_def)
  next
    case 5
    have h: "hex4 CHR ''0'' CHR ''0'' (hex_digit (?k div 16)) (hex_digit (?k mod 16)) = Some ?k"
    proof -
      have "hex_val CHR ''0'' = Some 0" by (simp add: hex_val_def)
      moreover have "?k div 16 < 16"
        by (rule less_mult_imp_div_less) (use lt in simp)
      moreover have "?k mod 16 < 16" by simp
      ultimately show ?thesis by (simp add: hex4_def hex_val_hex_digit)
    qed
    have e: "json_escape c =
        [CHR 0x5C, CHR ''u'', CHR ''0'', CHR ''0'', hex_digit (?k div 16), hex_digit (?k mod 16)]"
      using 5 by (simp add: json_escape_def Let_def)
    have "utf8 ?k = [c]" "?k < 128" using 5 by (auto simp: utf8_def)
    with h show ?thesis
      unfolding e by (subst parse_str.simps) (simp add: parse_escape_def parse_u_def)
  next
    case 6
    then have "c \<noteq> CHR 0x22" "c \<noteq> CHR 0x5C" by auto
    with 6 show ?thesis by (subst parse_str.simps) (auto simp: json_escape_def)
  next
    case 2
    then have "c = CHR 0x0A" using char_eqI [of c "CHR 0x0A"] by simp
    then show ?thesis
      by (simp add: parse_str.simps [of "_ # _"] json_escape_def parse_escape_def simple_escape_def)
  next
    case 3
    then have "c = CHR 0x0D" using char_eqI [of c "CHR 0x0D"] by simp
    then show ?thesis
      by (simp add: parse_str.simps [of "_ # _"] json_escape_def parse_escape_def simple_escape_def)
  next
    case 4
    then have "c = CHR 0x09" using char_eqI [of c "CHR 0x09"] by simp
    then show ?thesis
      by (simp add: parse_str.simps [of "_ # _"] json_escape_def parse_escape_def simple_escape_def)
  qed
qed

lemma parse_str_print: "parse_str (concat (map json_escape s) @ CHR 0x22 # r) = Some (s, r)"
proof (induction s)
  case Nil
  show ?case by (subst parse_str.simps) simp
next
  case (Cons c s)
  then show ?case by (simp add: parse_str_escape)
qed

text \<open>Values whose numbers are decimal naturals, and texts that do not continue a number.\<close>

fun json_ok :: "json \<Rightarrow> bool" where
  "json_ok (JNum s) \<longleftrightarrow> (\<exists>n. s = fmt_nat n)"
| "json_ok (JArr vs) \<longleftrightarrow> (\<forall>v \<in> set vs. json_ok v)"
| "json_ok (JObj ms) \<longleftrightarrow> (\<forall>(k, v) \<in> set ms. json_ok v)"
| "json_ok _ \<longleftrightarrow> True"

definition num_end :: "string \<Rightarrow> bool" where
  "num_end r \<longleftrightarrow> (case r of [] \<Rightarrow> True
     | c # _ \<Rightarrow> \<not> is_digit c \<and> c \<noteq> CHR ''.'' \<and> c \<noteq> CHR ''e'' \<and> c \<noteq> CHR ''E'')"

lemma num_end_simps [simp]:
  "num_end []" "num_end (CHR '','' # r)" "num_end (CHR '']'' # r)" "num_end (CHR ''}'' # r)"
  by (simp_all add: num_end_def is_digit_def digit_val_def)

lemma fmt_nat_hd: "hd (fmt_nat n) = CHR ''0'' \<Longrightarrow> n = 0"
proof (induction n rule: fmt_nat.induct)
  case (1 n)
  show ?case
  proof (cases "n < 10")
    case True
    with "1.prems" have "char_of (48 + n) = CHR ''0''" by (simp add: fmt_nat.simps [of n])
    then have "(of_char (char_of (48 + n) :: char) :: nat) = 48" by simp
    with True show ?thesis by simp
  next
    case False
    with "1.prems" have "hd (fmt_nat (n div 10)) = CHR ''0''" by (simp add: fmt_nat.simps [of n])
    with "1.IH" False show ?thesis by simp
  qed
qed

lemma num_int_fmt_nat:
  assumes "num_end r"
  shows "num_int (fmt_nat n @ r) = Some (fmt_nat n, r)"
proof -
  have all: "\<And>c. c \<in> set (fmt_nat n) \<Longrightarrow> is_digit c" by (rule fmt_nat_digits)
  have "\<not> is_digit (hd r)" if "r \<noteq> []" using assms that by (auto simp: num_end_def split: list.splits)
  then have r: "takeWhile is_digit r = []" "dropWhile is_digit r = r" by (cases r; simp)+
  obtain c cs where f: "fmt_nat n = c # cs" by (cases "fmt_nat n") auto
  show ?thesis
  proof (cases "c = CHR ''0''")
    case True
    with f have "n = 0" using fmt_nat_hd [of n] by simp
    with f have "cs = []" by (simp add: fmt_nat.simps)
    with f True show ?thesis by (simp add: num_int_def)
  next
    case False
    have "span_digits (fmt_nat n @ r) = (fmt_nat n, r)"
      using all r by (simp add: span_digits_def takeWhile_append dropWhile_append)
    with False f all show ?thesis by (simp add: num_int_def)
  qed
qed

lemma parse_num_fmt_nat: "num_end r \<Longrightarrow> parse_num (fmt_nat n @ r) = Some (JNum (fmt_nat n), r)"
proof -
  assume r: "num_end r"
  obtain c cs where f: "fmt_nat n = c # cs" by (cases "fmt_nat n") auto
  have "is_digit c" using fmt_nat_digits [of c n] f by simp
  then have "c \<noteq> CHR ''-''" by (auto dest: is_digit_not_sign)
  with f num_int_fmt_nat [OF r, of n] r show ?thesis
    by (cases r) (auto simp: parse_num_def num_frac_def num_exp_def num_end_def)
qed

lemma json_ws_punct [simp]:
  "\<not> json_ws CHR 0x22" "\<not> json_ws CHR ''[''" "\<not> json_ws CHR '']''" "\<not> json_ws CHR ''{''"
  "\<not> json_ws CHR ''}''" "\<not> json_ws CHR '',''" "\<not> json_ws CHR '':''"
  "\<not> json_ws CHR ''n''" "\<not> json_ws CHR ''t''" "\<not> json_ws CHR ''f''"
  by (simp_all add: json_ws_def)

lemma json_ws_digit: "is_digit c \<Longrightarrow> \<not> json_ws c"
  by (auto simp: json_ws_def is_digit_def digit_val_def Let_def split: if_splits)

lemma fmt_nat_Cons:
  obtains c cs where "fmt_nat n = c # cs" "is_digit c"
  by (metis fmt_nat_digits fmt_nat_ne list.exhaust list.set_intros(1))

lemma digit_not_punct:
  "is_digit c \<Longrightarrow> c \<noteq> CHR '']'' \<and> c \<noteq> CHR ''}'' \<and> c \<noteq> CHR ''['' \<and> c \<noteq> CHR ''{'' \<and> c \<noteq> CHR 0x22 \<and>
    c \<noteq> CHR ''t'' \<and> c \<noteq> CHR ''f'' \<and> c \<noteq> CHR ''n''"
  by (auto simp: is_digit_def digit_val_def)

text \<open>The first byte of a printed value.\<close>

lemma print_json_hd:
  assumes "json_ok v"
  shows "\<exists>c cs. print_json v = c # cs \<and> \<not> json_ws c \<and> c \<noteq> CHR '']'' \<and> c \<noteq> CHR ''}''"
proof (cases v)
  case (JNum s)
  with assms obtain n where n: "s = fmt_nat n" by auto
  show ?thesis
    using JNum n json_ws_digit digit_not_punct by (metis fmt_nat_Cons print_json.simps(3))
next
  case (JBool b)
  then show ?thesis by (cases b) simp_all
qed (simp_all add: print_str_def)

lemma parse_members_Cons:
  assumes "parse_value n (print_json v @ x # s) = Some (v, x # s)"
  shows "parse_members (Suc n) (print_str k @ CHR '':'' # print_json v @ x # s) =
    (case skip_ws (x # s) of
       [] \<Rightarrow> None
     | d # ds \<Rightarrow>
         if d = CHR '','' then map_option (\<lambda>(ms, z). ((k, v) # ms, z)) (parse_members n ds)
         else if d = CHR ''}'' then Some ([(k, v)], ds)
         else None)"
  using assms parse_str_print [of k "CHR '':'' # print_json v @ x # s"]
  by (simp add: print_str_def parse_members.simps(2))

text \<open>\<open>reads v\<close>: with enough fuel the printed value is read back and the rest is left.\<close>

definition reads :: "json \<Rightarrow> bool" where
  "reads v \<longleftrightarrow> (\<forall>r. num_end r \<longrightarrow> (\<exists>N. \<forall>n \<ge> N. parse_value n (print_json v @ r) = Some (v, r)))"

lemma readsE:
  assumes "reads v" "num_end r"
  obtains N where "\<And>n. N \<le> n \<Longrightarrow> parse_value n (print_json v @ r) = Some (v, r)"
  using assms unfolding reads_def by blast

lemma Suc_le_E:
  assumes "Suc N \<le> n" obtains m where "n = Suc m" "N \<le> m"
  using assms by (cases n) auto

lemma parse_elems_print:
  "vs \<noteq> [] \<Longrightarrow> \<forall>v \<in> set vs. reads v \<Longrightarrow>
   \<exists>N. \<forall>n \<ge> N. parse_elems n (Join (map print_json vs) '','' @ CHR '']'' # r) = Some (vs, r)"
proof (induction vs rule: list_nonempty_induct)
  case (single v)
  then have "reads v" by simp
  then obtain N where N: "\<And>n. N \<le> n \<Longrightarrow> parse_value n (print_json v @ CHR '']'' # r) = Some (v, CHR '']'' # r)"
    using readsE [OF _ num_end_simps(3) [of r]] by metis
  show ?case
    by (rule exI [of _ "Suc N"]) (auto elim!: Suc_le_E simp: parse_elems.simps(2) N)
next
  case (cons v vs)
  then obtain w ws where vs: "vs = w # ws" by (cases vs) auto
  let ?r = "Join (map print_json vs) '','' @ CHR '']'' # r"
  obtain N where N: "\<And>n. N \<le> n \<Longrightarrow> parse_value n (print_json v @ CHR '','' # ?r) = Some (v, CHR '','' # ?r)"
    using cons.prems readsE [OF _ num_end_simps(2) [of ?r]] by (metis list.set_intros(1))
  obtain M where M: "\<And>n. M \<le> n \<Longrightarrow> parse_elems n ?r = Some (vs, r)"
    using cons.IH cons.prems by auto
  have j: "Join (map print_json (v # vs)) '','' @ CHR '']'' # r = print_json v @ CHR '','' # ?r"
    by (simp add: vs)
  show ?case
    unfolding j
    by (rule exI [of _ "Suc (max N M)"]) (auto elim!: Suc_le_E simp: parse_elems.simps(2) N M)
qed

abbreviation print_member :: "string \<times> json \<Rightarrow> string" where
  "print_member \<equiv> \<lambda>(k, v). print_str k @ CHR '':'' # print_json v"

lemma parse_members_print:
  "ms \<noteq> [] \<Longrightarrow> \<forall>(k, v) \<in> set ms. reads v \<Longrightarrow>
   \<exists>N. \<forall>n \<ge> N. parse_members n (Join (map print_member ms) '','' @ CHR ''}'' # r) = Some (ms, r)"
proof (induction ms rule: list_nonempty_induct)
  case (single m)
  obtain k v where m: "m = (k, v)" by fastforce
  with single have "reads v" by simp
  then obtain N where N: "\<And>n. N \<le> n \<Longrightarrow> parse_value n (print_json v @ CHR ''}'' # r) = Some (v, CHR ''}'' # r)"
    using readsE [OF _ num_end_simps(4) [of r]] by metis
  show ?case
    by (rule exI [of _ "Suc N"]) (auto elim!: Suc_le_E simp: parse_members_Cons N m)
next
  case (cons m ms)
  obtain k v where m: "m = (k, v)" by fastforce
  from cons m have "reads v" by simp
  from cons obtain w ws where ms: "ms = w # ws" by (cases ms) auto
  let ?r = "Join (map print_member ms) '','' @ CHR ''}'' # r"
  obtain N where N: "\<And>n. N \<le> n \<Longrightarrow> parse_value n (print_json v @ CHR '','' # ?r) = Some (v, CHR '','' # ?r)"
    using \<open>reads v\<close> readsE [OF _ num_end_simps(2) [of ?r]] by metis
  obtain M where M: "\<And>n. M \<le> n \<Longrightarrow> parse_members n ?r = Some (ms, r)"
    using cons.IH cons.prems by auto
  have j: "Join (map print_member (m # ms)) '','' @ CHR ''}'' # r = print_str k @ CHR '':'' # print_json v @ CHR '','' # ?r"
    by (simp add: ms m)
  show ?case
    unfolding j
    by (rule exI [of _ "Suc (max N M)"]) (auto elim!: Suc_le_E simp: parse_members_Cons N M m)
qed

lemma Join_hd: "xs \<noteq> [] \<Longrightarrow> hd xs = c # cs \<Longrightarrow> \<exists>t. Join xs sep = c # t"
  by (induction xs sep rule: Join.induct) auto

lemma json_ok_reads: "json_ok v \<Longrightarrow> reads v"
proof (induction v rule: json.induct)
  case (JNum s)
  then obtain n where n: "s = fmt_nat n" by auto
  obtain c cs where c: "fmt_nat n = c # cs" "is_digit c" by (rule fmt_nat_Cons)
  show ?case
    unfolding reads_def
  proof (intro allI impI exI [of _ "Suc 0"])
    fix r k
    assume r: "num_end r" and "Suc 0 \<le> k"
    then obtain m where k: "k = Suc m" by (auto elim: Suc_le_E)
    show "parse_value k (print_json (JNum s) @ r) = Some (JNum s, r)"
      using parse_num_fmt_nat [OF r, of n] c json_ws_digit [OF c(2)] digit_not_punct [OF c(2)]
      by (simp add: k n parse_value.simps(2) HasPrefix_def)
  qed
next
  case (JArr vs)
  show ?case
    unfolding reads_def
  proof (intro allI impI)
    fix r
    show "\<exists>N. \<forall>n\<ge>N. parse_value n (print_json (JArr vs) @ r) = Some (JArr vs, r)"
    proof (cases "vs = []")
      case True
      then show ?thesis
        by (intro exI [of _ "Suc 0"]) (auto elim!: Suc_le_E simp: parse_value.simps(2))
    next
      case False
      with JArr have "\<forall>v \<in> set vs. reads v" by auto
      from parse_elems_print [OF False this, of r] obtain N
        where N: "\<And>n. N \<le> n \<Longrightarrow> parse_elems n (Join (map print_json vs) '','' @ CHR '']'' # r) = Some (vs, r)"
        by blast
      have "json_ok (hd vs)" using False JArr.prems by simp
      from print_json_hd [OF this] obtain c cs where c: "print_json (hd vs) = c # cs" "\<not> json_ws c" "c \<noteq> CHR '']''"
        by blast
      obtain t where "Join (map print_json vs) '','' = c # t"
        using Join_hd [of "map print_json vs" c cs] False c by (auto simp: hd_map)
      with N c show ?thesis
        by (intro exI [of _ "Suc N"]) (auto elim!: Suc_le_E simp: parse_value.simps(2))
    qed
  qed
next
  case (JObj ms)
  show ?case
    unfolding reads_def
  proof (intro allI impI)
    fix r
    show "\<exists>N. \<forall>n\<ge>N. parse_value n (print_json (JObj ms) @ r) = Some (JObj ms, r)"
    proof (cases "ms = []")
      case True
      then show ?thesis
        by (intro exI [of _ "Suc 0"]) (auto elim!: Suc_le_E simp: parse_value.simps(2))
    next
      case False
      with JObj have "\<forall>(k, v) \<in> set ms. reads v" by fastforce
      from parse_members_print [OF False this, of r] obtain N
        where N: "\<And>n. N \<le> n \<Longrightarrow> parse_members n (Join (map print_member ms) '','' @ CHR ''}'' # r) = Some (ms, r)"
        by blast
      obtain t where "Join (map print_member ms) '','' = CHR 0x22 # t"
        using Join_hd [of "map print_member ms" "CHR 0x22"] False
        by (auto simp: hd_map print_str_def split_beta)
      with N show ?thesis
        by (intro exI [of _ "Suc N"]) (auto elim!: Suc_le_E simp: parse_value.simps(2))
    qed
  qed
qed (auto simp: reads_def parse_value.simps(2) print_str_def parse_str_print HasPrefix_def
    intro!: exI [of _ "Suc 0"] elim!: Suc_le_E split: if_splits)

lemma json_parse_print: "json_ok v \<Longrightarrow> json_parse (print_json v) = Some v"
proof -
  assume "json_ok v"
  then obtain N where N: "\<And>n. N \<le> n \<Longrightarrow> parse_value n (print_json v @ []) = Some (v, [])"
    by (metis json_ok_reads num_end_simps(1) readsE)
  let ?n = "max N (2 * length (print_json v) + 1)"
  show ?thesis
    using N [of ?n] json_parse_fuel [of "print_json v" ?n] by simp
qed

section \<open>Unmarshal into Go values\<close>

definition ascii_lower :: "char \<Rightarrow> char" where
  "ascii_lower c = (let k = of_char c :: nat in if 65 \<le> k \<and> k \<le> 90 then char_of (k + 32) else c)"

definition key_eq :: "string \<Rightarrow> string \<Rightarrow> bool" where
  "key_eq k k' \<longleftrightarrow> map ascii_lower k = map ascii_lower k'"

text \<open>A struct is filled member by member; \<open>None\<close> is an error of \<open>Unmarshal\<close>.\<close>

fun dec_fields :: "('s \<Rightarrow> string \<Rightarrow> json \<Rightarrow> 's option) \<Rightarrow> 's \<Rightarrow> (string \<times> json) list \<Rightarrow> 's option" where
  "dec_fields f x [] = Some x"
| "dec_fields f x ((k, v) # ms) = (case f x k v of None \<Rightarrow> None | Some y \<Rightarrow> dec_fields f y ms)"

definition dec_struct :: "('s \<Rightarrow> string \<Rightarrow> json \<Rightarrow> 's option) \<Rightarrow> 's \<Rightarrow> json \<Rightarrow> 's option" where
  "dec_struct f x v = (case v of JObj ms \<Rightarrow> dec_fields f x ms | JNull \<Rightarrow> Some x | _ \<Rightarrow> None)"

definition as_str :: "string \<Rightarrow> json \<Rightarrow> string option" where
  "as_str old v = (case v of JStr s \<Rightarrow> Some s | JNull \<Rightarrow> Some old | _ \<Rightarrow> None)"

definition as_uint :: "64 word \<Rightarrow> json \<Rightarrow> 64 word option" where
  "as_uint old v = (case v of JNum s \<Rightarrow> ParseUint s | JNull \<Rightarrow> Some old | _ \<Rightarrow> None)"

text \<open>A \<open>float64\<close> field whose value the program does not use.\<close>

definition as_float :: "'s \<Rightarrow> json \<Rightarrow> 's option" where
  "as_float x v = (case v of JNum _ \<Rightarrow> Some x | JNull \<Rightarrow> Some x | _ \<Rightarrow> None)"

definition dec_list :: "(json \<Rightarrow> 'a option) \<Rightarrow> json \<Rightarrow> 'a list option" where
  "dec_list f v = (case v of JArr vs \<Rightarrow> those (map f vs) | JNull \<Rightarrow> Some [] | _ \<Rightarrow> None)"

text \<open>\<open>map[string]string\<close>: written with sorted keys, read entry by entry.\<close>

definition dec_smap :: "json \<Rightarrow> (string, string) gomap option" where
  "dec_smap v = dec_struct (\<lambda>m k x. map_option (\<lambda>s. gm_put k s m) (as_str [] x)) [] v"

definition unmarshal :: "(json \<Rightarrow> 'a option) \<Rightarrow> string \<Rightarrow> 'a option" where
  "unmarshal dec body = (case json_parse body of None \<Rightarrow> None | Some v \<Rightarrow> dec v)"

lemma unmarshal_print: "json_ok v \<Longrightarrow> unmarshal dec (print_json v) = dec v"
  by (simp add: unmarshal_def json_parse_print)

end
