(* ===== verification/Go_World.thy ===== *)
theory Go_World
  imports Config Json_Print
begin

text \<open>
  Everything outside the process, as a parameter: a record \<open>World\<close> of operations over an abstract
  state \<open>'w\<close> of the outside.  A call reads and advances this state, so two equal requests may be
  answered differently.  Pauses are in seconds, the clock is in nanoseconds.  The fields stand for
  \<open>net/http\<close> requests, the go-etcd client (modelled in \<open>Etcd_Client\<close>), the ZooKeeper client, the clock, and the order in which a \<open>range\<close> loop visits a Go map, which Go leaves open.
  The retry loop with truncated exponential backoff that the RPC functions share is here too.
\<close>

section \<open>Errors\<close>

text \<open>
  An error made by \<open>errors.New\<close> is its text, one made by \<open>fmt.Errorf\<close> is its format and arguments.
\<close>

datatype go_error =
    ErrNoLeader | ErrEtcdConnection | ErrEtcdEndpoint | ErrEtcdRaftTermInstability | ErrEtcdRaftStall
  | ErrHTTP | ErrReadBody | ErrJSON
  | ErrText string
  | ErrFmt string "string list"
  | ErrConfig config_error
  | ZkNodeExists | ZkNoNode | ZkOther

text \<open>A call that may panic.\<close>

datatype 'a outcome = Returns 'a | Panics

section \<open>The outside world\<close>

datatype http_method = GET | POST | PUT | DELETE

record http_request =
  req_method :: http_method
  req_url :: string
  req_body :: string

text \<open>A transport error, or a status with a body that could be read or not.\<close>

datatype http_result = HttpErr | HttpResp nat "string option"

record raft_response =
  RaftTerm :: "64 word"
  RaftIndex :: "64 word"

record 'w World =
  http_do :: "http_request \<Rightarrow> 'w \<Rightarrow> http_result \<times> 'w"
  etcd_sync :: "string \<Rightarrow> 'w \<Rightarrow> bool \<times> 'w"
  etcd_get :: "string \<Rightarrow> 'w \<Rightarrow> raft_response option \<times> 'w"
  sleep :: "nat \<Rightarrow> 'w \<Rightarrow> 'w"
  now :: "'w \<Rightarrow> int \<times> 'w"
  range_order :: "string list \<Rightarrow> 'w \<Rightarrow> string list \<times> 'w"
  zk_connect :: "string list \<Rightarrow> 'w \<Rightarrow> go_error option \<times> 'w"
  zk_create :: "string \<Rightarrow> string \<Rightarrow> 'w \<Rightarrow> go_error option \<times> 'w"
  zk_set :: "string \<Rightarrow> string \<Rightarrow> 'w \<Rightarrow> go_error option \<times> 'w"
  zk_get :: "string \<Rightarrow> 'w \<Rightarrow> (go_error + string) \<times> 'w"
  zk_delete :: "string \<Rightarrow> 'w \<Rightarrow> go_error option \<times> 'w"
  zk_children :: "string \<Rightarrow> 'w \<Rightarrow> (go_error + string list) \<times> 'w"

text \<open>
  A concrete world for examples: the clock and the Raft index are a counter, map order is list
  order, HTTP requests and ZooKeeper fail.
\<close>

definition demo_world :: "nat World" where
  "demo_world =
     \<lparr>http_do = (\<lambda>_ w. (HttpErr, Suc w)),
      etcd_sync = (\<lambda>_ w. (True, Suc w)),
      etcd_get = (\<lambda>_ w. (Some \<lparr>RaftTerm = 1, RaftIndex = of_nat w\<rparr>, Suc w)),
      sleep = (\<lambda>n w. w + n),
      now = (\<lambda>w. (int w * 1000000000, w)),
      range_order = Pair,
      zk_connect = (\<lambda>_ w. (Some ZkOther, w)),
      zk_create = (\<lambda>_ _ w. (Some ZkOther, w)),
      zk_set = (\<lambda>_ _ w. (Some ZkOther, w)),
      zk_get = (\<lambda>_ w. (Inl ZkOther, w)),
      zk_delete = (\<lambda>_ w. (Some ZkOther, w)),
      zk_children = (\<lambda>_ w. (Inl ZkOther, w))\<rparr>"

definition http_get :: "'w World \<Rightarrow> string \<Rightarrow> 'w \<Rightarrow> http_result \<times> 'w" where
  "http_get io url w = http_do io \<lparr>req_method = GET, req_url = url, req_body = []\<rparr> w"

text \<open>
  The order of a \<open>range\<close> loop over a map: any permutation of the keys.  An answer of the
  environment that is no permutation is not an order, and the order of the list is taken.
\<close>

definition go_range :: "'w World \<Rightarrow> (string, 'v) gomap \<Rightarrow> 'w \<Rightarrow> (string \<times> 'v) list \<times> 'w" where
  "go_range io m w =
     (let (ks, w1) = range_order io (map fst m) w
      in (if mset ks = mset (map fst m) then map (\<lambda>k. (k, the (gm_get m k))) ks else m, w1))"

lemma go_range_mset:
  assumes "gm_ok m"
  shows "mset (fst (go_range io m w)) = mset m"
proof -
  obtain ks w1 where o: "range_order io (map fst m) w = (ks, w1)" by fastforce
  have "map (\<lambda>k. (k, the (gm_get m k))) (map fst m) = m"
    using assms by (auto simp: gm_ok_def intro!: map_idI)
  then have "image_mset (\<lambda>k. (k, the (gm_get m k))) (mset (map fst m)) = mset m"
    by (metis mset_map)
  with o show ?thesis by (auto simp: go_range_def image_mset.compositionality comp_def)
qed

lemma go_range_set: "gm_ok m \<Longrightarrow> set (fst (go_range io m w)) = set m"
  using go_range_mset [of m io w] by (metis set_mset_mset)

lemma go_range_length: "gm_ok m \<Longrightarrow> length (fst (go_range io m w)) = length m"
  using go_range_mset [of m io w] by (metis size_mset)

lemma go_range_Nil [simp]: "fst (go_range io [] w) = []"
  by (simp add: go_range_def split_beta)

lemma go_range_distinct: "gm_ok m \<Longrightarrow> distinct (map fst (fst (go_range io m w)))"
  using go_range_mset [of m io w] unfolding gm_ok_def
  by (metis distinct_mset_subset mset_map subset_mset.order_refl)

section \<open>Retries\<close>

definition next_backoff :: "nat \<Rightarrow> nat" where
  "next_backoff b = min (2 * b) 8"

text \<open>
  \<open>for retries := 0; retries < n; retries++ { body; sleep(backoff); backoff = min(backoff << 1, 8) }\<close>.
  The body returns from the function (\<open>Inl\<close>) or goes on with an updated local state (\<open>Inr\<close>).
\<close>

fun retry_loop ::
    "'w World \<Rightarrow> nat \<Rightarrow> nat \<Rightarrow> ('a \<Rightarrow> 'w \<Rightarrow> ('r + 'a) \<times> 'w) \<Rightarrow> 'a \<Rightarrow> 'w \<Rightarrow> ('r + 'a) \<times> 'w" where
  "retry_loop io 0 b body a w = (Inr a, w)"
| "retry_loop io (Suc n) b body a w =
     (case body a w of
        (Inl r, w1) \<Rightarrow> (Inl r, w1)
      | (Inr a1, w1) \<Rightarrow> retry_loop io n (next_backoff b) body a1 (sleep io b w1))"

text \<open>The seconds slept by a loop that never returns early.\<close>

fun backoffs :: "nat \<Rightarrow> nat \<Rightarrow> nat list" where
  "backoffs 0 b = []"
| "backoffs (Suc n) b = b # backoffs n (next_backoff b)"

abbreviation RPC_RETRIES :: nat where
  "RPC_RETRIES \<equiv> 5"

text \<open>A result of the loop comes from one run of the body.\<close>

lemma retry_loop_Inl:
  "retry_loop io n b body a w = (Inl r, w') \<Longrightarrow> \<exists>a1 w1. body a1 w1 = (Inl r, w')"
  by (induction io n b body a w rule: retry_loop.induct) (auto split: prod.splits sum.splits)

lemma retry_loop_inv:
  assumes "P a" "\<And>a w a1 w1. P a \<Longrightarrow> body a w = (Inr a1, w1) \<Longrightarrow> P a1"
    and "retry_loop io n b body a w = (Inr a', w')"
  shows "P a'"
  using assms(1,3)
proof (induction n arbitrary: a b w)
  case (Suc n)
  obtain x w1 where b: "body a w = (x, w1)" by fastforce
  with Suc.prems obtain a1 where x: "x = Inr a1" by (cases x) auto
  with assms(2) Suc.prems(1) b have "P a1" by blast
  with Suc b x show ?case by simp
qed simp

text \<open>A body that always returns is run once.\<close>

lemma retry_loop_once:
  assumes "body a w = (Inl r, w1)" "0 < n"
  shows "retry_loop io n b body a w = (Inl r, w1)"
  using assms by (cases n) auto

end
