(* ===== verification/Rpc_Membership.thy ===== *)
theory Rpc_Membership
  imports Go_World
begin

text \<open>
  \<open>rpc/healthcheck.go\<close>, \<open>rpc/membership.go\<close> and \<open>rpc/reseed.go\<close>: the requests the scheduler and the
  executor send to etcd servers and executors.  A function returns \<open>None\<close> for a nil error.
\<close>

section \<open>Addresses and responses\<close>

definition host_port_url :: "string \<Rightarrow> 64 word \<Rightarrow> string" where
  "host_port_url host port = ''http://'' @ host @ '':'' @ fmt_nat (unat port)"

definition client_url :: "Node \<Rightarrow> string" where
  "client_url n = host_port_url (Host n) (ClientPort n)"

definition peer_urls_json :: "Node \<Rightarrow> string" where
  "peer_urls_json n =
     ''{'' @ [CHR 0x22] @ ''peerURLs'' @ [CHR 0x22] @ '': ['' @ [CHR 0x22] @
     host_port_url (Host n) (RPCPort n) @ [CHR 0x22] @ '']}''"

record Member =
  member_id :: string
  member_name :: string

definition dec_Member :: "json \<Rightarrow> Member option" where
  "dec_Member =
     dec_struct (\<lambda>m k v.
       if key_eq k ''id'' then map_option (\<lambda>s. m\<lparr>member_id := s\<rparr>) (as_str (member_id m) v)
       else if key_eq k ''name'' then map_option (\<lambda>s. m\<lparr>member_name := s\<rparr>) (as_str (member_name m) v)
       else if key_eq k ''peerURLs'' \<or> key_eq k ''clientURLs'' then
         map_option (\<lambda>_. m) (dec_list (as_str []) v)
       else Some m) \<lparr>member_id = [], member_name = []\<rparr>"

text \<open>\<open>config.ClusterMemberList\<close>.\<close>

definition dec_ClusterMemberList :: "json \<Rightarrow> Member list option" where
  "dec_ClusterMemberList =
     dec_struct (\<lambda>ms k v. if key_eq k ''members'' then dec_list dec_Member v else Some ms) []"

text \<open>
  \<open>etcdstats.LeaderStats\<close>: only whether the body decodes is used.  The answer of a server that is
  not the leader, an object with a message, decodes too.
\<close>

definition dec_floats :: "string list \<Rightarrow> json \<Rightarrow> unit option" where
  "dec_floats ks =
     dec_struct (\<lambda>u k v. if list_ex (key_eq k) ks then as_float u v else Some u) ()"

definition dec_counts :: "json \<Rightarrow> unit option" where
  "dec_counts =
     dec_struct (\<lambda>u k v.
       if key_eq k ''fail'' \<or> key_eq k ''success'' then map_option (\<lambda>_. ()) (as_uint 0 v) else Some u) ()"

definition dec_FollowerStats :: "json \<Rightarrow> unit option" where
  "dec_FollowerStats =
     dec_struct (\<lambda>u k v.
       if key_eq k ''latency'' then
         dec_floats [''current'', ''average'', ''standardDeviation'', ''minimum'', ''maximum''] v
       else if key_eq k ''counts'' then dec_counts v
       else Some u) ()"

definition dec_LeaderStats :: "json \<Rightarrow> unit option" where
  "dec_LeaderStats =
     dec_struct (\<lambda>u k v.
       if key_eq k ''leader'' then map_option (\<lambda>_. ()) (as_str [] v)
       else if key_eq k ''followers'' then dec_struct (\<lambda>u _ x. dec_FollowerStats x) () v
       else Some u) ()"

definition dec_message :: "json \<Rightarrow> string option" where
  "dec_message = dec_struct (\<lambda>m k v. if key_eq k ''message'' then as_str m v else Some m) []"

section \<open>HealthCheck\<close>

text \<open>The first loop: the URL of the first server whose leader statistics decode.\<close>

fun find_endpoint :: "'w World \<Rightarrow> (string \<times> Node) list \<Rightarrow> 'w \<Rightarrow> string option \<times> 'w" where
  "find_endpoint io [] w = (None, w)"
| "find_endpoint io ((_, args) # rest) w =
     (case http_get io (client_url args @ ''/v2/stats/leader'') w of
        (HttpErr, w1) \<Rightarrow> find_endpoint io rest w1
      | (HttpResp _ None, w1) \<Rightarrow> find_endpoint io rest w1
      | (HttpResp _ (Some body), w1) \<Rightarrow>
          (case unmarshal dec_LeaderStats body of
             None \<Rightarrow> find_endpoint io rest w1
           | Some _ \<Rightarrow> (Some (client_url args), w1)))"

definition HealthCheck :: "'w World \<Rightarrow> (string, Node) gomap \<Rightarrow> 'w \<Rightarrow> go_error option \<times> 'w" where
  "HealthCheck io running w =
     (if running = [] then (None, w)
      else
        let (ord, w0) = go_range io running w in
        case find_endpoint io ord w0 of
          (None, w1) \<Rightarrow> (Some ErrNoLeader, w1)
        | (Some validEndpoint, w1) \<Rightarrow>
            (case etcd_sync io validEndpoint w1 of
               (False, w2) \<Rightarrow> (Some ErrEtcdConnection, w2)
             | (True, w2) \<Rightarrow>
                 (case etcd_get io validEndpoint w2 of
                    (None, w3) \<Rightarrow> (Some ErrEtcdEndpoint, w3)
                  | (Some resp1, w3) \<Rightarrow>
                      (case etcd_get io validEndpoint (sleep io 1 w3) of
                         (None, w4) \<Rightarrow> (Some ErrEtcdEndpoint, w4)
                       | (Some resp2, w4) \<Rightarrow>
                           if RaftTerm resp1 \<noteq> RaftTerm resp2
                           then (Some ErrEtcdRaftTermInstability, w4)
                           else if RaftIndex resp1 = RaftIndex resp2
                           then (Some ErrEtcdRaftStall, w4)
                           else (None, w4)))))"

section \<open>MemberList\<close>

definition name_to_ident :: "Member list \<Rightarrow> (string, string) gomap" where
  "name_to_ident ms = fold (\<lambda>m acc. gm_put (member_name m) (member_id m) acc) ms []"

text \<open>One pass over the running servers: the list of the first one that answers with members.\<close>

fun query_members :: "'w World \<Rightarrow> (string \<times> Node) list \<Rightarrow> 'w \<Rightarrow> (string, string) gomap option \<times> 'w" where
  "query_members io [] w = (None, w)"
| "query_members io ((_, args) # rest) w =
     (case http_get io (client_url args @ ''/v2/members'') w of
        (HttpErr, w1) \<Rightarrow> query_members io rest w1
      | (HttpResp _ None, w1) \<Rightarrow> query_members io rest w1
      | (HttpResp _ (Some body), w1) \<Rightarrow>
          (case unmarshal dec_ClusterMemberList body of
             None \<Rightarrow> query_members io rest w1
           | Some ms \<Rightarrow>
               if ms = [] then query_members io rest w1
               else (Some (name_to_ident ms), w1)))"

text \<open>
  The named result \<open>err\<close> is shadowed in every branch of the loop, so it is still nil when the
  retries are used up: the function then returns the empty map and no error.
\<close>

definition MemberList ::
    "'w World \<Rightarrow> (string, Node) gomap \<Rightarrow> 'w \<Rightarrow> (go_error + (string, string) gomap) \<times> 'w" where
  "MemberList io running w =
     (if running = [] then (Inr [], w)
      else
        case retry_loop io RPC_RETRIES 1
               (\<lambda>u w. let (ord, w0) = go_range io running w in
                  case query_members io ord w0 of
                    (Some m, w1) \<Rightarrow> (Inl m, w1)
                  | (None, w1) \<Rightarrow> (Inr u, w1)) () w of
          (Inl m, w1) \<Rightarrow> (Inr m, w1)
        | (Inr _, w1) \<Rightarrow> (Inr [], w1))"

section \<open>ConfigureInstance\<close>

definition no_nodes_reachable :: go_error where
  "no_nodes_reachable = ErrText ''Failed to configure cluster: no nodes reachable.''"

text \<open>The body of the loop over \<open>running\<close> returns in every branch, so only one server is asked.\<close>

definition configure_answer :: "http_result \<Rightarrow> go_error option" where
  "configure_answer r =
     (case r of
        HttpErr \<Rightarrow> Some ErrHTTP
      | HttpResp _ None \<Rightarrow> Some ErrReadBody
      | HttpResp _ (Some body) \<Rightarrow>
          (case unmarshal dec_ClusterMemberList body of None \<Rightarrow> Some ErrJSON | Some _ \<Rightarrow> None))"

definition configure_pass ::
    "'w World \<Rightarrow> Node \<Rightarrow> (string \<times> Node) list \<Rightarrow> 'w \<Rightarrow> (go_error option + unit) \<times> 'w" where
  "configure_pass io newInstance ord w =
     (case ord of
        [] \<Rightarrow> (Inr (), w)
      | (_, args) # _ \<Rightarrow>
          (let (r, w1) = http_do io \<lparr>req_method = POST, req_url = client_url args @ ''/v2/members'',
                  req_body = peer_urls_json newInstance\<rparr> w
           in (Inl (configure_answer r), w1)))"

definition ConfigureInstance ::
    "'w World \<Rightarrow> (string, Node) gomap \<Rightarrow> Node \<Rightarrow> 'w \<Rightarrow> go_error option \<times> 'w" where
  "ConfigureInstance io running newInstance w =
     (if running = [] then (None, w)
      else
        case HealthCheck io running w of
          (Some e, w1) \<Rightarrow> (Some e, w1)
        | (None, w1) \<Rightarrow>
            (case retry_loop io RPC_RETRIES 1
                    (\<lambda>u w. let (ord, w0) = go_range io running w in configure_pass io newInstance ord w0) () w1 of
               (Inl r, w2) \<Rightarrow> (r, w2)
             | (Inr _, w2) \<Rightarrow> (Some no_nodes_reachable, w2)))"

section \<open>FixInstancePeers\<close>

text \<open>Here the loop sleeps first, and the backoff starts at 0.\<close>

definition next_fix_backoff :: "nat \<Rightarrow> nat" where
  "next_fix_backoff b = max (min (2 * b) 8) 1"

definition fix_attempt :: "'w World \<Rightarrow> Node \<Rightarrow> 'w \<Rightarrow> bool \<times> 'w" where
  "fix_attempt io node w =
     (let running = [([], node)] in
      case HealthCheck io running w of
        (Some _, w1) \<Rightarrow> (False, w1)
      | (None, w1) \<Rightarrow>
          (case MemberList io running w1 of
             (Inl _, w2) \<Rightarrow> (False, w2)
           | (Inr members, w2) \<Rightarrow>
               (case gm_get members (Name node) of
                  None \<Rightarrow> (False, w2)
                | Some ident \<Rightarrow>
                    (case http_do io \<lparr>req_method = PUT, req_url = client_url node @ ''/v2/members/'' @ ident,
                           req_body = peer_urls_json node\<rparr> w2 of
                       (HttpErr, w3) \<Rightarrow> (False, w3)
                     | (HttpResp status _, w3) \<Rightarrow> (status = 204, w3)))))"

fun fix_loop :: "'w World \<Rightarrow> Node \<Rightarrow> nat \<Rightarrow> nat \<Rightarrow> 'w \<Rightarrow> go_error option \<times> 'w" where
  "fix_loop io node 0 b w = (Some no_nodes_reachable, w)"
| "fix_loop io node (Suc n) b w =
     (case fix_attempt io node (sleep io b w) of
        (True, w1) \<Rightarrow> (None, w1)
      | (False, w1) \<Rightarrow> fix_loop io node n (next_fix_backoff b) w1)"

definition FixInstancePeers :: "'w World \<Rightarrow> Node \<Rightarrow> 'w \<Rightarrow> go_error option \<times> 'w" where
  "FixInstancePeers io node w = fix_loop io node RPC_RETRIES 0 w"

section \<open>RemoveInstance\<close>

text \<open>One pass: \<open>Inl\<close> when a server confirms the removal, otherwise the last error seen.\<close>

fun remove_pass ::
    "'w World \<Rightarrow> string \<Rightarrow> string \<Rightarrow> (string \<times> Node) list \<Rightarrow> go_error option \<Rightarrow> 'w \<Rightarrow>
     (unit + go_error option) \<times> 'w" where
  "remove_pass io task ident [] outerErr w = (Inr outerErr, w)"
| "remove_pass io task ident ((i, args) # rest) outerErr w =
     (if i = task then remove_pass io task ident rest outerErr w
      else
        case http_do io \<lparr>req_method = DELETE, req_url = client_url args @ ''/v2/members/'' @ ident, req_body = []\<rparr> w of
          (HttpErr, w1) \<Rightarrow> remove_pass io task ident rest (Some ErrHTTP) w1
        | (HttpResp _ None, w1) \<Rightarrow> remove_pass io task ident rest (Some ErrReadBody) w1
        | (HttpResp _ (Some body), w1) \<Rightarrow>
            (if HasPrefix body ''Method Not Allowed'' then
               remove_pass io task ident rest
                 (Some (ErrText ''Received error response while trying to remove node from cluster configuration.'')) w1
             else
               case unmarshal dec_message body of
                 None \<Rightarrow> remove_pass io task ident rest (Some ErrJSON) w1
               | Some msg \<Rightarrow>
                   if HasPrefix msg ''Member permanently removed'' then (Inl (), w1)
                   else remove_pass io task ident rest outerErr w1))"

definition RemoveInstance ::
    "'w World \<Rightarrow> (string, Node) gomap \<Rightarrow> string \<Rightarrow> 'w \<Rightarrow> go_error option \<times> 'w" where
  "RemoveInstance io running task w =
     (case MemberList io running w of
        (Inl e, w1) \<Rightarrow> (Some e, w1)
      | (Inr members, w1) \<Rightarrow>
          (if running = [] then (Some (ErrText ''No running instances to deconfigure!''), w1)
           else
             let ident = (case gm_get members task of None \<Rightarrow> [] | Some i \<Rightarrow> i) in
             case retry_loop io RPC_RETRIES 1
                    (\<lambda>outerErr w. let (ord, w0) = go_range io running w in
                       remove_pass io task ident ord outerErr w0) None w1 of
               (Inl _, w2) \<Rightarrow> (None, w2)
             | (Inr outerErr, w2) \<Rightarrow> (outerErr, w2)))"

section \<open>Reseeding\<close>

record nodeIndex =
  ni_RaftIndex :: "64 word"
  ni_Node :: string

text \<open>The loop of \<open>RankReseedCandidates\<close>: the servers that answer, with their Raft index.\<close>

fun collect_indices :: "'w World \<Rightarrow> (string \<times> Node) list \<Rightarrow> 'w \<Rightarrow> nodeIndex list \<times> 'w" where
  "collect_indices io [] w = ([], w)"
| "collect_indices io ((i, args) # rest) w =
     (case etcd_sync io (client_url args) w of
        (False, w1) \<Rightarrow> collect_indices io rest w1
      | (True, w1) \<Rightarrow>
          (case etcd_get io (client_url args) w1 of
             (None, w2) \<Rightarrow> collect_indices io rest w2
           | (Some resp, w2) \<Rightarrow>
               (let (ns, w3) = collect_indices io rest w2
                in (\<lparr>ni_RaftIndex = RaftIndex resp, ni_Node = i\<rparr> # ns, w3))))"

text \<open>
  \<open>sort.Sort\<close> with \<open>Less(i, j) = n[i].RaftIndex > n[j].RaftIndex\<close>.  For up to seven elements Go
  sorts by insertion, which is what \<open>insert_index\<close> does; for more, the order of equal indices may differ.
\<close>

fun insert_index :: "nodeIndex \<Rightarrow> nodeIndex list \<Rightarrow> nodeIndex list" where
  "insert_index n [] = [n]"
| "insert_index n (m # ms) =
     (if ni_RaftIndex m < ni_RaftIndex n then n # m # ms else m # insert_index n ms)"

definition sort_indices :: "nodeIndex list \<Rightarrow> nodeIndex list" where
  "sort_indices ns = fold insert_index ns []"

definition RankReseedCandidates :: "'w World \<Rightarrow> (string, Node) gomap \<Rightarrow> 'w \<Rightarrow> nodeIndex list \<times> 'w" where
  "RankReseedCandidates io running w =
     (let (ord, w0) = go_range io running w;
          (ns, w1) = collect_indices io ord w0
      in (sort_indices ns, w1))"

definition TriggerReseed :: "'w World \<Rightarrow> Node \<Rightarrow> 'w \<Rightarrow> go_error option \<times> 'w" where
  "TriggerReseed io node w =
     (case http_get io (host_port_url (Host node) (ReseedPort node) @ ''/reseed'') w of
        (HttpErr, w1) \<Rightarrow> (Some ErrHTTP, w1)
      | (HttpResp _ None, w1) \<Rightarrow> (Some ErrReadBody, w1)
      | (HttpResp _ (Some body), w1) \<Rightarrow>
          (if body \<noteq> ''ok'' then (Some (ErrFmt ''Could not trigger reseed on %s: %v'' [host_port_url (Host node) (ReseedPort node), ''<nil>'']), w1) else (None, w1)))"

section \<open>Lemmas: health checks\<close>

lemma find_endpoint_Some:
  "find_endpoint io ord w = (Some u, w') \<Longrightarrow>
   \<exists>(i, n) \<in> set ord. u = client_url n \<and>
     (\<exists>st body w1. http_get io (u @ ''/v2/stats/leader'') w1 = (HttpResp st (Some body), w') \<and>
        unmarshal dec_LeaderStats body \<noteq> None)"
  by (induction io ord w rule: find_endpoint.induct)
     (fastforce split: prod.splits http_result.splits option.splits)+

text \<open>A server that never answers with decodable leader statistics.\<close>

definition stats_dead :: "'w World \<Rightarrow> Node \<Rightarrow> bool" where
  "stats_dead io n \<longleftrightarrow>
     (\<forall>w st body w1. http_get io (client_url n @ ''/v2/stats/leader'') w = (HttpResp st (Some body), w1) \<longrightarrow>
        unmarshal dec_LeaderStats body = None)"

lemma find_endpoint_dead:
  "\<forall>(i, n) \<in> set ord. stats_dead io n \<Longrightarrow> fst (find_endpoint io ord w) = None"
proof (induction io ord w rule: find_endpoint.induct)
  case (2 io i args rest w)
  then have dead: "stats_dead io args" and rest: "\<forall>(i, n) \<in> set rest. stats_dead io n" by auto
  obtain r w1 where g: "http_get io (client_url args @ ''/v2/stats/leader'') w = (r, w1)" by fastforce
  have "r = HttpErr \<or> (\<exists>st. r = HttpResp st None) \<or>
      (\<exists>st body. r = HttpResp st (Some body) \<and> unmarshal dec_LeaderStats body = None)"
    using dead g unfolding stats_dead_def by (cases r) (metis not_None_eq)+
  with g rest "2.IH" show ?case by auto
qed simp

section \<open>Lemmas: member lists\<close>

lemma name_to_ident_fold_ne:
  "acc \<noteq> [] \<Longrightarrow> fold (\<lambda>m acc. gm_put (member_name m) (member_id m) acc) ms acc \<noteq> []"
proof (induction ms arbitrary: acc)
  case (Cons m ms)
  have "gm_has (gm_put (member_name m) (member_id m) acc) (member_name m)" by (simp add: go_map)
  then have "gm_put (member_name m) (member_id m) acc \<noteq> []" by (auto simp: gm_has_def)
  with Cons.IH show ?case by simp
qed simp

lemma name_to_ident_ne: "ms \<noteq> [] \<Longrightarrow> name_to_ident ms \<noteq> []"
proof (cases ms)
  case (Cons m ms')
  have "gm_has (gm_put (member_name m) (member_id m) []) (member_name m)" by (simp add: go_map)
  then have "gm_put (member_name m) (member_id m) [] \<noteq> []" by (auto simp: gm_has_def)
  with Cons show ?thesis by (simp add: name_to_ident_def name_to_ident_fold_ne)
qed simp

lemma query_members_Some:
  "query_members io ord w = (Some m, w') \<Longrightarrow>
   \<exists>(i, n) \<in> set ord. \<exists>st body w1 ms. http_get io (client_url n @ ''/v2/members'') w1 = (HttpResp st (Some body), w') \<and>
     unmarshal dec_ClusterMemberList body = Some ms \<and> ms \<noteq> [] \<and> m = name_to_ident ms"
  by (induction io ord w rule: query_members.induct)
     (fastforce split: prod.splits http_result.splits option.splits if_splits)+

text \<open>A server that answers every member query with a nonempty list.\<close>

definition members_live :: "'w World \<Rightarrow> Node \<Rightarrow> bool" where
  "members_live io n \<longleftrightarrow>
     (\<forall>w. \<exists>st body w1 ms. http_get io (client_url n @ ''/v2/members'') w = (HttpResp st (Some body), w1) \<and>
        unmarshal dec_ClusterMemberList body = Some ms \<and> ms \<noteq> [])"

lemma query_members_live:
  "(i, n) \<in> set ord \<Longrightarrow> members_live io n \<Longrightarrow> \<exists>m w'. query_members io ord w = (Some m, w')"
proof (induction io ord w rule: query_members.induct)
  case (2 io j args rest w)
  show ?case
  proof (cases "n = args")
    case True
    from "2.prems"(2) obtain st body w1 ms where
      "http_get io (client_url n @ ''/v2/members'') w = (HttpResp st (Some body), w1)"
      "unmarshal dec_ClusterMemberList body = Some ms" "ms \<noteq> []"
      unfolding members_live_def by blast
    with True show ?thesis by simp
  next
    case False
    with "2.prems" have "(i, n) \<in> set rest" by auto
    with "2.IH" "2.prems"(2) show ?thesis
      by (fastforce split: prod.splits http_result.splits option.splits)
  qed
qed simp

section \<open>Lemmas: ranking\<close>

lemma mset_insert_index [simp]: "mset (insert_index n ms) = add_mset n (mset ms)"
  by (induction ms) auto

lemma mset_fold_insert: "mset (fold insert_index ns acc) = mset ns + mset acc"
  by (induction ns arbitrary: acc) auto

lemma mset_sort_indices [simp]: "mset (sort_indices ns) = mset ns"
  by (simp add: sort_indices_def mset_fold_insert)

lemma set_sort_indices [simp]: "set (sort_indices ns) = set ns"
  by (metis mset_sort_indices set_mset_mset)

abbreviation ranked :: "nodeIndex list \<Rightarrow> bool" where
  "ranked \<equiv> sorted_wrt (\<lambda>a b. ni_RaftIndex b \<le> ni_RaftIndex a)"

lemma set_insert_index [simp]: "set (insert_index n ms) = insert n (set ms)"
  by (metis mset_insert_index set_mset_add_mset_insert set_mset_mset)

lemma ranked_insert: "ranked ms \<Longrightarrow> ranked (insert_index n ms)"
  by (induction ms) (auto intro: order_trans less_imp_le)

lemma ranked_sort_indices: "ranked (sort_indices ns)"
proof -
  have "ranked acc \<Longrightarrow> ranked (fold insert_index ns acc)" for acc
    by (induction ns arbitrary: acc) (auto intro: ranked_insert)
  then show ?thesis by (simp add: sort_indices_def)
qed

lemma collect_indices_in:
  "collect_indices io ord w = (ns, w') \<Longrightarrow> x \<in> set ns \<Longrightarrow>
   \<exists>n. (ni_Node x, n) \<in> set ord \<and>
     (\<exists>w1 resp w2. etcd_get io (client_url n) w1 = (Some resp, w2) \<and> ni_RaftIndex x = RaftIndex resp)"
  by (induction io ord w arbitrary: ns rule: collect_indices.induct)
     (fastforce simp: Let_def split: prod.splits bool.splits option.splits)+

lemma collect_indices_names:
  "mset (map ni_Node (fst (collect_indices io ord w))) \<subseteq># mset (map fst ord)"
proof (induction io ord w rule: collect_indices.induct)
  case (2 io i args rest w)
  then show ?case
    by (auto simp: Let_def split: prod.splits bool.splits option.splits intro: subset_mset.order_trans)
       (metis fst_conv mset_map subset_mset.order_trans mset_subset_eq_add_right add_mset_add_single union_commute)+
qed simp

lemma MemberList_Inr: "\<exists>m w'. MemberList io running w = (Inr m, w')"
  by (auto simp: MemberList_def split: prod.splits sum.splits)

lemma RankReseedCandidates_running:
  assumes "gm_ok running" "RankReseedCandidates io running w = (ns, w')" "x \<in> set ns"
  shows "\<exists>n. gm_get running (ni_Node x) = Some n"
proof -
  obtain ord w0 where o: "go_range io running w = (ord, w0)" by fastforce
  obtain ns0 w1 where c: "collect_indices io ord w0 = (ns0, w1)" by fastforce
  have "x \<in> set ns0" using assms(2,3) o c by (auto simp: RankReseedCandidates_def)
  from collect_indices_in [OF c this] show ?thesis
    using go_range_set [OF assms(1), of io w] o assms(1) by (auto simp: gm_ok_get_iff)
qed

section \<open>Lemmas: removals\<close>

text \<open>A world where every removal request is answered, but never with a confirmation.\<close>

definition removal_unconfirmed :: "'w World \<Rightarrow> bool" where
  "removal_unconfirmed io \<longleftrightarrow>
     (\<forall>url w. \<exists>st body w1 msg.
        http_do io \<lparr>req_method = DELETE, req_url = url, req_body = []\<rparr> w = (HttpResp st (Some body), w1) \<and>
        \<not> HasPrefix body ''Method Not Allowed'' \<and> unmarshal dec_message body = Some msg \<and>
        \<not> HasPrefix msg ''Member permanently removed'')"

lemma remove_pass_unconfirmed:
  assumes "removal_unconfirmed io"
  shows "\<exists>w'. remove_pass io task ident ord outerErr w = (Inr outerErr, w')"
proof (induction ord arbitrary: w)
  case (Cons a rest)
  obtain i n where a: "a = (i, n)" by fastforce
  from assms obtain st body w1 msg where
    "http_do io \<lparr>req_method = DELETE, req_url = client_url n @ ''/v2/members/'' @ ident, req_body = []\<rparr> w =
       (HttpResp st (Some body), w1)"
    "\<not> HasPrefix body ''Method Not Allowed''" "unmarshal dec_message body = Some msg"
    "\<not> HasPrefix msg ''Member permanently removed''"
    unfolding removal_unconfirmed_def by blast
  with a Cons.IH show ?case by simp
qed simp

section \<open>Properties\<close>

text \<open>
  C36 (functional): a nonempty cluster passes the health check only if one of its servers,
  sampled twice one second apart, is in the same Raft term both times and at different Raft indices.
\<close>

theorem HealthCheck_healthy:
  assumes "gm_ok running" "running \<noteq> []" "HealthCheck io running w = (None, w')"
  shows "\<exists>(i, n) \<in> set running. \<exists>w1 w2 resp1 resp2.
    etcd_get io (client_url n) w1 = (Some resp1, w2) \<and>
    etcd_get io (client_url n) (sleep io 1 w2) = (Some resp2, w') \<and>
    RaftTerm resp1 = RaftTerm resp2 \<and> RaftIndex resp1 \<noteq> RaftIndex resp2"
proof -
  obtain ord w0 where o: "go_range io running w = (ord, w0)" by fastforce
  from assms o obtain u w1 where u: "find_endpoint io ord w0 = (Some u, w1)"
    by (auto simp: HealthCheck_def split: prod.splits option.splits)
  from find_endpoint_Some [OF u] obtain i n where n: "(i, n) \<in> set ord" "u = client_url n" by blast
  moreover have "set ord = set running" using go_range_set [OF assms(1), of io w] o by simp
  moreover from assms o u obtain w2 w3 resp1 resp2 where
    "etcd_get io u w2 = (Some resp1, w3)" "etcd_get io u (sleep io 1 w3) = (Some resp2, w')"
    "RaftTerm resp1 = RaftTerm resp2" "RaftIndex resp1 \<noteq> RaftIndex resp2"
    by (auto simp: HealthCheck_def split: prod.splits option.splits bool.splits if_splits)
  ultimately show ?thesis by blast
qed

text \<open>
  If no server answers with decodable leader statistics, the health check of a
  nonempty cluster fails with ErrNoLeader.
\<close>

lemma HealthCheck_no_leader:
  assumes "gm_ok running" "running \<noteq> []" "\<forall>(i, n) \<in> set running. stats_dead io n"
  shows "fst (HealthCheck io running w) = Some ErrNoLeader"
proof -
  obtain ord w0 where o: "go_range io running w = (ord, w0)" by fastforce
  then have "set ord = set running" using go_range_set [OF assms(1), of io w] by simp
  with assms(3) have "fst (find_endpoint io ord w0) = None" by (intro find_endpoint_dead) simp
  with o assms(2) show ?thesis
    by (cases "find_endpoint io ord w0") (simp add: HealthCheck_def)
qed


text \<open>
  One server that answers is enough: the member query then returns the names and
  identifiers of a nonempty list sent by a running server.
\<close>

lemma MemberList_one_live:
  assumes "gm_ok running" "(i, n) \<in> set running" "members_live io n"
  shows "\<exists>m w'. MemberList io running w = (Inr m, w') \<and> m \<noteq> [] \<and>
    (\<exists>(j, k) \<in> set running. \<exists>st body w1 ms.
       http_get io (client_url k @ ''/v2/members'') w1 = (HttpResp st (Some body), w') \<and>
       unmarshal dec_ClusterMemberList body = Some ms \<and> m = name_to_ident ms)"
proof -
  obtain ord w0 where o: "go_range io running w = (ord, w0)" by fastforce
  then have set: "set ord = set running" using go_range_set [OF assms(1), of io w] by simp
  with query_members_live [of i n ord io w0] assms obtain m w1 where q: "query_members io ord w0 = (Some m, w1)"
    by auto
  with o assms(2) have "MemberList io running w = (Inr m, w1)"
    by (auto simp: MemberList_def retry_loop_once split: prod.splits sum.splits)
  moreover from query_members_Some [OF q] have "m \<noteq> []" by (auto dest: name_to_ident_ne)
  ultimately show ?thesis using query_members_Some [OF q] set by blast
qed

text \<open>
  A removal is reported as done although no server confirmed it, when the servers
  answer with other messages.
\<close>

lemma RemoveInstance_unconfirmed:
  assumes "running \<noteq> []" "removal_unconfirmed io"
  shows "fst (RemoveInstance io running task w) = None"
proof -
  obtain m w1 where m: "MemberList io running w = (Inr m, w1)"
    using MemberList_Inr [of io running w] by blast
  let ?body = "\<lambda>ident outerErr w. let (ord, w0) = go_range io running w in remove_pass io task ident ord outerErr w0"
  have "a' = None" if "retry_loop io n b (?body ident) None w = (Inr a', w')" for ident n b w a' w'
    using that
  proof (rule retry_loop_inv [where P = "\<lambda>a. a = None", rotated 2])
    fix a w a1 w1 assume "a = None" "?body ident a w = (Inr a1, w1)"
    then show "a1 = None"
      using remove_pass_unconfirmed [OF assms(2), of task ident "fst (go_range io running w)" None "snd (go_range io running w)"]
      by (auto simp: split_beta)
  qed simp
  with m assms(1) show ?thesis
    by (auto simp: RemoveInstance_def split: prod.splits sum.splits)
qed

text \<open>
  C35 (functional): the candidates for a reseed are distinct running servers that answered, each
  with an index it reported, in decreasing order of the Raft index.
\<close>

theorem RankReseedCandidates_ranked:
  assumes "gm_ok running" "RankReseedCandidates io running w = (ns, w')"
  shows "ranked ns \<and> distinct (map ni_Node ns) \<and>
    (\<forall>x \<in> set ns. \<exists>n. gm_get running (ni_Node x) = Some n \<and>
       (\<exists>w1 resp w2. etcd_get io (client_url n) w1 = (Some resp, w2) \<and> ni_RaftIndex x = RaftIndex resp))"
proof -
  obtain ord w0 where o: "go_range io running w = (ord, w0)" by fastforce
  obtain ns0 w1 where c: "collect_indices io ord w0 = (ns0, w1)" by fastforce
  have ns: "ns = sort_indices ns0" using assms(2) o c by (simp add: RankReseedCandidates_def)
  have "distinct (map fst ord)" "set ord = set running"
    using go_range_distinct [OF assms(1), of io w] go_range_set [OF assms(1), of io w] o by simp_all
  then have "distinct (map ni_Node ns0)"
    using distinct_mset_subset [OF collect_indices_names [of io ord w0]] c by simp
  then have "distinct (map ni_Node ns)"
    unfolding ns by (metis distinct_mset_subset mset_map mset_sort_indices subset_mset.order_refl)
  moreover have "ranked ns" unfolding ns by (rule ranked_sort_indices)
  ultimately show ?thesis
    using collect_indices_in [OF c] \<open>set ord = set running\<close> assms(1) unfolding ns
    by (auto simp: gm_ok_get_iff)
qed

text \<open>
  A new instance is announced to one running server only: its answer is the
  answer of the function, and a failure is not retried with another server.
\<close>

lemma ConfigureInstance_one_request:
  assumes "gm_ok running" "running \<noteq> []" "HealthCheck io running w = (None, w1)"
  shows "\<exists>(i, n) \<in> set running. \<exists>w2 r w'.
    http_do io \<lparr>req_method = POST, req_url = client_url n @ ''/v2/members'', req_body = peer_urls_json new\<rparr> w2 = (r, w') \<and>
    ConfigureInstance io running new w = (configure_answer r, w')"
proof -
  obtain ord w2 where o: "go_range io running w1 = (ord, w2)" by fastforce
  then have set: "set ord = set running" using go_range_set [OF assms(1), of io w1] by simp
  with assms(2) obtain i n rest where ord: "ord = (i, n) # rest" by (cases ord) auto
  obtain r w' where r: "http_do io \<lparr>req_method = POST, req_url = client_url n @ ''/v2/members'',
      req_body = peer_urls_json new\<rparr> w2 = (r, w')" by fastforce
  then have "configure_pass io new ord w2 = (Inl (configure_answer r), w')"
    by (simp add: configure_pass_def ord)
  then have "ConfigureInstance io running new w = (configure_answer r, w')"
    using o assms(2,3) by (simp add: ConfigureInstance_def retry_loop_once)
  moreover have "(i, n) \<in> set running" using set ord by auto
  ultimately show ?thesis using r by blast
qed

section \<open>Witnesses\<close>

definition demo_node :: Node where
  "demo_node = \<lparr>Name = ''etcd-1'', Host = ''h1'', RPCPort = 1, ClientPort = 2, ReseedPort = 3,
     Type = [], SlaveID = ''s1''\<rparr>"

definition demo_answer :: "string \<Rightarrow> nat World" where
  "demo_answer body = demo_world\<lparr>http_do := (\<lambda>_ w. (HttpResp 200 (Some body), Suc w))\<rparr>"

definition demo_members :: string where
  "demo_members = print_json (JObj [(''members'',
     JArr [JObj [(''id'', JStr ''8a''), (''name'', JStr ''etcd-1'')]])])"

theorem HealthCheck_healthy_witness:
  "HealthCheck (demo_answer ''{}'') [(''etcd-1'', demo_node)] 0 = (None, 5) \<and>
   (\<exists>resp1 resp2 w1 w2. etcd_get (demo_answer ''{}'') (client_url demo_node) w1 = (Some resp1, w2) \<and>
      etcd_get (demo_answer ''{}'') (client_url demo_node) (Suc w2) = (Some resp2, 5) \<and>
      RaftIndex resp1 \<noteq> RaftIndex resp2)"
proof -
  have h: "HealthCheck (demo_answer ''{}'') [(''etcd-1'', demo_node)] 0 = (None, 5)" by code_simp
  have "gm_ok [(''etcd-1'', demo_node)]" by (simp add: gm_ok_def)
  from HealthCheck_healthy [OF this _ h] show ?thesis
    using h by (auto simp: demo_answer_def demo_world_def)
qed

lemma demo_ok [simp]: "gm_ok [(''etcd-1'', demo_node)]"
  by (simp add: gm_ok_def)

theorem RankReseedCandidates_ranked_witness:
  "ranked (fst (RankReseedCandidates demo_world [(''etcd-1'', demo_node)] 7)) \<and>
   fst (RankReseedCandidates demo_world [(''etcd-1'', demo_node)] 7) = [\<lparr>ni_RaftIndex = 8, ni_Node = ''etcd-1''\<rparr>]"
proof -
  have r: "RankReseedCandidates demo_world [(''etcd-1'', demo_node)] 7 = ([\<lparr>ni_RaftIndex = 8, ni_Node = ''etcd-1''\<rparr>], 9)"
    by code_simp
  from RankReseedCandidates_ranked [OF demo_ok r] r show ?thesis by simp
qed

end
