(* ===== verification/Rpc_State.thy ===== *)
theory Rpc_State
  imports Rpc_Membership
begin

text \<open>
  \<open>rpc/state.go\<close>: reading the tasks of a framework from the state of the Mesos master.  The inner
  loop of \<open>GetState\<close> has no exit for a body that does not decode, so it is a partial function:
  \<open>None\<close> means that the call does not return.  A decode starts from the empty \<open>MasterState\<close>; what a
  failed decode leaves behind in the shared variable is not modelled.
\<close>

section \<open>The state of the master\<close>

record Task =
  ExecutorID :: string
  FrameworkID :: string
  TaskID :: string
  TaskName :: string
  TaskSlaveID :: string
  State :: string

record Framework =
  fw_ID :: string
  fw_Name :: string
  fw_Tasks :: "Task list"

record MasterState =
  Frameworks :: "Framework list"

text \<open>The numbers in \<open>resources\<close> and \<open>statuses\<close> are checked for their type and not used.\<close>

definition dec_Resources :: "json \<Rightarrow> unit option" where
  "dec_Resources =
     dec_struct (\<lambda>u k v.
       if list_ex (key_eq k) [''cpus'', ''disk'', ''mem''] then as_float u v
       else if key_eq k ''ports'' then map_option (\<lambda>_. ()) (as_str [] v)
       else Some u) ()"

definition dec_Status :: "json \<Rightarrow> unit option" where
  "dec_Status =
     dec_struct (\<lambda>u k v.
       if key_eq k ''state'' then map_option (\<lambda>_. ()) (as_str [] v)
       else if key_eq k ''timestamp'' then as_float u v
       else Some u) ()"

definition dec_Task :: "json \<Rightarrow> Task option" where
  "dec_Task =
     dec_struct (\<lambda>t k v.
       if key_eq k ''executor_id'' then map_option (\<lambda>s. t\<lparr>ExecutorID := s\<rparr>) (as_str (ExecutorID t) v)
       else if key_eq k ''framework_id'' then map_option (\<lambda>s. t\<lparr>FrameworkID := s\<rparr>) (as_str (FrameworkID t) v)
       else if key_eq k ''id'' then map_option (\<lambda>s. t\<lparr>TaskID := s\<rparr>) (as_str (TaskID t) v)
       else if key_eq k ''name'' then map_option (\<lambda>s. t\<lparr>TaskName := s\<rparr>) (as_str (TaskName t) v)
       else if key_eq k ''resources'' then map_option (\<lambda>_. t) (dec_Resources v)
       else if key_eq k ''slave_id'' then map_option (\<lambda>s. t\<lparr>TaskSlaveID := s\<rparr>) (as_str (TaskSlaveID t) v)
       else if key_eq k ''state'' then map_option (\<lambda>s. t\<lparr>State := s\<rparr>) (as_str (State t) v)
       else if key_eq k ''statuses'' then map_option (\<lambda>_. t) (dec_list dec_Status v)
       else Some t)
     \<lparr>ExecutorID = [], FrameworkID = [], TaskID = [], TaskName = [], TaskSlaveID = [], State = []\<rparr>"

definition dec_Framework :: "json \<Rightarrow> Framework option" where
  "dec_Framework =
     dec_struct (\<lambda>f k v.
       if key_eq k ''id'' then map_option (\<lambda>s. f\<lparr>fw_ID := s\<rparr>) (as_str (fw_ID f) v)
       else if key_eq k ''name'' then map_option (\<lambda>s. f\<lparr>fw_Name := s\<rparr>) (as_str (fw_Name f) v)
       else if key_eq k ''tasks'' then map_option (\<lambda>ts. f\<lparr>fw_Tasks := ts\<rparr>) (dec_list dec_Task v)
       else Some f)
     \<lparr>fw_ID = [], fw_Name = [], fw_Tasks = []\<rparr>"

definition dec_MasterState :: "json \<Rightarrow> MasterState option" where
  "dec_MasterState =
     dec_struct (\<lambda>m k v.
       if key_eq k ''frameworks'' then map_option (\<lambda>fs. m\<lparr>Frameworks := fs\<rparr>) (dec_list dec_Framework v)
       else Some m) \<lparr>Frameworks = []\<rparr>"

section \<open>GetState\<close>

text \<open>The closure \<open>get\<close>: the body and the status, or an error.\<close>

definition get_blob :: "'w World \<Rightarrow> string \<Rightarrow> 'w \<Rightarrow> (go_error + string \<times> nat) \<times> 'w" where
  "get_blob io uri w =
     (case http_get io uri w of
        (HttpErr, w1) \<Rightarrow> (Inl ErrHTTP, w1)
      | (HttpResp _ None, w1) \<Rightarrow> (Inl ErrReadBody, w1)
      | (HttpResp code (Some blob), w1) \<Rightarrow> (Inr (blob, code), w1))"

text \<open>One request, with the fallback to \<open>state.json\<close>.\<close>

definition fetch_state :: "'w World \<Rightarrow> string \<Rightarrow> 'w \<Rightarrow> (go_error + string) \<times> 'w" where
  "fetch_state io master w =
     (case get_blob io (master @ ''/state'') w of
        (Inl e, w1) \<Rightarrow> (Inl e, w1)
      | (Inr (blob, code), w1) \<Rightarrow>
          if code = 404 then
            (case get_blob io (master @ ''/state.json'') w1 of
               (Inl e, w2) \<Rightarrow> (Inl e, w2)
             | (Inr (blob', _), w2) \<Rightarrow> (Inr blob', w2))
          else (Inr blob, w1))"

text \<open>The inner loop: it ends with an error of the request or with a decoded state.\<close>

partial_function (option) state_loop ::
    "'w World \<Rightarrow> string \<Rightarrow> 'w \<Rightarrow> ((MasterState + go_error option) \<times> 'w) option" where
  [code]: "state_loop io master w =
     (case fetch_state io master w of
        (Inl e, w1) \<Rightarrow> Some (Inr (Some e), w1)
      | (Inr blob, w1) \<Rightarrow>
          (case unmarshal dec_MasterState blob of
             Some st \<Rightarrow> Some (Inl st, w1)
           | None \<Rightarrow> state_loop io master w1))"

fun state_retries ::
    "'w World \<Rightarrow> string \<Rightarrow> nat \<Rightarrow> nat \<Rightarrow> go_error option \<Rightarrow> 'w \<Rightarrow> ((go_error option + MasterState) \<times> 'w) option" where
  "state_retries io master 0 b outerErr w = Some (Inl outerErr, w)"
| "state_retries io master (Suc n) b outerErr w =
     (case state_loop io master w of
        None \<Rightarrow> None
      | Some (Inl st, w1) \<Rightarrow> Some (Inr st, w1)
      | Some (Inr outerErr', w1) \<Rightarrow> state_retries io master n (next_backoff b) outerErr' (sleep io b w1))"

definition GetState :: "'w World \<Rightarrow> string \<Rightarrow> 'w \<Rightarrow> ((go_error option + MasterState) \<times> 'w) option" where
  "GetState io master w = state_retries io master RPC_RETRIES 1 None w"

section \<open>GetPeersFromState\<close>

definition peer_entry :: "Node \<Rightarrow> string" where
  "peer_entry n = Name n @ ''='' @ host_port_url (Host n) (RPCPort n)"

fun peers_loop :: "Task list \<Rightarrow> string list \<Rightarrow> go_error + string list" where
  "peers_loop [] peers = Inr peers"
| "peers_loop (t # ts) peers =
     (if State t = ''TASK_RUNNING'' then
        (case Parse (TaskID t) of
           Inl e \<Rightarrow> Inl (ErrConfig e)
         | Inr node \<Rightarrow> peers_loop ts (peers @ [peer_entry node]))
      else peers_loop ts peers)"

definition GetPeersFromState :: "MasterState \<Rightarrow> string \<Rightarrow> go_error + string list" where
  "GetPeersFromState state frameworkName =
     (case find (\<lambda>f. fw_Name f = frameworkName) (Frameworks state) of
        None \<Rightarrow> Inl (ErrFmt ''Could not find framework %q in the mesos master's state'' [frameworkName])
      | Some framework \<Rightarrow> peers_loop (fw_Tasks framework) [])"

section \<open>Lemmas\<close>

text \<open>The world after one request, and the answers that end the inner loop.\<close>

definition after_fetch :: "'w World \<Rightarrow> string \<Rightarrow> 'w \<Rightarrow> 'w" where
  "after_fetch io master w = snd (fetch_state io master w)"

definition settled :: "'w World \<Rightarrow> string \<Rightarrow> 'w \<Rightarrow> bool" where
  "settled io master w \<longleftrightarrow>
     (case fst (fetch_state io master w) of
        Inl _ \<Rightarrow> True
      | Inr blob \<Rightarrow> unmarshal dec_MasterState blob \<noteq> None)"

lemma state_loop_settled:
  assumes "settled io master w"
  shows "\<exists>y. state_loop io master w = Some y"
proof -
  obtain x w1 where "fetch_state io master w = (x, w1)" by fastforce
  with assms show ?thesis
    by (cases x) (auto simp: settled_def state_loop.simps [of io master w])
qed

lemma state_loop_unsettled:
  assumes "\<not> settled io master w"
  shows "state_loop io master w = state_loop io master (after_fetch io master w)"
proof -
  obtain x w1 where "fetch_state io master w = (x, w1)" by fastforce
  with assms show ?thesis
    by (cases x) (auto simp: settled_def after_fetch_def state_loop.simps [of io master w])
qed

lemma state_loop_later:
  "settled io master ((after_fetch io master ^^ k) w) \<Longrightarrow> \<exists>y. state_loop io master w = Some y"
proof (induction k arbitrary: w)
  case 0
  then show ?case by (intro state_loop_settled) simp
next
  case (Suc k)
  then have "\<exists>y. state_loop io master (after_fetch io master w) = Some y"
    by (metis comp_apply funpow_Suc_right)
  then show ?case by (metis state_loop_settled state_loop_unsettled)
qed

lemma state_loop_Some:
  assumes "state_loop io master w = Some y"
  shows "\<exists>k. settled io master ((after_fetch io master ^^ k) w)"
proof (rule state_loop.raw_induct [OF _ assms])
  fix loop io master w y
  assume IH: "\<And>io master w y. loop io master w = Some y \<Longrightarrow>
      \<exists>k. settled io master ((after_fetch io master ^^ k) w)"
    and eq: "(case fetch_state io master w of
        (Inl e, w1) \<Rightarrow> Some (Inr (Some e), w1)
      | (Inr blob, w1) \<Rightarrow>
          (case unmarshal dec_MasterState blob of
             Some st \<Rightarrow> Some (Inl st, w1)
           | None \<Rightarrow> loop io master w1)) = Some y"
  show "\<exists>k. settled io master ((after_fetch io master ^^ k) w)"
  proof (cases "settled io master w")
    case True
    then show ?thesis by (intro exI [of _ 0]) simp
  next
    case False
    with eq have "loop io master (after_fetch io master w) = Some y"
      by (auto simp: settled_def after_fetch_def split: prod.splits sum.splits option.splits)
    from IH [OF this] obtain k where
      "settled io master ((after_fetch io master ^^ k) (after_fetch io master w))" by blast
    then show ?thesis by (intro exI [of _ "Suc k"]) (simp only: funpow_Suc_right comp_apply)
  qed
qed

lemma state_loop_iff:
  "(\<exists>y. state_loop io master w = Some y) \<longleftrightarrow> (\<exists>k. settled io master ((after_fetch io master ^^ k) w))"
  by (metis state_loop_later state_loop_Some)

lemma state_retries_returns:
  assumes "\<And>w. \<exists>y. state_loop io master w = Some y"
  shows "\<exists>y. state_retries io master n b e w = Some y"
proof (induction n arbitrary: b e w)
  case (Suc n)
  obtain x w1 where "state_loop io master w = Some (x, w1)" using assms by (metis surj_pair)
  with Suc.IH show ?case by (cases x) auto
qed simp

text \<open>The running tasks of a framework, as nodes.\<close>

definition running_nodes :: "Framework \<Rightarrow> Node list option" where
  "running_nodes f = those (map (parse_node \<circ> TaskID) (filter (\<lambda>t. State t = ''TASK_RUNNING'') (fw_Tasks f)))"

lemma peers_loop_those:
  "peers_loop ts peers =
     (case those (map (parse_node \<circ> TaskID) (filter (\<lambda>t. State t = ''TASK_RUNNING'') ts)) of
        None \<Rightarrow> Inl (ErrConfig ErrUnmarshal)
      | Some ns \<Rightarrow> Inr (peers @ map peer_entry ns))"
proof (induction ts peers rule: peers_loop.induct)
  case (2 t ts peers)
  then show ?case
    by (cases "Parse (TaskID t)") (auto simp: parse_node_def config_error.exhaust split: option.splits, metis config_error.exhaust)
qed simp

section \<open>Properties\<close>

text \<open>
  The inner loop of \<open>GetState\<close> returns exactly when, after some number of further
  requests, one fails or is answered with a state that decodes; there is no other exit and no pause.
\<close>

lemma state_loop_returns_iff:
  "(\<exists>y. state_loop io master w = Some y) \<longleftrightarrow> (\<exists>k. settled io master ((after_fetch io master ^^ k) w))"
  by (rule state_loop_iff)

text \<open>
  \<open>GetState\<close> returns if from every state of the world the master sooner or later
  fails a request or sends a state that decodes.
\<close>

lemma GetState_returns:
  assumes "\<And>w. \<exists>k. settled io master ((after_fetch io master ^^ k) w)"
  shows "\<exists>y. GetState io master w = Some y"
  unfolding GetState_def
  by (rule state_retries_returns) (simp only: state_loop_iff assms)

text \<open>
  C38 (equivalence): the peers read from the master's state are those of the running tasks of the
  first framework of the given name, in order; one unreadable task identifier fails the call.
\<close>

theorem GetPeersFromState_running:
  "GetPeersFromState state name =
     (case find (\<lambda>f. fw_Name f = name) (Frameworks state) of
        None \<Rightarrow> Inl (ErrFmt ''Could not find framework %q in the mesos master's state'' [name])
      | Some f \<Rightarrow>
          (case running_nodes f of
             None \<Rightarrow> Inl (ErrConfig ErrUnmarshal)
           | Some ns \<Rightarrow> Inr (map peer_entry ns)))"
  by (simp add: GetPeersFromState_def running_nodes_def peers_loop_those split: option.splits)

section \<open>Witnesses\<close>

end
