(* ===== verification/Rpc_Zk.thy ===== *)
theory Rpc_Zk
  imports Rpc_State "HOL-Library.List_Lexorder" "HOL-Library.Char_ord"
begin

text \<open>
  \<open>rpc/zk.go\<close>: ZooKeeper addresses, the framework identifier and the reconciliation map kept in
  ZooKeeper, and the address of the leading Mesos master.  A call that panics has the outcome
  \<open>Panics\<close>.  The decoder for protocol buffers is an argument, as it is in the code.
\<close>

section \<open>ParseZKURI\<close>

definition zk_form_error :: go_error where
  "zk_form_error = ErrText ''ZK URI must be of the form zk://$host1:$port1,$host2:$port2/path/to/zk/chroot''"

definition check_servers :: "string list \<Rightarrow> string \<Rightarrow> go_error + string list \<times> string" where
  "check_servers servers chroot =
     (if list_ex (\<lambda>zk. length (Split zk CHR '':'') \<noteq> 2) servers then Inl zk_form_error
      else Inr (servers, chroot))"

definition ParseZKURI :: "string \<Rightarrow> go_error + string list \<times> string" where
  "ParseZKURI zkURI =
     (let parts = Split (TrimPrefix zkURI ''zk://'') CHR ''/'' in
      if length parts = 2 then
        (if parts ! 1 = [] then Inl (ErrText ''ZK chroot must not be the root path \"/\"!'')
         else check_servers (Split (parts ! 0) CHR '','') (''/'' @ parts ! 1))
      else if length parts = 1 then check_servers (Split (parts ! 0) CHR '','') []
      else Inl zk_form_error)"

section \<open>The framework identifier\<close>

definition fwid_path :: "string \<Rightarrow> string \<Rightarrow> string" where
  "fwid_path zkChroot frameworkName = zkChroot @ ''/'' @ frameworkName @ ''_framework_id''"

definition recon_path :: "string \<Rightarrow> string \<Rightarrow> string" where
  "recon_path zkChroot frameworkName = zkChroot @ ''/'' @ frameworkName @ ''_reconciliation''"

definition PersistFrameworkID ::
    "'w World \<Rightarrow> string \<Rightarrow> string list \<Rightarrow> string \<Rightarrow> string \<Rightarrow> 'w \<Rightarrow> go_error option \<times> 'w" where
  "PersistFrameworkID io fwid zkServers zkChroot frameworkName w =
     (case zk_connect io zkServers w of
        (Some e, w1) \<Rightarrow> (Some e, w1)
      | (None, w1) \<Rightarrow>
          let (err, w2) = zk_create io zkChroot [] w1 in
          if err \<noteq> None \<and> err \<noteq> Some ZkNodeExists then (err, w2)
          else zk_create io (fwid_path zkChroot frameworkName) fwid w2)"

definition fwid_request ::
    "'w World \<Rightarrow> string list \<Rightarrow> string \<Rightarrow> string \<Rightarrow> 'w \<Rightarrow> (go_error + string) \<times> 'w" where
  "fwid_request io zkServers zkChroot frameworkName w =
     (case zk_connect io zkServers w of
        (Some e, w1) \<Rightarrow> (Inl e, w1)
      | (None, w1) \<Rightarrow> zk_get io (fwid_path zkChroot frameworkName) w1)"

text \<open>The loop of the two readers: retry a request until it has no error.\<close>

definition retry_request ::
    "'w World \<Rightarrow> ('w \<Rightarrow> (go_error + 'r) \<times> 'w) \<Rightarrow> 'w \<Rightarrow> (go_error option + 'r) \<times> 'w" where
  "retry_request io request w =
     (case retry_loop io RPC_RETRIES 1
             (\<lambda>err w. case request w of
                (Inr r, w1) \<Rightarrow> (Inl r, w1)
              | (Inl e, w1) \<Rightarrow> (Inr (Some e), w1)) None w of
        (Inl r, w1) \<Rightarrow> (Inr r, w1)
      | (Inr err, w1) \<Rightarrow> (Inl err, w1))"

definition GetPreviousFrameworkID ::
    "'w World \<Rightarrow> string list \<Rightarrow> string \<Rightarrow> string \<Rightarrow> 'w \<Rightarrow> (go_error option + string) \<times> 'w" where
  "GetPreviousFrameworkID io zkServers zkChroot frameworkName w =
     retry_request io (fwid_request io zkServers zkChroot frameworkName) w"

section \<open>The reconciliation map\<close>

definition smap_json :: "(string, string) gomap \<Rightarrow> json" where
  "smap_json m = JObj (map (\<lambda>(k, v). (k, JStr v)) (sort_key fst m))"

definition update_request ::
    "'w World \<Rightarrow> string \<Rightarrow> string list \<Rightarrow> string \<Rightarrow> string \<Rightarrow> 'w \<Rightarrow> go_error option \<times> 'w" where
  "update_request io serialized zkServers zkChroot frameworkName w =
     (case zk_connect io zkServers w of
        (Some e, w1) \<Rightarrow> (Some e, w1)
      | (None, w1) \<Rightarrow>
          let (err, w2) = zk_set io (recon_path zkChroot frameworkName) serialized w1 in
          if err \<noteq> Some ZkNoNode then (err, w2)
          else zk_create io (recon_path zkChroot frameworkName) serialized w2)"

definition UpdateReconciliationInfo ::
    "'w World \<Rightarrow> (string, string) gomap \<Rightarrow> string list \<Rightarrow> string \<Rightarrow> string \<Rightarrow> 'w \<Rightarrow> go_error option \<times> 'w" where
  "UpdateReconciliationInfo io reconciliationInfo zkServers zkChroot frameworkName w =
     (let serialized = print_json (smap_json reconciliationInfo) in
      case retry_loop io (RPC_RETRIES * 2) 1
             (\<lambda>outerErr w. case update_request io serialized zkServers zkChroot frameworkName w of
                (None, w1) \<Rightarrow> (Inl (), w1)
              | (Some e, w1) \<Rightarrow> (Inr (Some e), w1)) None w of
        (Inl _, w1) \<Rightarrow> (None, w1)
      | (Inr outerErr, w1) \<Rightarrow> (outerErr, w1))"

definition recon_request ::
    "'w World \<Rightarrow> string list \<Rightarrow> string \<Rightarrow> string \<Rightarrow> 'w \<Rightarrow> (go_error + (string, string) gomap) \<times> 'w" where
  "recon_request io zkServers zkChroot frameworkName w =
     (case zk_connect io zkServers w of
        (Some e, w1) \<Rightarrow> (Inl e, w1)
      | (None, w1) \<Rightarrow>
          (case zk_get io (recon_path zkChroot frameworkName) w1 of
             (Inl e, w2) \<Rightarrow> (if e = ZkNoNode then Inr [] else Inl e, w2)
           | (Inr rawData, w2) \<Rightarrow>
               (case unmarshal dec_smap rawData of
                  None \<Rightarrow> (Inl ErrJSON, w2)
                | Some m \<Rightarrow> (Inr m, w2))))"

definition GetPreviousReconciliationInfo ::
    "'w World \<Rightarrow> string list \<Rightarrow> string \<Rightarrow> string \<Rightarrow> 'w \<Rightarrow> (go_error option + (string, string) gomap) \<times> 'w" where
  "GetPreviousReconciliationInfo io zkServers zkChroot frameworkName w =
     retry_request io (recon_request io zkServers zkChroot frameworkName) w"

definition ClearZKState ::
    "'w World \<Rightarrow> string list \<Rightarrow> string \<Rightarrow> string \<Rightarrow> 'w \<Rightarrow> go_error option \<times> 'w" where
  "ClearZKState io zkServers zkChroot frameworkName w =
     (case zk_connect io zkServers w of
        (Some e, w1) \<Rightarrow> (Some e, w1)
      | (None, w1) \<Rightarrow>
          let (err1, w2) = zk_delete io (fwid_path zkChroot frameworkName) w1;
              (err2, w3) = zk_delete io (recon_path zkChroot frameworkName) w2
          in (if err1 \<noteq> None then err1 else err2, w3))"

section \<open>The leading master\<close>

record Address =
  addr_Hostname :: "string option"
  addr_Ip :: "string option"
  addr_Port :: "int option"

record MasterInfo =
  mi_Ip :: "32 word option"
  mi_Port :: "32 word option"
  mi_Hostname :: "string option"
  mi_Address :: "Address option"

type_synonym decoder = "string \<Rightarrow> MasterInfo option"

text \<open>
  \<open>json.Unmarshal\<close> into a \<open>MasterInfo\<close>; the fields that are not used are checked for their type.
\<close>

definition as_ptr :: "(json \<Rightarrow> 'a option) \<Rightarrow> json \<Rightarrow> 'a option option" where
  "as_ptr f v = (if v = JNull then Some None else map_option Some (f v))"

definition as_uint32 :: "json \<Rightarrow> 32 word option" where
  "as_uint32 v =
     (case v of
        JNum s \<Rightarrow> (case ParseUint s of None \<Rightarrow> None | Some n \<Rightarrow> if unat n < 2 ^ 32 then Some (ucast n) else None)
      | _ \<Rightarrow> None)"

definition as_int32 :: "json \<Rightarrow> int option" where
  "as_int32 v =
     (case v of
        JNum s \<Rightarrow> (case ParseInt s of None \<Rightarrow> None | Some i \<Rightarrow> if - (2 ^ 31) \<le> i \<and> i < 2 ^ 31 then Some i else None)
      | _ \<Rightarrow> None)"

definition dec_Address :: "json \<Rightarrow> Address option" where
  "dec_Address =
     dec_struct (\<lambda>a k v.
       if key_eq k ''hostname'' then map_option (\<lambda>x. a\<lparr>addr_Hostname := x\<rparr>) (as_ptr (as_str []) v)
       else if key_eq k ''ip'' then map_option (\<lambda>x. a\<lparr>addr_Ip := x\<rparr>) (as_ptr (as_str []) v)
       else if key_eq k ''port'' then map_option (\<lambda>x. a\<lparr>addr_Port := x\<rparr>) (as_ptr as_int32 v)
       else Some a) \<lparr>addr_Hostname = None, addr_Ip = None, addr_Port = None\<rparr>"

definition dec_MasterInfo :: "json \<Rightarrow> MasterInfo option" where
  "dec_MasterInfo =
     dec_struct (\<lambda>m k v.
       if list_ex (key_eq k) [''id'', ''pid'', ''version''] then map_option (\<lambda>_. m) (as_str [] v)
       else if key_eq k ''ip'' then map_option (\<lambda>x. m\<lparr>mi_Ip := x\<rparr>) (as_ptr as_uint32 v)
       else if key_eq k ''port'' then map_option (\<lambda>x. m\<lparr>mi_Port := x\<rparr>) (as_ptr as_uint32 v)
       else if key_eq k ''hostname'' then map_option (\<lambda>x. m\<lparr>mi_Hostname := x\<rparr>) (as_ptr (as_str []) v)
       else if key_eq k ''address'' then map_option (\<lambda>x. m\<lparr>mi_Address := x\<rparr>) (as_ptr dec_Address v)
       else Some m) \<lparr>mi_Ip = None, mi_Port = None, mi_Hostname = None, mi_Address = None\<rparr>"

definition infoCodecs :: "decoder \<Rightarrow> (string, decoder) gomap" where
  "infoCodecs proto_Unmarshal = [(''info_'', proto_Unmarshal), (''json.info_'', unmarshal dec_MasterInfo)]"

text \<open>
  The loop over the children: a child with the prefix of a codec is replaced by the rest of its
  name, unless that rest was seen before.
\<close>

fun childloop ::
    "'w World \<Rightarrow> (string, decoder) gomap \<Rightarrow> string list \<Rightarrow> (string, string \<times> decoder) gomap \<Rightarrow> 'w \<Rightarrow>
     ((string, string \<times> decoder) gomap \<times> string list) \<times> 'w" where
  "childloop io codecs [] mapped w = ((mapped, []), w)"
| "childloop io codecs (c # cs) mapped w =
     (let (ord, w0) = go_range io codecs w in
      case find (\<lambda>(p, d). HasPrefix c p) ord of
        None \<Rightarrow> (let ((m, cs'), w1) = childloop io codecs cs mapped w0 in ((m, c # cs'), w1))
      | Some (p, d) \<Rightarrow>
          (let key = drop (length p) c in
           if gm_has mapped key then
             (let ((m, cs'), w1) = childloop io codecs cs mapped w0 in ((m, c # cs'), w1))
           else
             (let ((m, cs'), w1) = childloop io codecs cs (gm_put key (c, d) mapped) w0
              in ((m, key # cs'), w1))))"

text \<open>A child that is no master entry may sort first; its missing decoder is then called.\<close>

definition masterInfoFromZKNodes ::
    "'w World \<Rightarrow> string list \<Rightarrow> (string \<Rightarrow> 'w \<Rightarrow> (go_error + string) \<times> 'w) \<Rightarrow> (string, decoder) gomap \<Rightarrow> 'w \<Rightarrow>
     (go_error + MasterInfo \<times> string) outcome \<times> 'w" where
  "masterInfoFromZKNodes io children ng codecs w =
     (let ((mapped, children'), w1) = childloop io codecs (rev (sort children)) [] w in
      if mapped = [] then (Returns (Inl (ErrText ''Could not find current mesos master in zk'')), w1)
      else
        let lowest = hd (sort children') in
        case gm_get mapped lowest of
          Some (node, dec) \<Rightarrow>
            (case ng node w1 of
               (Inl e, w2) \<Rightarrow> (Returns (Inl e), w2)
             | (Inr rawData, w2) \<Rightarrow>
                 (case dec rawData of
                    None \<Rightarrow> (Returns (Inl ErrJSON), w2)
                  | Some info \<Rightarrow> (Returns (Inr (info, rawData)), w2)))
        | None \<Rightarrow>
            (case ng [] w1 of
               (Inl e, w2) \<Rightarrow> (Returns (Inl e), w2)
             | (Inr _, w2) \<Rightarrow> (Panics, w2)))"

text \<open>\<open>net.JoinHostPort\<close> brackets a host that contains a colon or a percent sign.\<close>

definition JoinHostPort :: "string \<Rightarrow> string \<Rightarrow> string" where
  "JoinHostPort host port =
     (if CHR '':'' \<in> set host \<or> CHR ''%'' \<in> set host then ''['' @ host @ '']:'' @ port
      else host @ '':'' @ port)"

text \<open>The dotted form of an address packed in the byte order of the machine.\<close>

definition ip_bytes :: "bool \<Rightarrow> 32 word \<Rightarrow> nat list" where
  "ip_bytes little ip =
     (let bs = map (\<lambda>k. unat ip div 256 ^ k mod 256) [0, 1, 2, 3] in if little then bs else rev bs)"

definition addressFrom :: "bool \<Rightarrow> MasterInfo \<Rightarrow> string" where
  "addressFrom little info =
     (let (host, port) =
        (case mi_Address info of
           None \<Rightarrow> ([], 0)
         | Some addr \<Rightarrow>
             (let h = (case addr_Hostname addr of None \<Rightarrow> [] | Some h \<Rightarrow> h) in
              (if h = [] then (case addr_Ip addr of None \<Rightarrow> [] | Some h \<Rightarrow> h) else h,
               case addr_Port addr of None \<Rightarrow> 0 | Some p \<Rightarrow> p)));
          (host, port) =
        (if host \<noteq> [] then (host, port)
         else
           (let h = (case mi_Hostname info of None \<Rightarrow> [] | Some h \<Rightarrow> h);
                ip = (case mi_Ip info of None \<Rightarrow> 0 | Some ip \<Rightarrow> ip) in
            (if h \<noteq> [] then h
             else if ip \<noteq> 0 then Join (map fmt_nat (ip_bytes little ip)) ''.''
             else [],
             case mi_Port info of None \<Rightarrow> 5050 | Some p \<Rightarrow> uint p)))
      in if host = [] then [] else JoinHostPort host (fmt_int port))"

text \<open>\<open>fmt.Sscanf\<close> with the verb \<open>%d\<close>: blanks, a sign, digits; what follows is left.\<close>

fun scan_blanks :: "string \<Rightarrow> string option" where
  "scan_blanks [] = Some []"
| "scan_blanks (c # cs) =
     (if c = CHR 0x0A then None
      else if is_space c then (if c = CHR 0x0D \<and> cs \<noteq> [] \<and> hd cs = CHR 0x0A then scan_blanks (tl cs) else scan_blanks cs)
      else Some (c # cs))"

definition scan_int :: "string \<Rightarrow> int option" where
  "scan_int s =
     (case scan_blanks s of
        None \<Rightarrow> None
      | Some t \<Rightarrow>
          (let sign = (if t \<noteq> [] \<and> (hd t = CHR ''+'' \<or> hd t = CHR ''-'') then [hd t] else []);
               ds = takeWhile is_digit (drop (length sign) t)
           in if ds = [] then None else ParseInt (sign @ ds)))"

definition addressFromRaw :: "string \<Rightarrow> (go_error + string) outcome" where
  "addressFromRaw rawData =
     (let parts = Split rawData CHR ''@'' in
      if length parts < 2 then Panics
      else
        let mraw2 = Split (parts ! 1) CHR '':'' in
        if length mraw2 < 2 then Panics
        else case scan_int (mraw2 ! 1) of
          None \<Rightarrow> Returns (Inl (ErrText ''expected integer''))
        | Some port \<Rightarrow> Returns (Inr (JoinHostPort (mraw2 ! 0) (fmt_int port))))"

text \<open>The error of \<open>ParseZKURI\<close> is overwritten: a malformed URI gives no servers and no path.\<close>

definition GetMasterFromZK ::
    "'w World \<Rightarrow> bool \<Rightarrow> decoder \<Rightarrow> string \<Rightarrow> 'w \<Rightarrow> (go_error + string) outcome \<times> 'w" where
  "GetMasterFromZK io little proto_Unmarshal zkURI w =
     (let (servers, chroot) = (case ParseZKURI zkURI of Inl _ \<Rightarrow> ([], []) | Inr sc \<Rightarrow> sc) in
      case zk_connect io servers w of
        (Some e, w1) \<Rightarrow> (Returns (Inl e), w1)
      | (None, w1) \<Rightarrow>
          (case zk_children io chroot w1 of
             (Inl e, w2) \<Rightarrow> (Returns (Inl e), w2)
           | (Inr children, w2) \<Rightarrow>
               (case masterInfoFromZKNodes io children (\<lambda>node. zk_get io (chroot @ ''/'' @ node))
                       (infoCodecs proto_Unmarshal) w2 of
                  (Panics, w3) \<Rightarrow> (Panics, w3)
                | (Returns (Inl e), w3) \<Rightarrow> (Returns (Inl e), w3)
                | (Returns (Inr (info, rawData)), w3) \<Rightarrow>
                    (let addr = addressFrom little info in
                     (if addr = [] then addressFromRaw rawData else Returns (Inr addr), w3)))))"

section \<open>Lemmas: addresses\<close>

lemma length_split_acc: "length (split_acc sep cur s) = Suc (count_list s sep)"
  by (induction s arbitrary: cur) auto

lemma length_Split: "length (Split s sep) = Suc (count_list s sep)"
  by (simp add: Split_def length_split_acc)

lemma Join_no_char: "\<forall>s \<in> set ss. c \<notin> set s \<Longrightarrow> c \<notin> set sep \<Longrightarrow> c \<notin> set (Join ss sep)"
  by (induction ss sep rule: Join.induct) auto

text \<open>One server of a ZooKeeper URI: a host and a port.\<close>

definition zk_server :: "string \<Rightarrow> bool" where
  "zk_server s \<longleftrightarrow> length (Split s CHR '':'') = 2 \<and> CHR '','' \<notin> set s \<and> CHR ''/'' \<notin> set s"

section \<open>Lemmas: the reconciliation map\<close>

lemma dec_fields_strs:
  "distinct (map fst (acc @ m)) \<Longrightarrow>
   dec_fields (\<lambda>m k x. map_option (\<lambda>s. gm_put k s m) (as_str [] x)) acc (map (\<lambda>(k, v). (k, JStr v)) m) = Some (acc @ m)"
proof (induction m arbitrary: acc)
  case (Cons a m)
  obtain k v where a: "a = (k, v)" by fastforce
  with Cons.prems have "gm_put k v acc = acc @ [(k, v)]"
    by (intro gm_put_set_new) (auto simp: gm_has_iff gm_keys_def)
  with Cons a show ?case by (simp add: as_str_def)
qed simp

lemma smap_json_ok: "json_ok (smap_json m)"
  by (auto simp: smap_json_def)

lemma unmarshal_smap: "gm_ok m \<Longrightarrow> unmarshal dec_smap (print_json (smap_json m)) = Some (sort_key fst m)"
  using dec_fields_strs [of "[]" "sort_key fst m"]
  by (simp add: unmarshal_print smap_json_ok) (simp add: smap_json_def dec_smap_def dec_struct_def gm_ok_def distinct_map)

lemma gm_get_sort_key: "gm_ok m \<Longrightarrow> gm_get (sort_key fst m) k = gm_get m k"
proof -
  assume ok: "gm_ok m"
  then have "gm_ok (sort_key fst m)" by (simp add: gm_ok_def distinct_map)
  with ok show ?thesis by (metis gm_ok_get_iff not_None_eq set_sort)
qed

text \<open>
  What a write to a ZooKeeper node promises: connections succeed, and the next read of the node on
  a new connection returns what was written.
\<close>

definition zk_register :: "'w World \<Rightarrow> string \<Rightarrow> bool" where
  "zk_register io path \<longleftrightarrow>
     (\<forall>data w w1 servers. zk_set io path data w = (None, w1) \<or> zk_create io path data w = (None, w1) \<longrightarrow>
        (\<exists>w2 w3. zk_connect io servers w1 = (None, w2) \<and> zk_get io path w2 = (Inr data, w3)))"

lemma update_request_None:
  assumes "update_request io data ss chroot name w = (None, w1)"
  shows "\<exists>w0. zk_set io (recon_path chroot name) data w0 = (None, w1) \<or> zk_create io (recon_path chroot name) data w0 = (None, w1)"
  using assms by (auto simp: update_request_def split: prod.splits option.splits if_splits)

lemma UpdateReconciliationInfo_None:
  assumes "UpdateReconciliationInfo io m ss chroot name w = (None, w1)"
  shows "\<exists>w0. zk_set io (recon_path chroot name) (print_json (smap_json m)) w0 = (None, w1) \<or>
    zk_create io (recon_path chroot name) (print_json (smap_json m)) w0 = (None, w1)"
proof -
  let ?body = "\<lambda>outerErr w. case update_request io (print_json (smap_json m)) ss chroot name w of
      (None, w1) \<Rightarrow> (Inl (), w1) | (Some e, w1) \<Rightarrow> (Inr (Some e), w1)"
  obtain r w2 where r: "retry_loop io (RPC_RETRIES * 2) 1 ?body None w = (r, w2)" by fastforce
  show ?thesis
  proof (cases r)
    case (Inl u)
    with r assms have "w2 = w1" by (simp add: UpdateReconciliationInfo_def)
    with retry_loop_Inl r Inl obtain a w3 where "?body a w3 = (Inl u, w1)" by fastforce
    then have "update_request io (print_json (smap_json m)) ss chroot name w3 = (None, w1)"
      by (auto split: prod.splits option.splits)
    then show ?thesis by (rule update_request_None)
  next
    case (Inr e)
    then have "e = None" using r assms by (simp add: UpdateReconciliationInfo_def)
    moreover obtain x w3 where "update_request io (print_json (smap_json m)) ss chroot name w = (x, w3)" by fastforce
    ultimately show ?thesis
      using r Inr retry_loop_inv [where P = "\<lambda>e. e \<noteq> None" and body = ?body and a' = e and w' = w2]
      by (cases x) (auto simp: numeral_eq_Suc split: prod.splits option.splits)
  qed
qed

section \<open>Lemmas: the leading master\<close>

definition codec_of :: "decoder \<Rightarrow> string \<Rightarrow> (string \<times> decoder) option" where
  "codec_of pu c =
     (if HasPrefix c ''info_'' then Some (''info_'', pu)
      else if HasPrefix c ''json.info_'' then Some (''json.info_'', unmarshal dec_MasterInfo)
      else None)"

text \<open>The sequence number of a master entry.\<close>

definition entry_key :: "string \<Rightarrow> string option" where
  "entry_key c = map_option (\<lambda>(p, _). drop (length p) c) (codec_of (\<lambda>_. None) c)"

definition entry_decoder :: "decoder \<Rightarrow> string \<Rightarrow> decoder" where
  "entry_decoder pu c = (if HasPrefix c ''info_'' then pu else unmarshal dec_MasterInfo)"

lemma HasPrefix_iff: "HasPrefix s p \<longleftrightarrow> (\<exists>t. s = p @ t)"
  by (metis HasPrefix_append HasPrefix_def append_take_drop_id)

lemma not_both_prefixes: "HasPrefix c ''info_'' \<Longrightarrow> \<not> HasPrefix c ''json.info_''"
  by (auto simp: HasPrefix_iff)

lemma two_orders: "mset xs = {#a, b#} \<Longrightarrow> xs = [a, b] \<or> xs = [b, a]"
  by (cases xs; cases "tl xs") (auto simp: add_mset_eq_single add_eq_conv_ex split: if_splits)

lemma find_codec:
  "find (\<lambda>(p, d). HasPrefix c p) (fst (go_range io (infoCodecs pu) w)) = codec_of pu c"
proof -
  have "mset (fst (go_range io (infoCodecs pu) w)) = mset (infoCodecs pu)"
    by (rule go_range_mset) (simp add: infoCodecs_def gm_ok_def)
  then have "mset (fst (go_range io (infoCodecs pu) w)) =
      {#(''info_'', pu), (''json.info_'', unmarshal dec_MasterInfo)#}"
    by (simp add: infoCodecs_def)
  from two_orders [OF this] show ?thesis
    using not_both_prefixes [of c] by (auto simp: codec_of_def)
qed

lemma codec_of_Some: "codec_of pu c = Some (p, d) \<Longrightarrow> entry_key c = Some (drop (length p) c) \<and> d = entry_decoder pu c"
  by (auto simp: codec_of_def entry_key_def entry_decoder_def split: if_splits)

lemma codec_of_None: "codec_of pu c = None \<Longrightarrow> entry_key c = None"
  by (auto simp: codec_of_def entry_key_def split: if_splits)

text \<open>One turn of the loop: the child is kept, or it is replaced by its new key.\<close>

lemma childloop_Cons:
  assumes "childloop io (infoCodecs pu) (c # cs) mapped w = ((m, cs'), w')"
  obtains (keep) cs2 w1 where "childloop io (infoCodecs pu) cs mapped w1 = ((m, cs2), w')" "cs' = c # cs2"
      "entry_key c = None \<or> (\<exists>k. entry_key c = Some k \<and> gm_has mapped k)"
  | (new) k cs2 w1 where "entry_key c = Some k" "\<not> gm_has mapped k" "cs' = k # cs2"
      "childloop io (infoCodecs pu) cs (gm_put k (c, entry_decoder pu c) mapped) w1 = ((m, cs2), w')"
proof (cases "codec_of pu c")
  case None
  with assms keep show thesis
    by (simp add: split_beta find_codec codec_of_None) (metis prod.collapse)
next
  case (Some pd)
  then obtain p d where pd: "codec_of pu c = Some (p, d)" by (cases pd) auto
  note key = codec_of_Some [OF pd]
  show thesis
  proof (cases "gm_has mapped (drop (length p) c)")
    case True
    with assms pd keep key show thesis
      by (simp add: split_beta find_codec Let_def) (metis prod.collapse)
  next
    case False
    with assms pd new key show thesis
      by (simp add: split_beta find_codec Let_def) (metis prod.collapse)
  qed
qed

lemma childloop_mapped:
  "childloop io (infoCodecs pu) cs mapped w = ((m, cs'), w') \<Longrightarrow>
   gm_get m k = (case gm_get mapped k of
       Some x \<Rightarrow> Some x
     | None \<Rightarrow> map_option (\<lambda>c. (c, entry_decoder pu c)) (find (\<lambda>c. entry_key c = Some k) cs))"
proof (induction cs arbitrary: mapped w m cs' w')
  case (Cons c cs)
  from Cons.prems show ?case
  proof (cases rule: childloop_Cons)
    case (keep cs2 w1)
    from Cons.IH [OF keep(1)] keep(3) show ?thesis by (auto simp: gm_has_def split: option.splits)
  next
    case (new k' cs2 w1)
    from Cons.IH [OF new(4)] new(1,2) show ?thesis by (auto simp: gm_has_def go_map split: option.splits)
  qed
qed (auto split: option.splits)

lemma childloop_set:
  "childloop io (infoCodecs pu) cs mapped w = ((m, cs'), w') \<Longrightarrow>
   set cs' \<subseteq> set cs \<union> {k. \<exists>c \<in> set cs. entry_key c = Some k} \<and>
   {k. \<exists>c \<in> set cs. entry_key c = Some k} - gm_keys mapped \<subseteq> set cs'"
proof (induction cs arbitrary: mapped w m cs' w')
  case (Cons c cs)
  from Cons.prems show ?case
  proof (cases rule: childloop_Cons)
    case (keep cs2 w1)
    from Cons.IH [OF keep(1)] keep(2,3) show ?thesis by (auto simp: gm_has_iff)
  next
    case (new k' cs2 w1)
    from Cons.IH [OF new(4)] new(1,2,3) show ?thesis by (auto simp: go_map)
  qed
qed simp

text \<open>
  The children of a master path: entries whose sequence number starts with a digit (or a smaller
  byte), and other names that start with a larger byte, such as \<open>log_replicas\<close>.
\<close>

definition master_children :: "string list \<Rightarrow> bool" where
  "master_children cs \<longleftrightarrow>
     (\<forall>c \<in> set cs. c \<noteq> [] \<and> CHR ''9'' < hd c) \<and>
     (\<forall>c \<in> set cs. \<forall>k. entry_key c = Some k \<longrightarrow> k \<noteq> [] \<and> hd k \<le> CHR ''9'') \<and>
     (\<exists>c \<in> set cs. entry_key c \<noteq> None)"

definition lowest_key :: "string list \<Rightarrow> string" where
  "lowest_key cs = hd (sort (List.map_filter entry_key cs))"

text \<open>The entry of a sequence number that is read: the JSON one if there are both.\<close>

definition leader_entry :: "string list \<Rightarrow> string" where
  "leader_entry cs =
     (if ''json.info_'' @ lowest_key cs \<in> set cs then ''json.info_'' @ lowest_key cs
      else ''info_'' @ lowest_key cs)"

lemma hd_sort_Min: "xs \<noteq> [] \<Longrightarrow> hd (sort xs) = Min (set xs)"
  for xs :: "'a :: linorder list"
proof -
  assume "xs \<noteq> []"
  then obtain y ys where s: "sort xs = y # ys" by (metis list.exhaust set_empty set_sort)
  with sorted_sort [of xs] have "\<forall>z \<in> set (sort xs). y \<le> z" by auto
  moreover have "y \<in> set (sort xs)" using s by simp
  ultimately have "Min (set (sort xs)) = y" by (intro Min_eqI) auto
  with s show ?thesis by (metis list.sel(1) set_sort)
qed

lemma entry_keys_set: "set (List.map_filter entry_key cs) = {k. \<exists>c \<in> set cs. entry_key c = Some k}"
  by (auto simp: List.map_filter_def image_iff) (metis option.sel option.distinct(1))

lemma digit_key_less: "k \<noteq> [] \<Longrightarrow> c \<noteq> [] \<Longrightarrow> hd k \<le> CHR ''9'' \<Longrightarrow> CHR ''9'' < hd c \<Longrightarrow> (k :: string) < c"
  by (cases k; cases c) auto

lemma childloop_lowest:
  assumes "master_children cs" "childloop io (infoCodecs pu) (rev (sort cs)) [] w = ((m, cs'), w')"
  shows "hd (sort cs') = lowest_key cs"
proof -
  let ?K = "{k. \<exists>c \<in> set cs. entry_key c = Some k}"
  have K: "finite ?K" "?K \<noteq> {}" "\<forall>k \<in> ?K. k \<noteq> [] \<and> hd k \<le> CHR ''9''"
    using assms(1) finite_set [of "List.map_filter entry_key cs"]
    by (auto simp: master_children_def entry_keys_set)
  have sub: "set cs' \<subseteq> set cs \<union> ?K" "?K \<subseteq> set cs'"
    using childloop_set [OF assms(2)] by auto
  have "Min (set cs') = Min ?K"
  proof (rule Min_eqI)
    show "Min ?K \<in> set cs'" using Min_in [OF K(1,2)] sub by blast
    fix y assume "y \<in> set cs'"
    with sub consider "y \<in> ?K" | "y \<in> set cs" by blast
    then show "Min ?K \<le> y"
    proof cases
      case 2
      then have "y \<noteq> []" "CHR ''9'' < hd y" using assms(1) by (auto simp: master_children_def)
      then show ?thesis using digit_key_less K(3) Min_in [OF K(1,2)] by (meson less_imp_le)
    qed (simp add: K(1))
  qed simp
  moreover have "cs' \<noteq> []" using sub(2) K(2) by auto
  moreover have "List.map_filter entry_key cs \<noteq> []" using K(2) entry_keys_set by (metis set_empty)
  ultimately show ?thesis by (simp add: hd_sort_Min lowest_key_def entry_keys_set)
qed

lemma entry_key_cases: "entry_key c = Some k \<Longrightarrow> c = ''info_'' @ k \<or> c = ''json.info_'' @ k"
  by (auto simp: entry_key_def codec_of_def HasPrefix_iff split: if_splits)

lemma entry_key_simps [simp]: "entry_key (''info_'' @ k) = Some k" "entry_key (''json.info_'' @ k) = Some k"
  by (simp_all add: entry_key_def codec_of_def HasPrefix_def)

lemma find_rev_sort:
  assumes "find P (rev (sort cs)) = Some x" "y \<in> set cs" "P y"
  shows "y \<le> (x :: 'a :: linorder)"
proof -
  let ?xs = "rev (sort cs)"
  from assms(1) obtain i where i: "i < length ?xs" "x = ?xs ! i" "\<forall>j < i. \<not> P (?xs ! j)"
    unfolding find_Some_iff by blast
  from assms(2) obtain j where j: "j < length ?xs" "y = ?xs ! j"
    by (metis in_set_conv_nth set_rev set_sort)
  with i assms(3) have "i \<le> j" by (metis not_le_imp_less)
  then show ?thesis using i j sorted_rev_nth_mono [of ?xs i j] by simp
qed

lemma find_SomeD: "find P xs = Some x \<Longrightarrow> P x \<and> x \<in> set xs"
  by (induction xs) (auto split: if_splits)

lemma leader_entry_found:
  assumes "master_children cs"
  shows "find (\<lambda>c. entry_key c = Some (lowest_key cs)) (rev (sort cs)) = Some (leader_entry cs)"
proof -
  let ?P = "\<lambda>c. entry_key c = Some (lowest_key cs)"
  have "List.map_filter entry_key cs \<noteq> []"
    using assms entry_keys_set [of cs] by (fastforce simp: master_children_def)
  then have "lowest_key cs \<in> {k. \<exists>c \<in> set cs. entry_key c = Some k}"
    unfolding lowest_key_def entry_keys_set [symmetric] by (simp add: hd_sort_Min)
  then obtain c where c: "c \<in> set cs" "?P c" by blast
  then have "find ?P (rev (sort cs)) \<noteq> None" by (auto simp: find_None_iff)
  then obtain x where x: "find ?P (rev (sort cs)) = Some x" by blast
  from find_SomeD [OF this] have "?P x" "x \<in> set cs" by auto
  define i where "i = ''info_'' @ lowest_key cs"
  define j where "j = ''json.info_'' @ lowest_key cs"
  have "?P j" unfolding j_def by (rule entry_key_simps)
  have "i < j" by (simp add: i_def j_def)
  have "x = i \<or> x = j" using entry_key_cases \<open>?P x\<close> by (simp only: i_def j_def)
  moreover have "j \<in> set cs \<Longrightarrow> j \<le> x" using find_rev_sort [OF x] \<open>?P j\<close> by blast
  moreover have "leader_entry cs = (if j \<in> set cs then j else i)" by (simp only: leader_entry_def i_def j_def)
  ultimately have "x = leader_entry cs"
    using \<open>i < j\<close> \<open>x \<in> set cs\<close> by (cases "j \<in> set cs") auto
  with x show ?thesis by simp
qed

section \<open>Properties\<close>

text \<open>
  A ZooKeeper URI made of servers \<open>host:port\<close> and a path of one level is read back.
\<close>

lemma ParseZKURI_roundtrip:
  assumes "ss \<noteq> []" "list_all zk_server ss" "c \<noteq> []" "CHR ''/'' \<notin> set c"
  shows "ParseZKURI (''zk://'' @ Join ss '','' @ ''/'' @ c) = Inr (ss, ''/'' @ c)"
proof -
  have "CHR ''/'' \<notin> set (Join ss '','')"
    using assms(2) by (intro Join_no_char) (auto simp: zk_server_def list_all_iff)
  then have "Split (Join ss '','' @ ''/'' @ c) CHR ''/'' = [Join ss '','', c]"
    using assms(4) by (simp add: Split_pair Split_single)
  moreover have "Split (Join ss '','') CHR '','' = ss"
    using assms(1,2) by (intro Split_Join) (auto simp: zk_server_def list_all_iff)
  moreover have "TrimPrefix (''zk://'' @ Join ss '','' @ ''/'' @ c) ''zk://'' = Join ss '','' @ ''/'' @ c"
    by (rule TrimPrefix_append)
  ultimately show ?thesis
    using assms(2,3)
    by (simp only: ParseZKURI_def Let_def) (auto simp: check_servers_def list_ex_iff list_all_iff zk_server_def)
qed

text \<open>
  A path of more than one level is refused, although the message of the error gives
  \<open>/path/to/zk/chroot\<close> as the form to use.
\<close>

lemma ParseZKURI_deep_path:
  assumes "2 \<le> count_list (TrimPrefix uri ''zk://'') CHR ''/''"
  shows "ParseZKURI uri = Inl zk_form_error"
  using assms by (simp add: ParseZKURI_def length_Split)


text \<open>
  Among the children of the master path the leader is the entry with the lowest
  sequence number, read as JSON if there is a JSON entry for it, whatever order the map of codecs is
  visited in; other children do not matter and the call does not panic.
\<close>

lemma masterInfoFromZKNodes_leader:
  assumes "master_children cs"
  shows "\<exists>w1. masterInfoFromZKNodes io cs ng (infoCodecs pu) w =
    (case ng (leader_entry cs) w1 of
       (Inl e, w2) \<Rightarrow> (Returns (Inl e), w2)
     | (Inr rawData, w2) \<Rightarrow>
         (case entry_decoder pu (leader_entry cs) rawData of
            None \<Rightarrow> (Returns (Inl ErrJSON), w2)
          | Some info \<Rightarrow> (Returns (Inr (info, rawData)), w2)))"
proof -
  obtain m cs' w1 where c: "childloop io (infoCodecs pu) (rev (sort cs)) [] w = ((m, cs'), w1)"
    by (metis surj_pair)
  have "gm_get m (lowest_key cs) = Some (leader_entry cs, entry_decoder pu (leader_entry cs))"
    using childloop_mapped [OF c] leader_entry_found [OF assms] by simp
  moreover from this have "m \<noteq> []" by auto
  ultimately have "masterInfoFromZKNodes io cs ng (infoCodecs pu) w =
    (case ng (leader_entry cs) w1 of
       (Inl e, w2) \<Rightarrow> (Returns (Inl e), w2)
     | (Inr rawData, w2) \<Rightarrow>
         (case entry_decoder pu (leader_entry cs) rawData of
            None \<Rightarrow> (Returns (Inl ErrJSON), w2)
          | Some info \<Rightarrow> (Returns (Inr (info, rawData)), w2)))"
    using c childloop_lowest [OF assms c] by (simp add: masterInfoFromZKNodes_def)
  then show ?thesis ..
qed

section \<open>Witnesses\<close>

text \<open>A world whose state is a ZooKeeper tree.\<close>

definition zk_demo :: "((string, string) gomap) World" where
  "zk_demo =
     \<lparr>http_do = (\<lambda>_ w. (HttpErr, w)), etcd_sync = (\<lambda>_ w. (False, w)), etcd_get = (\<lambda>_ w. (None, w)),
      sleep = (\<lambda>_ w. w), now = Pair 0, range_order = Pair,
      zk_connect = (\<lambda>_ w. (None, w)),
      zk_create = (\<lambda>p d w. if gm_has w p then (Some ZkNodeExists, w) else (None, gm_put p d w)),
      zk_set = (\<lambda>p d w. if gm_has w p then (None, gm_put p d w) else (Some ZkNoNode, w)),
      zk_get = (\<lambda>p w. (case gm_get w p of None \<Rightarrow> Inl ZkNoNode | Some d \<Rightarrow> Inr d, w)),
      zk_delete = (\<lambda>p w. if gm_has w p then (None, gm_del p w) else (Some ZkNoNode, w)),
      zk_children = (\<lambda>_ w. (Inr (map fst w), w))\<rparr>"


end
