(* ===== verification/Node_Json.thy ===== *)
theory Node_Json
  imports Config Json_Print
begin

text \<open>
  The JSON form of \<open>[]*config.Node\<close>: the scheduler writes the new node and the running ones into
  the data of a task, the executor reads them back.  A \<open>null\<close> element is a nil pointer (\<open>None\<close>).
\<close>

definition node_json :: "Node \<Rightarrow> json" where
  "node_json n =
     JObj [(''name'', JStr (Name n)), (''host'', JStr (Host n)),
       (''rpcPort'', JNum (fmt_nat (unat (RPCPort n)))),
       (''clientPort'', JNum (fmt_nat (unat (ClientPort n)))),
       (''httpPort'', JNum (fmt_nat (unat (ReseedPort n)))),
       (''type'', JStr (Type n)), (''slaveID'', JStr (SlaveID n))]"

definition marshal_nodes :: "Node list \<Rightarrow> string" where
  "marshal_nodes ns = print_json (JArr (map node_json ns))"

definition zero_Node :: Node where
  "zero_Node = \<lparr>Name = [], Host = [], RPCPort = 0, ClientPort = 0, ReseedPort = 0, Type = [], SlaveID = []\<rparr>"

definition dec_Node :: "json \<Rightarrow> Node option" where
  "dec_Node =
     dec_struct (\<lambda>n k v.
       if key_eq k ''name'' then map_option (\<lambda>x. n\<lparr>Name := x\<rparr>) (as_str (Name n) v)
       else if key_eq k ''host'' then map_option (\<lambda>x. n\<lparr>Host := x\<rparr>) (as_str (Host n) v)
       else if key_eq k ''rpcPort'' then map_option (\<lambda>x. n\<lparr>RPCPort := x\<rparr>) (as_uint (RPCPort n) v)
       else if key_eq k ''clientPort'' then map_option (\<lambda>x. n\<lparr>ClientPort := x\<rparr>) (as_uint (ClientPort n) v)
       else if key_eq k ''httpPort'' then map_option (\<lambda>x. n\<lparr>ReseedPort := x\<rparr>) (as_uint (ReseedPort n) v)
       else if key_eq k ''type'' then map_option (\<lambda>x. n\<lparr>Type := x\<rparr>) (as_str (Type n) v)
       else if key_eq k ''slaveID'' then map_option (\<lambda>x. n\<lparr>SlaveID := x\<rparr>) (as_str (SlaveID n) v)
       else Some n) zero_Node"

definition unmarshal_nodes :: "string \<Rightarrow> Node option list option" where
  "unmarshal_nodes data =
     unmarshal (dec_list (\<lambda>v. if v = JNull then Some None else map_option Some (dec_Node v))) data"

lemma dec_Node_json: "dec_Node (node_json n) = Some n"
proof -
  have k: "map (\<lambda>k. map (key_eq k) [''name'', ''host'', ''rpcPort'', ''clientPort'', ''httpPort'', ''type'', ''slaveID''])
      [''name'', ''host'', ''rpcPort'', ''clientPort'', ''httpPort'', ''type'', ''slaveID''] =
    map (\<lambda>i. map (\<lambda>j. i = j) [0..<7]) [0..<7]"
    by code_simp
  then show ?thesis
    by (simp add: dec_Node_def dec_struct_def node_json_def as_str_def as_uint_def ParseUint_fmt zero_Node_def upt_rec)
qed

lemma node_json_ok: "json_ok (JArr (map node_json ns))"
  by (auto simp: node_json_def)

lemma unmarshal_marshal_nodes: "unmarshal_nodes (marshal_nodes ns) = Some (map Some ns)"
proof -
  have "those (map (\<lambda>v. if v = JNull then Some None else map_option Some (dec_Node v)) (map node_json ns)) = Some (map Some ns)"
    by (induction ns) (simp_all add: dec_Node_json, simp add: node_json_def)
  then show ?thesis
    unfolding unmarshal_nodes_def marshal_nodes_def unmarshal_print [OF node_json_ok]
    by (simp add: dec_list_def)
qed

interpretation node_list_codec: text_codec marshal_nodes unmarshal_nodes "map Some" "\<lambda>_. True"
  by unfold_locales (rule unmarshal_marshal_nodes)

end
