(* ===== verification/Mesos.thy ===== *)
theory Mesos
  imports Complex_Main Go_Base
begin

text \<open>
  The Mesos messages the program reads and writes, with the fields it uses (the generated
  \<open>mesosproto\<close> package and \<open>mesosutil\<close>).  A getter of a missing optional field returns its zero
  value.  Quantities of type \<open>float64\<close> are real numbers; rounding is not modelled.  Ports are
  \<open>uint64\<close> and wrap around.
\<close>

record Value_Range =
  Begin :: "64 word"
  End :: "64 word"

record Resource =
  res_name :: string
  res_scalar :: real
  res_ranges :: "Value_Range list"

record Offer =
  offer_id :: string
  slave_id :: string
  hostname :: string
  resources :: "Resource list"

datatype TaskState =
    TASK_STAGING | TASK_STARTING | TASK_RUNNING | TASK_FINISHED | TASK_FAILED | TASK_KILLED
  | TASK_LOST | TASK_ERROR

record TaskStatus =
  task_id :: string
  status_slave :: string
  task_state :: TaskState

record CommandInfo =
  cmd_value :: string
  cmd_uris :: "string list"
  cmd_arguments :: "string list"

record ExecutorInfo =
  executor_id :: string
  exec_source :: string
  exec_command :: CommandInfo
  exec_resources :: "Resource list"

record DiscoveryPort =
  port_number :: "32 word"
  port_protocol :: string

record TaskInfo =
  task_info_id :: string
  task_name :: string
  task_data :: string
  task_slave :: string
  task_executor :: ExecutorInfo
  task_resources :: "Resource list"
  task_ports :: "DiscoveryPort list"

text \<open>The constructors of \<open>mesosutil\<close>.\<close>

definition NewScalarResource :: "string \<Rightarrow> real \<Rightarrow> Resource" where
  "NewScalarResource n v = \<lparr>res_name = n, res_scalar = v, res_ranges = []\<rparr>"

definition NewRangesResource :: "string \<Rightarrow> Value_Range list \<Rightarrow> Resource" where
  "NewRangesResource n rs = \<lparr>res_name = n, res_scalar = 0, res_ranges = rs\<rparr>"

definition NewValueRange :: "64 word \<Rightarrow> 64 word \<Rightarrow> Value_Range" where
  "NewValueRange b e = \<lparr>Begin = b, End = e\<rparr>"

end
