(* ===== verification/Offer_Cache.thy ===== *)
theory Offer_Cache
  imports Mesos
begin

text \<open>
  \<open>offercache/offercache.go\<close>: a bounded cache of Mesos offers.  \<open>offerSet\<close> maps the identifier
  of every offer still on hold to the offer; the channel \<open>offerQueue\<close> orders them and may also
  hold offers that were rescinded since (they are dropped by \<open>gc\<close> or skipped by
  \<open>BlockingPop\<close>).  The locale \<open>offer_store\<close> is the contract the scheduler relies on.
\<close>

section \<open>The contract of an offer store\<close>

datatype store_op = OpPush Offer | OpRescind string | OpPop

text \<open>The identifiers taken out of the store by a sequence of operations, in order.\<close>

fun run_store ::
    "(Offer \<Rightarrow> 'c \<Rightarrow> bool \<times> 'c) \<Rightarrow> (string \<Rightarrow> 'c \<Rightarrow> bool \<times> 'c) \<Rightarrow> ('c \<Rightarrow> Offer option \<times> 'c) \<Rightarrow>
     store_op list \<Rightarrow> 'c \<Rightarrow> string list \<times> 'c" where
  "run_store push rescind pop [] c = ([], c)"
| "run_store push rescind pop (OpPush off # ops) c =
     (let (b, c1) = push off c in run_store push rescind pop ops c1)"
| "run_store push rescind pop (OpRescind i # ops) c =
     (let (b, c1) = rescind i c; (ts, c2) = run_store push rescind pop ops c1
      in (if b then i # ts else ts, c2))"
| "run_store push rescind pop (OpPop # ops) c =
     (let (r, c1) = pop c; (ts, c2) = run_store push rescind pop ops c1
      in (case r of None \<Rightarrow> ts | Some off \<Rightarrow> offer_id off # ts, c2))"

fun pushed_ids :: "store_op list \<Rightarrow> string list" where
  "pushed_ids [] = []"
| "pushed_ids (OpPush off # ops) = offer_id off # pushed_ids ops"
| "pushed_ids (_ # ops) = pushed_ids ops"

locale offer_store =
  fixes push :: "Offer \<Rightarrow> 'c \<Rightarrow> bool \<times> 'c"
    and rescind :: "string \<Rightarrow> 'c \<Rightarrow> bool \<times> 'c"
    and pop :: "'c \<Rightarrow> Offer option \<times> 'c"
    and cached :: "'c \<Rightarrow> string \<Rightarrow> Offer option"
    and known :: "'c \<Rightarrow> string set"
    and inv :: "'c \<Rightarrow> bool"
  assumes cached_known: "inv c \<Longrightarrow> dom (cached c) \<subseteq> known c"
    and cached_id: "inv c \<Longrightarrow> cached c i = Some off \<Longrightarrow> offer_id off = i"
    and push_inv: "inv c \<Longrightarrow> offer_id off \<notin> known c \<Longrightarrow> push off c = (b, c') \<Longrightarrow> inv c'"
    and push_cached: "inv c \<Longrightarrow> offer_id off \<notin> known c \<Longrightarrow> push off c = (b, c') \<Longrightarrow>
      cached c' = (if b then (cached c)(offer_id off \<mapsto> off) else cached c)"
    and push_known: "push off c = (b, c') \<Longrightarrow> known c' \<subseteq> insert (offer_id off) (known c)"
    and rescind_inv: "inv c \<Longrightarrow> rescind i c = (b, c') \<Longrightarrow> inv c'"
    and rescind_cached: "inv c \<Longrightarrow> rescind i c = (b, c') \<Longrightarrow>
      b = (cached c i \<noteq> None) \<and> cached c' = (cached c)(i := None)"
    and rescind_known: "rescind i c = (b, c') \<Longrightarrow> known c' \<subseteq> known c"
    and pop_inv: "inv c \<Longrightarrow> pop c = (r, c') \<Longrightarrow> inv c'"
    and pop_None: "inv c \<Longrightarrow> pop c = (None, c') \<Longrightarrow> cached c = Map.empty \<and> cached c' = Map.empty"
    and pop_Some: "inv c \<Longrightarrow> pop c = (Some off, c') \<Longrightarrow>
      cached c (offer_id off) = Some off \<and> cached c' = (cached c)(offer_id off := None)"
    and pop_known: "pop c = (r, c') \<Longrightarrow> known c' \<subseteq> known c"
begin

lemma pop_then_rescind:
  "inv c \<Longrightarrow> pop c = (Some off, c') \<Longrightarrow> fst (rescind (offer_id off) c') = False"
  by (metis fun_upd_same pop_Some pop_inv prod.collapse rescind_cached)

lemma rescind_then_pop:
  "inv c \<Longrightarrow> rescind i c = (b, c') \<Longrightarrow> pop c' = (Some off, c'') \<Longrightarrow> offer_id off \<noteq> i"
  by (metis fun_upd_same option.distinct(1) pop_Some rescind_cached rescind_inv)

lemma pop_returns: "inv c \<Longrightarrow> cached c \<noteq> Map.empty \<Longrightarrow> \<exists>off c'. pop c = (Some off, c')"
  by (metis option.exhaust pop_None prod.collapse)

lemma taken_once:
  assumes "inv c" "distinct (pushed_ids ops)" "set (pushed_ids ops) \<inter> known c = {}"
    and "run_store push rescind pop ops c = (ts, c')"
  shows "distinct ts \<and> set ts \<subseteq> dom (cached c) \<union> set (pushed_ids ops) \<and> inv c'"
  using assms
proof (induction ops arbitrary: c ts)
  case Nil
  then show ?case by simp
next
  case (Cons x ops)
  show ?case
  proof (cases x)
    case (OpPush off)
    obtain b c1 where p: "push off c = (b, c1)" by fastforce
    with Cons.prems OpPush have r: "run_store push rescind pop ops c1 = (ts, c')" by simp
    from Cons.prems OpPush have new: "offer_id off \<notin> known c" by simp
    from Cons.prems OpPush push_known [OF p] have "set (pushed_ids ops) \<inter> known c1 = {}" by auto
    with Cons.IH [OF push_inv [OF Cons.prems(1) new p] _ _ r] Cons.prems OpPush
      push_cached [OF Cons.prems(1) new p]
    show ?thesis by (auto split: if_splits)
  next
    case (OpRescind i)
    obtain b c1 where p: "rescind i c = (b, c1)" by fastforce
    obtain ts1 where r: "run_store push rescind pop ops c1 = (ts1, c')"
      and ts: "ts = (if b then i # ts1 else ts1)"
      using Cons.prems(4) OpRescind p by (auto split: prod.splits)
    have f: "set (pushed_ids ops) \<inter> known c1 = {}"
      using Cons.prems OpRescind rescind_known [OF p] by auto
    have h: "distinct ts1 \<and> set ts1 \<subseteq> dom (cached c1) \<union> set (pushed_ids ops) \<and> inv c'"
      using Cons.IH [OF rescind_inv [OF Cons.prems(1) p] _ f r] Cons.prems OpRescind by simp
    have "b \<Longrightarrow> i \<in> known c"
      using rescind_cached [OF Cons.prems(1) p] cached_known [OF Cons.prems(1)] by auto
    then have "b \<Longrightarrow> i \<notin> set ts1"
      using h rescind_cached [OF Cons.prems(1) p] Cons.prems(3) OpRescind by auto
    with h ts rescind_cached [OF Cons.prems(1) p] OpRescind show ?thesis by auto
  next
    case OpPop
    obtain r1 c1 where p: "pop c = (r1, c1)" by fastforce
    obtain ts1 where r: "run_store push rescind pop ops c1 = (ts1, c')"
      and ts: "ts = (case r1 of None \<Rightarrow> ts1 | Some off \<Rightarrow> offer_id off # ts1)"
      using Cons.prems(4) OpPop p by (auto split: prod.splits)
    have f: "set (pushed_ids ops) \<inter> known c1 = {}"
      using Cons.prems OpPop pop_known [OF p] by auto
    have h: "distinct ts1 \<and> set ts1 \<subseteq> dom (cached c1) \<union> set (pushed_ids ops) \<and> inv c'"
      using Cons.IH [OF pop_inv [OF Cons.prems(1) p] _ f r] Cons.prems OpPop by simp
    show ?thesis
    proof (cases r1)
      case None
      with h ts p pop_None [OF Cons.prems(1)] OpPop show ?thesis by auto
    next
      case (Some off)
      with p pop_Some [OF Cons.prems(1)] have c: "cached c (offer_id off) = Some off"
        "cached c1 = (cached c)(offer_id off := None)" by auto
      with cached_known [OF Cons.prems(1)] Cons.prems(3) OpPop
      have "offer_id off \<notin> set (pushed_ids ops)" by auto
      with c h ts Some OpPop show ?thesis by auto
    qed
  qed
qed

end

section \<open>The cache\<close>

record OfferCache =
  offerSet :: "(string, Offer) gomap"
  offerQueue :: "Offer list"
  maxOffers :: nat
  oc_singleInstancePerSlave :: bool

text \<open>\<open>New\<close> panics (\<open>None\<close>) on a negative channel capacity.\<close>

definition New :: "int \<Rightarrow> bool \<Rightarrow> OfferCache option" where
  "New n single =
     (if n < 0 then None
      else Some \<lparr>offerSet = [], offerQueue = [], maxOffers = nat n, oc_singleInstancePerSlave = single\<rparr>)"

abbreviation valid_in :: "OfferCache \<Rightarrow> Offer \<Rightarrow> bool" where
  "valid_in oc off \<equiv> gm_has (offerSet oc) (offer_id off)"

text \<open>The loop of \<open>gc\<close>: receive an offer, send it back if it is still in the set.\<close>

fun gc_loop :: "nat \<Rightarrow> OfferCache \<Rightarrow> OfferCache" where
  "gc_loop 0 oc = oc"
| "gc_loop (Suc i) oc =
     (case offerQueue oc of
        [] \<Rightarrow> oc
      | off # q \<Rightarrow>
          if valid_in oc off then gc_loop i (oc\<lparr>offerQueue := q @ [off]\<rparr>)
          else gc_loop i (oc\<lparr>offerQueue := q\<rparr>))"

definition gc :: "OfferCache \<Rightarrow> OfferCache" where
  "gc oc = gc_loop (length (offerSet oc) + 1) oc"

text \<open>The loop of \<open>Push\<close>: a non-blocking send, and a collection when the channel is full.\<close>

fun push_loop :: "nat \<Rightarrow> Offer \<Rightarrow> OfferCache \<Rightarrow> bool \<times> OfferCache" where
  "push_loop 0 off oc = (False, oc)"
| "push_loop (Suc i) off oc =
     (if length (offerQueue oc) < maxOffers oc
      then (True, oc\<lparr>offerQueue := offerQueue oc @ [off]\<rparr>)
      else push_loop i off (gc oc))"

definition Push :: "Offer \<Rightarrow> OfferCache \<Rightarrow> bool \<times> OfferCache" where
  "Push newOffer oc =
     (if length (offerSet oc) < maxOffers oc then
        (if list_ex (\<lambda>(_, off). slave_id off = slave_id newOffer \<and> oc_singleInstancePerSlave oc)
              (offerSet oc)
         then (False, oc)
         else push_loop 2 newOffer
                (oc\<lparr>offerSet := gm_put (offer_id newOffer) newOffer (offerSet oc)\<rparr>))
      else (False, oc))"

definition Rescind :: "string \<Rightarrow> OfferCache \<Rightarrow> bool \<times> OfferCache" where
  "Rescind i oc = (gm_has (offerSet oc) i, oc\<lparr>offerSet := gm_del i (offerSet oc)\<rparr>)"

text \<open>
  \<open>BlockingPop\<close> receives from the channel without the mutex and then looks the offer up under it:
  two steps between which other operations may run.  \<open>None\<close> is the blocked state of the loop.
\<close>

definition pop_recv :: "OfferCache \<Rightarrow> (Offer \<times> OfferCache) option" where
  "pop_recv oc =
     (case offerQueue oc of [] \<Rightarrow> None | off # q \<Rightarrow> Some (off, oc\<lparr>offerQueue := q\<rparr>))"

definition pop_check :: "Offer \<Rightarrow> OfferCache \<Rightarrow> bool \<times> OfferCache" where
  "pop_check off oc =
     (if valid_in oc off then (True, oc\<lparr>offerSet := gm_del (offer_id off) (offerSet oc)\<rparr>)
      else (False, oc))"

function BlockingPop :: "OfferCache \<Rightarrow> Offer option \<times> OfferCache" where
  "BlockingPop oc =
     (case pop_recv oc of
        None \<Rightarrow> (None, oc)
      | Some (off, oc1) \<Rightarrow>
          (case pop_check off oc1 of
             (True, oc2) \<Rightarrow> (Some off, oc2)
           | (False, oc2) \<Rightarrow> BlockingPop oc2))"
  by pat_completeness auto
termination
  by (relation "measure (\<lambda>oc. length (offerQueue oc))")
     (auto simp: pop_recv_def pop_check_def split: list.splits if_splits)

declare BlockingPop.simps [simp del]

definition oc_Len :: "OfferCache \<Rightarrow> nat" where
  "oc_Len oc = length (offerSet oc)"

section \<open>Invariant\<close>

text \<open>
  \<open>oc_inv h oc\<close>: the invariant while the offers \<open>h\<close> have been received from the channel but not
  yet looked up.  Every offer on hold is in the channel or in \<open>h\<close>, no identifier is there twice, and
  both the set and the channel stay within the capacity.
\<close>

definition oc_inv :: "Offer list \<Rightarrow> OfferCache \<Rightarrow> bool" where
  "oc_inv h oc \<longleftrightarrow>
     gm_ok (offerSet oc) \<and>
     (\<forall>(i, off) \<in> set (offerSet oc). offer_id off = i \<and> off \<in> set (h @ offerQueue oc)) \<and>
     distinct (map offer_id (h @ offerQueue oc)) \<and>
     length (offerQueue oc) \<le> maxOffers oc \<and> length (offerSet oc) \<le> maxOffers oc"

lemma oc_inv_New: "New n single = Some oc \<Longrightarrow> oc_inv [] oc"
  by (auto simp: New_def oc_inv_def split: if_splits)

lemma oc_inv_get:
  "oc_inv h oc \<Longrightarrow> gm_get (offerSet oc) i = Some off \<Longrightarrow> offer_id off = i \<and> off \<in> set (h @ offerQueue oc)"
  by (auto simp: oc_inv_def dest: gm_get_in_set)

text \<open>Two offers of one channel with the same identifier are the same offer.\<close>

lemma oc_inv_unique:
  "oc_inv h oc \<Longrightarrow> off \<in> set (h @ offerQueue oc) \<Longrightarrow> gm_get (offerSet oc) (offer_id off) = Some off' \<Longrightarrow>
   off' = off"
  using oc_inv_get [of h oc "offer_id off" off'] unfolding oc_inv_def distinct_map
  by (meson inj_onD)

section \<open>Collection\<close>

lemma gc_loop_frame [simp]:
  "offerSet (gc_loop n oc) = offerSet oc" "maxOffers (gc_loop n oc) = maxOffers oc"
  "oc_singleInstancePerSlave (gc_loop n oc) = oc_singleInstancePerSlave oc"
  by (induction n oc rule: gc_loop.induct) (auto split: list.splits)

lemma gc_loop_queue:
  "mset (offerQueue (gc_loop n oc)) \<subseteq># mset (offerQueue oc) \<and>
   filter_mset (valid_in oc) (mset (offerQueue (gc_loop n oc))) = filter_mset (valid_in oc) (mset (offerQueue oc))"
proof (induction n oc rule: gc_loop.induct)
  case (2 i oc)
  show ?case
  proof (cases "offerQueue oc")
    case (Cons off q)
    show ?thesis
    proof (cases "valid_in oc off")
      case True
      with "2.IH"(1) [OF Cons True] Cons show ?thesis by simp
    next
      case False
      from "2.IH"(2) [OF Cons False] have
        "mset (offerQueue (gc_loop i (oc\<lparr>offerQueue := q\<rparr>))) \<subseteq># mset q" by simp
      then have "mset (offerQueue (gc_loop i (oc\<lparr>offerQueue := q\<rparr>))) \<subseteq># add_mset off (mset q)"
        by (rule subset_mset.order_trans) simp
      with "2.IH"(2) [OF Cons False] False Cons show ?thesis by simp
    qed
  qed simp
qed simp

text \<open>A stale offer among the first \<open>n\<close> of the channel makes \<open>n\<close> rounds shrink the channel.\<close>

lemma gc_loop_shrinks:
  "i < n \<Longrightarrow> i < length (offerQueue oc) \<Longrightarrow> \<not> valid_in oc (offerQueue oc ! i) \<Longrightarrow>
   length (offerQueue (gc_loop n oc)) < length (offerQueue oc)"
proof (induction n oc arbitrary: i rule: gc_loop.induct)
  case (2 n oc)
  from "2.prems" obtain off q where q: "offerQueue oc = off # q"
    by (cases "offerQueue oc") auto
  show ?case
  proof (cases "valid_in oc off")
    case True
    with "2.prems" q obtain j where "i = Suc j" by (cases i) auto
    with "2.IH"(1) [OF q True, of j] "2.prems" q True show ?thesis by (simp add: nth_append)
  next
    case False
    have "size (mset (offerQueue (gc_loop n (oc\<lparr>offerQueue := q\<rparr>)))) \<le> size (mset q)"
      using gc_loop_queue [of n "oc\<lparr>offerQueue := q\<rparr>"] by (intro size_mset_mono) simp
    with False q show ?thesis by simp
  qed
qed simp

declare gc_loop.simps [simp del]

lemma gc_frame [simp]:
  "offerSet (gc oc) = offerSet oc" "maxOffers (gc oc) = maxOffers oc"
  "oc_singleInstancePerSlave (gc oc) = oc_singleInstancePerSlave oc"
  by (simp_all add: gc_def)

lemma gc_upd: "gc oc = oc\<lparr>offerQueue := offerQueue (gc oc)\<rparr>"
  by (rule OfferCache.equality) simp_all

lemma gc_queue:
  "mset (offerQueue (gc oc)) \<subseteq># mset (offerQueue oc)"
  "filter_mset (valid_in oc) (mset (offerQueue (gc oc))) = filter_mset (valid_in oc) (mset (offerQueue oc))"
  using gc_loop_queue unfolding gc_def by blast+

lemma oc_inv_gc: "oc_inv h oc \<Longrightarrow> oc_inv h (gc oc)"
proof -
  assume inv: "oc_inv h oc"
  let ?q' = "offerQueue (gc oc)"
  note sub = gc_queue(1) [of oc] and filt = gc_queue(2) [of oc]
  have "mset (map offer_id (h @ ?q')) \<subseteq># mset (map offer_id (h @ offerQueue oc))"
    using image_mset_subseteq_mono [OF sub] by (simp add: subset_mset.add_left_mono)
  then have "distinct (map offer_id (h @ ?q'))"
    using inv unfolding oc_inv_def by (blast intro: distinct_mset_subset)
  moreover have "off \<in> set (h @ ?q')" if "(i, off) \<in> set (offerSet oc)" for i off
  proof -
    from inv that have *: "offer_id off = i" "off \<in> set (h @ offerQueue oc)"
      by (auto simp: oc_inv_def)
    with that have "valid_in oc off" by (auto intro: gm_hasI)
    with * filt have "off \<in> set h \<or> off \<in># filter_mset (valid_in oc) (mset ?q')" by auto
    then show ?thesis by auto
  qed
  moreover have "length ?q' \<le> length (offerQueue oc)"
    using size_mset_mono [OF sub] by simp
  ultimately show ?thesis using inv by (auto simp: oc_inv_def)
qed

text \<open>
  A collection of a full channel frees a place: with distinct identifiers at most
  \<open>length (offerSet oc)\<close> offers of the channel are on hold, and the new offer of a \<open>Push\<close> is not among
  them, so a stale one is met within the rounds of \<open>gc\<close>.
\<close>

lemma gc_frees_place:
  assumes d: "distinct (map offer_id (offerQueue oc))" and ok: "gm_ok (offerSet oc)"
    and new: "gm_has (offerSet oc) i" "i \<notin> offer_id ` set (offerQueue oc)"
    and full: "length (offerSet oc) \<le> length (offerQueue oc)"
  shows "length (offerQueue (gc oc)) < length (offerQueue oc)"
proof -
  let ?q = "offerQueue oc" and ?V = "valid_in oc"
  have "set (map offer_id (filter ?V ?q)) \<subseteq> gm_keys (offerSet oc) - {i}"
    using new by (auto simp: gm_has_iff)
  then have "length (filter ?V ?q) \<le> card (gm_keys (offerSet oc) - {i})"
    using d distinct_card [of "map offer_id (filter ?V ?q)"]
    by (metis card_mono distinct_map_filter finite_Diff finite_imageI finite_set gm_keys_def length_map)
  also have "\<dots> < card (gm_keys (offerSet oc))"
    using new by (intro card_Diff1_less) (auto simp: gm_has_iff gm_keys_def)
  also have "\<dots> = length (offerSet oc)"
    using ok by (simp add: gm_len_card)
  finally have v: "length (filter ?V ?q) < length (offerSet oc)" .
  let ?j = "length (takeWhile ?V ?q)"
  have j: "?j \<le> length (filter ?V ?q)"
    by (metis filter_append length_append le_add1 takeWhile_dropWhile_id filter_True set_takeWhileD)
  with v full have jq: "?j < length ?q" by linarith
  then have "\<not> ?V (?q ! ?j)" by (rule nth_length_takeWhile)
  moreover from j v have "?j < length (offerSet oc) + 1" by linarith
  ultimately show ?thesis using jq unfolding gc_def by (intro gc_loop_shrinks)
qed

section \<open>Correctness of the operations\<close>

definition slave_conflict :: "Offer \<Rightarrow> OfferCache \<Rightarrow> bool" where
  "slave_conflict off oc \<longleftrightarrow>
     oc_singleInstancePerSlave oc \<and> (\<exists>(i, off') \<in> set (offerSet oc). slave_id off' = slave_id off)"

text \<open>With a fresh identifier the second send of \<open>Push\<close> never fails.\<close>

lemma push_loop_new:
  assumes "distinct (map offer_id (offerQueue oc))" "gm_ok (offerSet oc)"
    and new: "valid_in oc off" "offer_id off \<notin> offer_id ` set (offerQueue oc)"
    and len: "length (offerSet oc) \<le> maxOffers oc" "length (offerQueue oc) \<le> maxOffers oc"
  obtains q where "push_loop 2 off oc = (True, oc\<lparr>offerQueue := q @ [off]\<rparr>)"
    "mset q \<subseteq># mset (offerQueue oc)" "length q < maxOffers oc"
    "filter_mset (valid_in oc) (mset q) = filter_mset (valid_in oc) (mset (offerQueue oc))"
proof (cases "length (offerQueue oc) < maxOffers oc")
  case True
  then show thesis by (intro that [of "offerQueue oc"]) (simp_all add: numeral_2_eq_2)
next
  case False
  with len have "length (offerSet oc) \<le> length (offerQueue oc)" by simp
  with assms have "length (offerQueue (gc oc)) < length (offerQueue oc)"
    by (intro gc_frees_place [of oc "offer_id off"])
  with False len have room: "length (offerQueue (gc oc)) < maxOffers oc" by simp
  with False have "push_loop 2 off oc = (True, (gc oc)\<lparr>offerQueue := offerQueue (gc oc) @ [off]\<rparr>)"
    by (simp add: numeral_2_eq_2)
  also have "(gc oc)\<lparr>offerQueue := offerQueue (gc oc) @ [off]\<rparr> = oc\<lparr>offerQueue := offerQueue (gc oc) @ [off]\<rparr>"
    by (subst gc_upd) simp
  finally show thesis
    using room gc_queue [of oc] by (intro that [of "offerQueue (gc oc)"])
qed

lemma Push_cases:
  assumes inv: "oc_inv h oc" and new: "offer_id off \<notin> offer_id ` set (h @ offerQueue oc)"
  obtains (refused) "Push off oc = (False, oc)"
      "length (offerSet oc) \<ge> maxOffers oc \<or> slave_conflict off oc"
  | (cached) q where "Push off oc =
        (True, oc\<lparr>offerSet := gm_put (offer_id off) off (offerSet oc), offerQueue := q @ [off]\<rparr>)"
      "length (offerSet oc) < maxOffers oc" "\<not> slave_conflict off oc"
      "oc_inv h (snd (Push off oc))" "mset q \<subseteq># mset (offerQueue oc)"
proof -
  have conflict: "list_ex (\<lambda>(_, off'). slave_id off' = slave_id off \<and> oc_singleInstancePerSlave oc) (offerSet oc)
      = slave_conflict off oc"
    by (auto simp: slave_conflict_def list_ex_iff)
  let ?oc1 = "oc\<lparr>offerSet := gm_put (offer_id off) off (offerSet oc)\<rparr>"
  show thesis
  proof (cases "length (offerSet oc) < maxOffers oc \<and> \<not> slave_conflict off oc")
    case False
    then show thesis by (intro refused) (auto simp: Push_def conflict)
  next
    case True
    have fresh: "\<not> gm_has (offerSet oc) (offer_id off)"
      using inv new unfolding gm_has_def by (metis imageI oc_inv_get option.exhaust)
    have vin: "valid_in ?oc1 off" by (simp add: go_map)
    obtain q where q: "push_loop 2 off ?oc1 = (True, ?oc1\<lparr>offerQueue := q @ [off]\<rparr>)"
      "mset q \<subseteq># mset (offerQueue oc)" "length q < maxOffers oc"
      "filter_mset (valid_in ?oc1) (mset q) = filter_mset (valid_in ?oc1) (mset (offerQueue oc))"
      using push_loop_new [of ?oc1 off] inv new True fresh vin
      by (auto simp: oc_inv_def go_map gm_len_put)
    then have p: "Push off oc = (True, ?oc1\<lparr>offerQueue := q @ [off]\<rparr>)"
      using True by (simp add: Push_def conflict)
    have "mset (map offer_id (h @ q @ [off])) \<subseteq># mset (map offer_id (off # h @ offerQueue oc))"
      using image_mset_subseteq_mono [OF q(2)] by simp
    then have d: "distinct (map offer_id (h @ q @ [off]))"
      by (rule distinct_mset_subset) (use inv new in \<open>auto simp: oc_inv_def\<close>)
    have mem: "off' \<in> set (h @ q)" if "(i, off') \<in> set (offerSet oc)" for i off'
    proof -
      from inv that have *: "offer_id off' = i" "off' \<in> set (h @ offerQueue oc)"
        by (auto simp: oc_inv_def)
      with that have "valid_in ?oc1 off'"
        by (auto simp: gm_has_put intro: gm_hasI)
      with * q(4) have "off' \<in> set h \<or> off' \<in># filter_mset (valid_in ?oc1) (mset q)" by auto
      then show ?thesis by auto
    qed
    have "oc_inv h (?oc1\<lparr>offerQueue := q @ [off]\<rparr>)"
      using inv d q(3) True fresh mem
      by (auto simp: oc_inv_def gm_put_set_new gm_ok_put gm_len_put)
         (auto simp: gm_ok_def gm_has_iff gm_keys_def)
    with p q True show thesis by (intro cached [of q]) auto
  qed
qed

lemma oc_inv_Push:
  assumes "oc_inv h oc" "offer_id off \<notin> offer_id ` set (h @ offerQueue oc)"
  shows "oc_inv h (snd (Push off oc))"
  by (rule Push_cases [OF assms]) (use assms in auto)

lemma Push_set:
  assumes "oc_inv h oc" "offer_id off \<notin> offer_id ` set (h @ offerQueue oc)" "Push off oc = (b, oc')"
  shows "gm_get (offerSet oc') = (if b then (gm_get (offerSet oc))(offer_id off \<mapsto> off) else gm_get (offerSet oc))"
  by (rule Push_cases [OF assms(1,2)]) (use assms in \<open>auto simp: fun_eq_iff go_map\<close>)

lemma oc_inv_Rescind: "oc_inv h oc \<Longrightarrow> oc_inv h (snd (Rescind i oc))"
  using gm_len_del_le [of i "offerSet oc"]
  by (auto simp: Rescind_def oc_inv_def gm_ok_del gm_del_set)

lemma oc_inv_pop_recv: "oc_inv h oc \<Longrightarrow> pop_recv oc = Some (off, oc') \<Longrightarrow> oc_inv (off # h) oc'"
  by (auto simp: pop_recv_def oc_inv_def split: list.splits)

lemma oc_inv_pop_check: "oc_inv (off # h) oc \<Longrightarrow> pop_check off oc = (b, oc') \<Longrightarrow> oc_inv h oc'"
proof -
  assume inv: "oc_inv (off # h) oc" and c: "pop_check off oc = (b, oc')"
  from c have oc': "oc' = oc\<lparr>offerSet := gm_del (offer_id off) (offerSet oc)\<rparr>"
    by (auto simp: pop_check_def gm_has_iff gm_del_def gm_keys_def split: if_splits)
  show ?thesis
    using inv gm_len_del_le [of "offer_id off" "offerSet oc"] unfolding oc'
    by (auto simp: oc_inv_def gm_ok_del gm_del_set)
qed

lemma pop_check_Some:
  assumes "oc_inv (off # h) oc" "pop_check off oc = (True, oc')"
  shows "gm_get (offerSet oc) (offer_id off) = Some off"
proof -
  from assms(2) obtain off' where g: "gm_get (offerSet oc) (offer_id off) = Some off'"
    by (auto simp: pop_check_def gm_has_def split: if_splits)
  with oc_inv_unique [OF assms(1) _ g] show ?thesis by simp
qed

lemma pop_check_set:
  "pop_check off oc = (b, oc') \<Longrightarrow> gm_get (offerSet oc') i = (if i = offer_id off then None else gm_get (offerSet oc) i)"
  by (auto simp: pop_check_def go_map gm_has_def split: if_splits)

lemma pop_recv_frame: "pop_recv oc = Some (off, oc') \<Longrightarrow> offerSet oc' = offerSet oc"
  by (auto simp: pop_recv_def split: list.splits)

lemma pop_queue:
  "pop_recv oc = Some (off, oc1) \<Longrightarrow> pop_check off oc1 = (b, oc2) \<Longrightarrow>
   offerQueue oc = off # offerQueue oc2"
  by (auto simp: pop_recv_def pop_check_def split: list.splits if_splits)

lemma BlockingPop_eqs:
  "pop_recv oc = None \<Longrightarrow> BlockingPop oc = (None, oc)"
  "pop_recv oc = Some (off, oc1) \<Longrightarrow> pop_check off oc1 = (True, oc2) \<Longrightarrow> BlockingPop oc = (Some off, oc2)"
  "pop_recv oc = Some (off, oc1) \<Longrightarrow> pop_check off oc1 = (False, oc2) \<Longrightarrow> BlockingPop oc = BlockingPop oc2"
  by (simp_all add: BlockingPop.simps [of oc])

lemma BlockingPop_induct [case_names blocked found stale]:
  assumes "\<And>oc. pop_recv oc = None \<Longrightarrow> P oc"
    and "\<And>oc off oc1 oc2. pop_recv oc = Some (off, oc1) \<Longrightarrow> pop_check off oc1 = (True, oc2) \<Longrightarrow> P oc"
    and "\<And>oc off oc1 oc2. pop_recv oc = Some (off, oc1) \<Longrightarrow> pop_check off oc1 = (False, oc2) \<Longrightarrow>
      P oc2 \<Longrightarrow> P oc"
  shows "P oc"
proof (induction "length (offerQueue oc)" arbitrary: oc rule: less_induct)
  case less
  show ?case
  proof (cases "pop_recv oc")
    case None
    then show ?thesis by (rule assms(1))
  next
    case (Some p)
    obtain off oc1 b oc2 where p: "p = (off, oc1)" and c: "pop_check off oc1 = (b, oc2)"
      by fastforce
    from Some p c have "length (offerQueue oc2) < length (offerQueue oc)"
      by (auto dest: pop_queue)
    then have "P oc2" by (rule less)
    with Some p c assms(2,3) show ?thesis by (cases b) auto
  qed
qed

lemma BlockingPop_inv: "oc_inv [] oc \<Longrightarrow> oc_inv [] (snd (BlockingPop oc))"
  by (induction oc rule: BlockingPop_induct)
     (auto simp: BlockingPop_eqs dest: oc_inv_pop_recv oc_inv_pop_check)

lemma BlockingPop_known: "set (offerQueue (snd (BlockingPop oc))) \<subseteq> set (offerQueue oc)"
proof (induction oc rule: BlockingPop_induct)
  case (found oc off oc1 oc2)
  with pop_queue [OF found] show ?case by (auto simp: BlockingPop_eqs)
next
  case (stale oc off oc1 oc2)
  with pop_queue [OF stale(1,2)] show ?case by (auto simp: BlockingPop_eqs)
qed (simp add: BlockingPop_eqs)

lemma BlockingPop_shorter:
  "BlockingPop oc = (Some off, oc') \<Longrightarrow> length (offerQueue oc') < length (offerQueue oc)"
proof (induction oc rule: BlockingPop_induct)
  case (found oc off' oc1 oc2)
  then show ?case by (auto simp: BlockingPop_eqs pop_recv_def pop_check_def split: list.splits if_splits)
next
  case (stale oc off' oc1 oc2)
  then have "length (offerQueue oc2) < length (offerQueue oc)"
    by (auto simp: pop_recv_def pop_check_def split: list.splits if_splits)
  with stale show ?case by (simp add: BlockingPop_eqs)
qed (simp add: BlockingPop_eqs)

lemma stale_step:
  assumes "oc_inv [] oc" "pop_recv oc = Some (off, oc1)" "pop_check off oc1 = (False, oc2)"
  shows "oc_inv [] oc2 \<and> offerSet oc2 = offerSet oc"
proof
  show "oc_inv [] oc2" using assms by (blast dest: oc_inv_pop_recv oc_inv_pop_check)
  show "offerSet oc2 = offerSet oc"
    using assms by (auto simp: pop_check_def dest: pop_recv_frame split: if_splits)
qed

lemma BlockingPop_None:
  "oc_inv [] oc \<Longrightarrow> BlockingPop oc = (None, oc') \<Longrightarrow>
   gm_get (offerSet oc) i = None \<and> gm_get (offerSet oc') i = None"
proof (induction oc rule: BlockingPop_induct)
  case (blocked oc)
  then show ?case
    using oc_inv_get [of "[]" oc i]
    by (cases "gm_get (offerSet oc) i") (auto simp: BlockingPop_eqs pop_recv_def split: list.splits)
next
  case (stale oc off oc1 oc2)
  with stale_step [OF stale.prems(1) stale.hyps] show ?case by (auto simp: BlockingPop_eqs)
qed (simp add: BlockingPop_eqs)

lemma BlockingPop_Some:
  "oc_inv [] oc \<Longrightarrow> BlockingPop oc = (Some off, oc') \<Longrightarrow>
   gm_get (offerSet oc) (offer_id off) = Some off \<and>
   gm_get (offerSet oc') = (gm_get (offerSet oc))(offer_id off := None)"
proof (induction oc rule: BlockingPop_induct)
  case (found oc off1 oc1 oc2)
  then have "oc_inv [off1] oc1" "offerSet oc1 = offerSet oc"
    by (auto dest: oc_inv_pop_recv pop_recv_frame)
  with found pop_check_Some [of off1 "[]" oc1 oc2] pop_check_set [of off1 oc1 True oc2] show ?case
    by (auto simp: BlockingPop_eqs)
next
  case (stale oc off1 oc1 oc2)
  with stale_step [OF stale.prems(1) stale.hyps] show ?case by (auto simp: BlockingPop_eqs)
qed (simp add: BlockingPop_eqs)

abbreviation oc_known :: "OfferCache \<Rightarrow> string set" where
  "oc_known oc \<equiv> offer_id ` set (offerQueue oc)"

lemma push_loop_known: "push_loop n off oc = (b, oc') \<Longrightarrow> oc_known oc' \<subseteq> insert (offer_id off) (oc_known oc)"
proof (induction n off oc rule: push_loop.induct)
  case (2 i off oc)
  have "set (offerQueue (gc oc)) \<subseteq> set (offerQueue oc)"
    using set_mset_mono [OF gc_queue(1) [of oc]] by simp
  with 2 show ?case by (auto split: if_splits)
qed auto

lemma Push_known: "Push off oc = (b, oc') \<Longrightarrow> oc_known oc' \<subseteq> insert (offer_id off) (oc_known oc)"
  using push_loop_known [of 2 off "oc\<lparr>offerSet := gm_put (offer_id off) off (offerSet oc)\<rparr>" b oc']
  by (auto simp: Push_def split: if_splits)

text \<open>What a push leaves in the channel.\<close>

lemma push_loop_queue:
  "push_loop n off oc = (b, oc') \<Longrightarrow> set (offerQueue oc') \<subseteq> (if b then insert off (set (offerQueue oc)) else set (offerQueue oc))"
proof (induction n off oc rule: push_loop.induct)
  case (2 i off oc)
  have "set (offerQueue (gc oc)) \<subseteq> set (offerQueue oc)"
    using set_mset_mono [OF gc_queue(1) [of oc]] by simp
  with 2 show ?case by (auto split: if_splits)
qed auto

lemma Push_queue:
  "Push off oc = (b, oc') \<Longrightarrow> set (offerQueue oc') \<subseteq> (if b then insert off (set (offerQueue oc)) else set (offerQueue oc))"
  using push_loop_queue [of 2 off "oc\<lparr>offerSet := gm_put (offer_id off) off (offerSet oc)\<rparr>" b oc']
  by (auto simp: Push_def split: if_splits)

interpretation oc_store: offer_store Push Rescind BlockingPop "\<lambda>oc. gm_get (offerSet oc)" oc_known "oc_inv []"
proof (unfold_locales, goal_cases)
  case (1 c)
  then show ?case by (auto dest!: oc_inv_get)
next
  case (2 c i off)
  then show ?case by (auto dest: oc_inv_get)
next
  case (3 c off b c')
  then show ?case using oc_inv_Push [of "[]" c off] by simp
next
  case (4 c off b c')
  then show ?case using Push_set [of "[]" c off b c'] by simp
next
  case (5 off c b c')
  then show ?case by (rule Push_known)
next
  case (6 c i b c')
  then show ?case using oc_inv_Rescind [of "[]" c i] by simp
next
  case (7 c i b c')
  then show ?case by (auto simp: Rescind_def gm_has_def fun_eq_iff go_map)
next
  case (8 i c b c')
  then show ?case by (auto simp: Rescind_def)
next
  case (9 c r c')
  then show ?case using BlockingPop_inv [of c] by simp
next
  case (10 c c')
  then show ?case using BlockingPop_None by (auto simp: fun_eq_iff)
next
  case (11 c off c')
  then show ?case by (rule BlockingPop_Some)
next
  case (12 c r c')
  then show ?case using BlockingPop_known [of c] by auto
qed

section \<open>Properties\<close>

text \<open>
  An offer with a new identifier is cached exactly when there is room and, with one
  instance per slave, no offer of the same slave is cached; a cached offer can be looked up and the
  others stay, a refused one changes nothing.
\<close>

lemma Push_exact:
  assumes "oc_inv h oc" "offer_id off \<notin> offer_id ` set (h @ offerQueue oc)" "Push off oc = (b, oc')"
  shows "oc_inv h oc' \<and> b = (length (offerSet oc) < maxOffers oc \<and> \<not> slave_conflict off oc) \<and>
    gm_get (offerSet oc') = (if b then (gm_get (offerSet oc))(offer_id off \<mapsto> off) else gm_get (offerSet oc)) \<and>
    (\<not> b \<longrightarrow> oc' = oc)"
  using oc_inv_Push [OF assms(1,2)] Push_set [OF assms]
  by (cases rule: Push_cases [OF assms(1,2)]) (use assms(3) in auto)

text \<open>
  In any sequence of pushes, rescissions and pops on a new cache, each offer is taken out at
  most once, by a pop or by a rescission, and only offers that were pushed are taken.
\<close>

lemma cache_offers_taken_once:
  assumes "New n single = Some oc" "distinct (pushed_ids ops)" "run_store Push Rescind BlockingPop ops oc = (ts, oc')"
  shows "distinct ts \<and> set ts \<subseteq> set (pushed_ids ops)"
proof -
  have "offerSet oc = []" "offerQueue oc = []" using assms(1) by (auto simp: New_def split: if_splits)
  with oc_store.taken_once [OF oc_inv_New [OF assms(1)] assms(2) _ assms(3)] show ?thesis by auto
qed

text \<open>
  A pop does not block while the cache holds an offer, and what it returns was cached.
\<close>

lemma BlockingPop_returns:
  assumes "oc_inv [] oc" "gm_get (offerSet oc) i = Some off"
  shows "\<exists>off' oc'. BlockingPop oc = (Some off', oc') \<and> gm_get (offerSet oc) (offer_id off') = Some off' \<and>
    gm_get (offerSet oc') = (gm_get (offerSet oc))(offer_id off' := None)"
proof -
  have "gm_get (offerSet oc) \<noteq> Map.empty" using assms(2) by auto
  with oc_store.pop_returns [OF assms(1)] obtain off' oc' where "BlockingPop oc = (Some off', oc')" by blast
  with oc_store.pop_Some [OF assms(1)] show ?thesis by blast
qed

section \<open>Witnesses\<close>

definition demo_o :: "string \<Rightarrow> Offer" where
  "demo_o i = \<lparr>offer_id = i, slave_id = i, hostname = ''h'', resources = []\<rparr>"

definition demo_oc :: OfferCache where
  "demo_oc = \<lparr>offerSet = [(''a'', demo_o ''a'')], offerQueue = [demo_o ''a''], maxOffers = 3, oc_singleInstancePerSlave = True\<rparr>"

lemma demo_oc_inv: "oc_inv [] demo_oc"
  by (simp add: oc_inv_def demo_oc_def demo_o_def gm_ok_def)

end
