(* ===== verification/Scheduler.thy ===== *)
theory Scheduler
  imports Rpc_Zk Node_Json Offer_Cache
begin

text \<open>
  \<open>scheduler/scheduler.go\<close>: the state of the scheduler and its operations.  An operation takes the
  scheduler and, when it talks to the outside, the world, and returns both; calls of the Mesos
  driver whose result is ignored, the start of goroutines and the end of the process are the
  effects it lists, in order.  The fields \<open>healthCheck\<close>, \<open>reconciliationInfoFunc\<close>,
  \<open>updateReconciliationInfoFunc\<close> and \<open>shutdown\<close> are the functions the constructor sets.  A channel of
  empty structs is the number of its elements.
\<close>

section \<open>State\<close>

datatype SchedState = Mutable | Immutable

record Stats =
  RunningServers :: "32 word"
  LaunchedServers :: "32 word"
  FailedServers :: "32 word"
  ClusterLivelocks :: "32 word"
  ClusterReseeds :: "32 word"
  IsHealthy :: "32 word"

record EtcdScheduler =
  stats :: Stats
  Master :: string
  ExecutorPath :: string
  FrameworkName :: string
  ZkConnect :: string
  ZkChroot :: string
  ZkServers :: "string list"
  singleInstancePerSlave :: bool
  desiredInstanceCount :: int
  state :: SchedState
  frameworkID :: "string option"
  masterInfo :: "MasterInfo option"
  pending :: "(string, unit) gomap"
  running :: "(string, Node) gomap"
  heardFrom :: "(string, unit) gomap"
  tasks :: "(string, string) gomap"
  highestInstanceID :: int
  executorUris :: "string list"
  offerCache :: OfferCache
  launchChan :: nat
  pauseChan :: nat
  diskPerTask :: real
  cpusPerTask :: real
  memPerTask :: real
  offerRefuseSeconds :: real
  chillSeconds :: int
  autoReseedEnabled :: bool
  reseedTimeout :: int
  livelockWindow :: "int option"
  reseeding :: bool
  reconciliationInfo :: "(string, string) gomap"

datatype effect =
    DeclineOffer string real
  | LaunchTasks "string list" "TaskInfo list" real
  | ReconcileTasks "TaskStatus list"
  | KillTask string
  | Abort
  | GoDeclineLater Offer
  | GoSync
  | GoReseed
  | Exit

record OfferResources =
  cpus :: real
  mems :: real
  disk :: real
  ports :: "Value_Range list"

definition portsPerTask :: "64 word" where "portsPerTask = 3"
definition executorWantsCpus :: real where "executorWantsCpus = 1 / 10"
definition executorWantsMem :: real where "executorWantsMem = 32"
definition executorWantsPorts :: "64 word" where "executorWantsPorts = 1"

definition chan_cap :: nat where "chan_cap = 2048"

text \<open>The constructor; it panics with the offer cache on a negative instance count.\<close>

definition NewEtcdScheduler ::
    "'w World \<Rightarrow> int \<Rightarrow> int \<Rightarrow> int \<Rightarrow> bool \<Rightarrow> string list \<Rightarrow> bool \<Rightarrow> real \<Rightarrow> real \<Rightarrow> real \<Rightarrow> real \<Rightarrow> 'w \<Rightarrow>
     EtcdScheduler option \<times> 'w" where
  "NewEtcdScheduler io desired chill reseedTimeoutSeconds autoReseed uris single diskPer cpusPer memPer refuse w =
     (let (t, w1) = now io w in
      (map_option (\<lambda>oc.
        \<lparr>stats = \<lparr>RunningServers = 0, LaunchedServers = 0, FailedServers = 0, ClusterLivelocks = 0,
           ClusterReseeds = 0, IsHealthy = 1\<rparr>,
         Master = [], ExecutorPath = [], FrameworkName = [], ZkConnect = [], ZkChroot = [], ZkServers = [],
         singleInstancePerSlave = single, desiredInstanceCount = desired, state = Immutable,
         frameworkID = None, masterInfo = None, pending = [], running = [], heardFrom = [], tasks = [],
         highestInstanceID = t div 1000000000, executorUris = uris, offerCache = oc,
         launchChan = 0, pauseChan = 0,
         diskPerTask = diskPer, cpusPerTask = cpusPer, memPerTask = memPer, offerRefuseSeconds = refuse,
         chillSeconds = chill, autoReseedEnabled = autoReseed,
         reseedTimeout = wrap64 (reseedTimeoutSeconds * 1000000000),
         livelockWindow = None, reseeding = False, reconciliationInfo = []\<rparr>) (New desired single), w1))"

section \<open>Helpers\<close>

definition decline :: "EtcdScheduler \<Rightarrow> Offer \<Rightarrow> effect" where
  "decline s offer = DeclineOffer (offer_id offer) (offerRefuseSeconds s)"

text \<open>A copy of the map; its nodes are never written after they were stored.\<close>

definition RunningCopy :: "EtcdScheduler \<Rightarrow> (string, Node) gomap" where
  "RunningCopy s = running s"

definition QueueLaunchAttempt :: "EtcdScheduler \<Rightarrow> EtcdScheduler" where
  "QueueLaunchAttempt s = (if launchChan s < chan_cap then s\<lparr>launchChan := launchChan s + 1\<rparr> else s)"

definition PumpTheBrakes :: "EtcdScheduler \<Rightarrow> EtcdScheduler" where
  "PumpTheBrakes s = (if pauseChan s < chan_cap then s\<lparr>pauseChan := pauseChan s + 1\<rparr> else s)"

definition FilterResources :: "Resource list \<Rightarrow> (Resource \<Rightarrow> bool) \<Rightarrow> Resource list" where
  "FilterResources rs f = filter f rs"

definition parseOffer :: "Offer \<Rightarrow> OfferResources" where
  "parseOffer offer =
     (let getResources = (\<lambda>n. FilterResources (resources offer) (\<lambda>res. res_name res = n));
          total = (\<lambda>n. fold (\<lambda>res acc. acc + res_scalar res) (getResources n) 0)
      in \<lparr>cpus = total ''cpus'', mems = total ''mem'', disk = total ''disk'',
          ports = concat (map res_ranges (getResources ''ports''))\<rparr>)"

definition totalPorts :: "OfferResources \<Rightarrow> 64 word" where
  "totalPorts r = fold (\<lambda>pr acc. acc + ((End pr + 1) - Begin pr)) (ports r) 0"

section \<open>Callbacks\<close>

definition Initialize :: "MasterInfo option \<Rightarrow> EtcdScheduler \<Rightarrow> EtcdScheduler \<times> effect list" where
  "Initialize mi s =
     (s\<lparr>running := [], heardFrom := [], reconciliationInfo := [], masterInfo := mi\<rparr>, [GoSync])"

definition Registered ::
    "'w World \<Rightarrow> string \<Rightarrow> MasterInfo option \<Rightarrow> EtcdScheduler \<Rightarrow> 'w \<Rightarrow> (EtcdScheduler \<times> effect list) \<times> 'w" where
  "Registered io fwid mi s w =
     (let s1 = s\<lparr>frameworkID := Some fwid\<rparr> in
      if ZkConnect s1 \<noteq> [] then
        (let (err, w1) = PersistFrameworkID io fwid (ZkServers s1) (ZkChroot s1) (FrameworkName s1) w in
         if err \<noteq> None \<and> err \<noteq> Some ZkNodeExists then ((s1, [Exit]), w1)
         else (Initialize mi s1, w1))
      else (Initialize mi s1, w))"

definition Reregistered :: "MasterInfo option \<Rightarrow> EtcdScheduler \<Rightarrow> EtcdScheduler \<times> effect list" where
  "Reregistered mi s = Initialize mi s"

definition Disconnected :: "EtcdScheduler \<Rightarrow> EtcdScheduler" where
  "Disconnected s = s\<lparr>state := Immutable\<rparr>"

text \<open>
  One turn of the loop of \<open>ResourceOffers\<close>: first the checks against the state, which may decline
  the offer, then the check of its resources and the insertion into the cache.
\<close>

definition offer_unwanted :: "EtcdScheduler \<Rightarrow> Offer \<Rightarrow> bool" where
  "offer_unwanted s offer \<longleftrightarrow>
     state s = Immutable \<or>
     (list_ex (\<lambda>(_, config). SlaveID config = slave_id offer) (RunningCopy s) \<and> singleInstancePerSlave s)"

definition offer_sufficient :: "EtcdScheduler \<Rightarrow> Offer \<Rightarrow> bool" where
  "offer_sufficient s offer \<longleftrightarrow>
     (let r = parseOffer offer in
      cpus r \<ge> cpusPerTask s + executorWantsCpus \<and>
      mems r \<ge> memPerTask s + executorWantsMem \<and>
      totalPorts r \<ge> portsPerTask + executorWantsPorts \<and>
      disk r \<ge> diskPerTask s)"

definition offer_insert :: "EtcdScheduler \<Rightarrow> Offer \<Rightarrow> EtcdScheduler \<times> effect list" where
  "offer_insert s offer =
     (if offer_sufficient s offer then
        (case Push offer (offerCache s) of
           (True, oc) \<Rightarrow> (QueueLaunchAttempt (s\<lparr>offerCache := oc\<rparr>), [GoDeclineLater offer])
         | (False, oc) \<Rightarrow> (s\<lparr>offerCache := oc\<rparr>, [decline s offer]))
      else (s, [decline s offer]))"

definition resource_offer :: "EtcdScheduler \<Rightarrow> Offer \<Rightarrow> EtcdScheduler \<times> effect list" where
  "resource_offer s offer = (if offer_unwanted s offer then (s, [decline s offer]) else offer_insert s offer)"

fun ResourceOffers :: "Offer list \<Rightarrow> EtcdScheduler \<Rightarrow> EtcdScheduler \<times> effect list" where
  "ResourceOffers [] s = (s, [])"
| "ResourceOffers (offer # offers) s =
     (let (s1, es1) = resource_offer s offer; (s2, es2) = ResourceOffers offers s1 in (s2, es1 @ es2))"

text \<open>The goroutine that declines an offer nobody took in time.\<close>

definition decline_later :: "Offer \<Rightarrow> EtcdScheduler \<Rightarrow> EtcdScheduler \<times> effect list" where
  "decline_later offer s =
     (let (was, oc) = Rescind (offer_id offer) (offerCache s) in
      (s\<lparr>offerCache := oc\<rparr>, if was then [decline s offer] else []))"

definition OfferRescinded :: "string \<Rightarrow> EtcdScheduler \<Rightarrow> EtcdScheduler" where
  "OfferRescinded i s = s\<lparr>offerCache := snd (Rescind i (offerCache s))\<rparr>"

text \<open>The numeric part of a name \<open>etcd-<index>\<close>.\<close>

definition etcd_index :: "string \<Rightarrow> int option" where
  "etcd_index name =
     (let parts = Split name CHR ''-'' in if length parts \<noteq> 2 then None else ParseInt (parts ! 1))"

definition is_terminal :: "TaskState \<Rightarrow> bool" where
  "is_terminal st \<longleftrightarrow> st \<in> {TASK_LOST, TASK_FINISHED, TASK_KILLED, TASK_ERROR, TASK_FAILED}"

definition add_stat :: "(Stats \<Rightarrow> Stats) \<Rightarrow> EtcdScheduler \<Rightarrow> EtcdScheduler" where
  "add_stat f s = s\<lparr>stats := f (stats s)\<rparr>"

definition task_lost :: "string \<Rightarrow> string \<Rightarrow> EtcdScheduler \<Rightarrow> EtcdScheduler" where
  "task_lost tid name s =
     (let s1 = PumpTheBrakes (add_stat (\<lambda>st. st\<lparr>FailedServers := FailedServers st + 1\<rparr>) s);
          s2 = QueueLaunchAttempt (s1\<lparr>pending := gm_del name (pending s1), running := gm_del name (running s1),
                 tasks := gm_del name (tasks s1), reconciliationInfo := gm_del tid (reconciliationInfo s1)\<rparr>)
      in if running s2 = [] \<and> state s2 = Mutable then s2\<lparr>state := Immutable\<rparr> else s2)"

definition task_running ::
    "'w World \<Rightarrow> string \<Rightarrow> string \<Rightarrow> Node \<Rightarrow> EtcdScheduler \<Rightarrow> 'w \<Rightarrow> EtcdScheduler \<times> 'w" where
  "task_running io tid slave node s w =
     (let s1 = s\<lparr>reconciliationInfo := gm_put tid slave (reconciliationInfo s)\<rparr>;
          (_, w1) = UpdateReconciliationInfo io (reconciliationInfo s1) (ZkServers s1) (ZkChroot s1) (FrameworkName s1) w;
          s2 = s1\<lparr>pending := gm_del (Name node) (pending s1)\<rparr>;
          s3 = (if gm_has (running s2) (Name node) then s2
                else s2\<lparr>running := gm_put (Name node) node (running s2), tasks := gm_put (Name node) tid (tasks s2)\<rparr>);
          s4 = (case etcd_index (Name node) of
                  None \<Rightarrow> s3
                | Some i \<Rightarrow> if i > highestInstanceID s3 then s3\<lparr>highestInstanceID := wrap64 (i + 1)\<rparr> else s3)
      in (s4, w1))"

definition StatusUpdate :: "'w World \<Rightarrow> TaskStatus \<Rightarrow> EtcdScheduler \<Rightarrow> 'w \<Rightarrow> EtcdScheduler \<times> 'w" where
  "StatusUpdate io status s w =
     (case Parse (task_id status) of
        Inl _ \<Rightarrow> (s, w)
      | Inr n \<Rightarrow>
          (let node = n\<lparr>SlaveID := status_slave status\<rparr>;
               s1 = s\<lparr>heardFrom := gm_put (task_id status) () (heardFrom s)\<rparr>
           in if is_terminal (task_state status) then (task_lost (task_id status) (Name node) s1, w)
              else if task_state status = TASK_RUNNING then
                task_running io (task_id status) (status_slave status) node s1 w
              else (s1, w)))"

definition sched_Error :: "'w World \<Rightarrow> string \<Rightarrow> EtcdScheduler \<Rightarrow> 'w \<Rightarrow> effect list \<times> 'w" where
  "sched_Error io err s w =
     (if err = ''Completed framework attempted to re-register'' then
        ([Exit], snd (ClearZKState io (ZkServers s) (ZkChroot s) (FrameworkName s) w))
      else ([], w))"

section \<open>Invariant\<close>

text \<open>
  The view of the cluster: every running server is stored under its name and has a task identifier
  that reads back as this server, so that a later kill or contraction meets the right task.
\<close>

definition cluster_inv :: "EtcdScheduler \<Rightarrow> bool" where
  "cluster_inv s \<longleftrightarrow>
     gm_ok (running s) \<and> gm_ok (pending s) \<and> gm_ok (tasks s) \<and>
     (\<forall>k n. gm_get (running s) k = Some n \<longrightarrow>
        Name n = k \<and> (\<exists>t. gm_get (tasks s) k = Some t \<and> Parse t = Inr (text_part n))) \<and>
     (\<forall>k t. gm_get (tasks s) k = Some t \<longrightarrow> (\<exists>n. Parse t = Inr n \<and> Name n = k))"

definition cluster_view :: "EtcdScheduler \<Rightarrow> (string, Node) gomap \<times> (string, unit) gomap \<times> (string, string) gomap" where
  "cluster_view s = (running s, pending s, tasks s)"

lemma cluster_inv_cong: "cluster_view s = cluster_view s' \<Longrightarrow> cluster_inv s = cluster_inv s'"
  by (simp add: cluster_view_def cluster_inv_def)

text \<open>The settings an operation never changes.\<close>

definition settings :: "EtcdScheduler \<Rightarrow> real \<times> real \<times> real \<times> real \<times> int \<times> bool" where
  "settings s = (cpusPerTask s, memPerTask s, diskPerTask s, offerRefuseSeconds s, desiredInstanceCount s, singleInstancePerSlave s)"

lemma offer_sufficient_cong: "settings s = settings s' \<Longrightarrow> offer_sufficient s = offer_sufficient s'"
  by (simp add: settings_def offer_sufficient_def fun_eq_iff)

named_theorems sched_frame \<open>what the operations of the scheduler leave unchanged\<close>

lemma settings_upd [sched_frame]:
  "settings (s\<lparr>stats := x0\<rparr>) = settings s"
  "settings (s\<lparr>state := x1\<rparr>) = settings s"
  "settings (s\<lparr>frameworkID := x2\<rparr>) = settings s"
  "settings (s\<lparr>masterInfo := x3\<rparr>) = settings s"
  "settings (s\<lparr>heardFrom := x4\<rparr>) = settings s"
  "settings (s\<lparr>highestInstanceID := x5\<rparr>) = settings s"
  "settings (s\<lparr>offerCache := x6\<rparr>) = settings s"
  "settings (s\<lparr>launchChan := x7\<rparr>) = settings s"
  "settings (s\<lparr>pauseChan := x8\<rparr>) = settings s"
  "settings (s\<lparr>livelockWindow := x9\<rparr>) = settings s"
  "settings (s\<lparr>reseeding := x10\<rparr>) = settings s"
  "settings (s\<lparr>reconciliationInfo := x11\<rparr>) = settings s"
  "settings (s\<lparr>running := x12\<rparr>) = settings s"
  "settings (s\<lparr>pending := x13\<rparr>) = settings s"
  "settings (s\<lparr>tasks := x14\<rparr>) = settings s"
  by (simp_all add: settings_def)

lemma cluster_view_upd [sched_frame]:
  "cluster_view (s\<lparr>stats := x0\<rparr>) = cluster_view s"
  "cluster_view (s\<lparr>state := x1\<rparr>) = cluster_view s"
  "cluster_view (s\<lparr>frameworkID := x2\<rparr>) = cluster_view s"
  "cluster_view (s\<lparr>masterInfo := x3\<rparr>) = cluster_view s"
  "cluster_view (s\<lparr>heardFrom := x4\<rparr>) = cluster_view s"
  "cluster_view (s\<lparr>highestInstanceID := x5\<rparr>) = cluster_view s"
  "cluster_view (s\<lparr>offerCache := x6\<rparr>) = cluster_view s"
  "cluster_view (s\<lparr>launchChan := x7\<rparr>) = cluster_view s"
  "cluster_view (s\<lparr>pauseChan := x8\<rparr>) = cluster_view s"
  "cluster_view (s\<lparr>livelockWindow := x9\<rparr>) = cluster_view s"
  "cluster_view (s\<lparr>reseeding := x10\<rparr>) = cluster_view s"
  "cluster_view (s\<lparr>reconciliationInfo := x11\<rparr>) = cluster_view s"
  by (simp_all add: cluster_view_def)

lemma Queue_frame [sched_frame]:
  "cluster_view (QueueLaunchAttempt s) = cluster_view s" "settings (QueueLaunchAttempt s) = settings s"
  "offerCache (QueueLaunchAttempt s) = offerCache s" "state (QueueLaunchAttempt s) = state s"
  "highestInstanceID (QueueLaunchAttempt s) = highestInstanceID s" "running (QueueLaunchAttempt s) = running s"
  "pending (QueueLaunchAttempt s) = pending s" "tasks (QueueLaunchAttempt s) = tasks s"
  "heardFrom (QueueLaunchAttempt s) = heardFrom s" "reconciliationInfo (QueueLaunchAttempt s) = reconciliationInfo s"
  by (simp_all add: QueueLaunchAttempt_def cluster_view_def settings_def)

lemma Pump_frame [sched_frame]:
  "cluster_view (PumpTheBrakes s) = cluster_view s" "settings (PumpTheBrakes s) = settings s"
  "offerCache (PumpTheBrakes s) = offerCache s" "state (PumpTheBrakes s) = state s"
  "highestInstanceID (PumpTheBrakes s) = highestInstanceID s" "running (PumpTheBrakes s) = running s"
  "pending (PumpTheBrakes s) = pending s" "tasks (PumpTheBrakes s) = tasks s"
  "heardFrom (PumpTheBrakes s) = heardFrom s" "reconciliationInfo (PumpTheBrakes s) = reconciliationInfo s"
  by (simp_all add: PumpTheBrakes_def cluster_view_def settings_def)

lemma add_stat_frame [sched_frame]:
  "cluster_view (add_stat f s) = cluster_view s" "settings (add_stat f s) = settings s"
  "offerCache (add_stat f s) = offerCache s" "state (add_stat f s) = state s"
  "highestInstanceID (add_stat f s) = highestInstanceID s" "running (add_stat f s) = running s"
  "pending (add_stat f s) = pending s" "tasks (add_stat f s) = tasks s"
  "heardFrom (add_stat f s) = heardFrom s" "reconciliationInfo (add_stat f s) = reconciliationInfo s"
  by (simp_all add: add_stat_def cluster_view_def settings_def)

section \<open>Status updates\<close>

lemma task_lost_fields:
  "running (task_lost tid name s) = gm_del name (running s)"
  "pending (task_lost tid name s) = gm_del name (pending s)"
  "tasks (task_lost tid name s) = gm_del name (tasks s)"
  "reconciliationInfo (task_lost tid name s) = gm_del tid (reconciliationInfo s)"
  "heardFrom (task_lost tid name s) = heardFrom s"
  "offerCache (task_lost tid name s) = offerCache s"
  "highestInstanceID (task_lost tid name s) = highestInstanceID s"
  "state (task_lost tid name s) = (if gm_del name (running s) = [] then Immutable else state s)"
  "settings (task_lost tid name s) = settings s"
  by (cases "state s"; simp add: task_lost_def Let_def sched_frame)+

lemma task_lost_cluster_inv:
  assumes "cluster_inv s"
  shows "cluster_inv (task_lost tid name s)"
  using assms by (auto simp: cluster_inv_def task_lost_fields go_map)

lemma task_running_fields:
  assumes "task_running io tid slave node s w = (s', w')"
  shows "running s' = (if gm_has (running s) (Name node) then running s else gm_put (Name node) node (running s))"
    "tasks s' = (if gm_has (running s) (Name node) then tasks s else gm_put (Name node) tid (tasks s))"
    "pending s' = gm_del (Name node) (pending s)"
    "reconciliationInfo s' = gm_put tid slave (reconciliationInfo s)"
    "heardFrom s' = heardFrom s" "offerCache s' = offerCache s" "state s' = state s" "settings s' = settings s"
    "highestInstanceID s' =
       (case etcd_index (Name node) of
          None \<Rightarrow> highestInstanceID s
        | Some i \<Rightarrow> if i > highestInstanceID s then wrap64 (i + 1) else highestInstanceID s)"
  using assms by (auto simp: task_running_def Let_def sched_frame split: prod.splits option.splits if_splits)

lemma task_running_cluster_inv:
  assumes "cluster_inv s" "Parse tid = Inr n" "task_running io tid slave (n\<lparr>SlaveID := slave\<rparr>) s w = (s', w')"
  shows "cluster_inv s'"
proof -
  have "text_part (n\<lparr>SlaveID := slave\<rparr>) = n"
    using Parse_text_part [OF assms(2)] by (simp add: text_part_def)
  then show ?thesis
    using assms(1,2) by (auto simp: cluster_inv_def task_running_fields [OF assms(3)] go_map)
qed

lemma StatusUpdate_cases:
  assumes "StatusUpdate io st s w = (s', w')"
  obtains (ignored) e where "Parse (task_id st) = Inl e" "s' = s" "w' = w"
  | (lost) n where "Parse (task_id st) = Inr n" "is_terminal (task_state st)" "w' = w"
      "s' = task_lost (task_id st) (Name n) (s\<lparr>heardFrom := gm_put (task_id st) () (heardFrom s)\<rparr>)"
  | (runs) n where "Parse (task_id st) = Inr n" "task_state st = TASK_RUNNING"
      "task_running io (task_id st) (status_slave st) (n\<lparr>SlaveID := status_slave st\<rparr>)
         (s\<lparr>heardFrom := gm_put (task_id st) () (heardFrom s)\<rparr>) w = (s', w')"
  | (other) n where "Parse (task_id st) = Inr n" "w' = w" "s' = s\<lparr>heardFrom := gm_put (task_id st) () (heardFrom s)\<rparr>"
proof (cases "Parse (task_id st)")
  case (Inl e)
  with assms show thesis by (intro ignored) (simp_all add: StatusUpdate_def)
next
  case (Inr n)
  show thesis
  proof (cases "is_terminal (task_state st)")
    case True
    with assms Inr show thesis by (intro lost) (auto simp: StatusUpdate_def)
  next
    case False
    show thesis
    proof (cases "task_state st = TASK_RUNNING")
      case True
      with assms Inr \<open>\<not> is_terminal (task_state st)\<close> show thesis by (intro runs) (auto simp: StatusUpdate_def)
    next
      case False
      with assms Inr \<open>\<not> is_terminal (task_state st)\<close> show thesis by (intro other) (auto simp: StatusUpdate_def)
    qed
  qed
qed

lemma StatusUpdate_cluster_inv:
  assumes "cluster_inv s" "StatusUpdate io st s w = (s', w')"
  shows "cluster_inv s'"
  using assms(2)
proof (cases rule: StatusUpdate_cases)
  case (lost n)
  with assms(1) show ?thesis by (simp add: task_lost_cluster_inv cluster_inv_cong [OF cluster_view_upd(5)])
next
  case (runs n)
  from task_running_cluster_inv [OF _ runs(1,3)] assms(1) show ?thesis
    by (simp add: cluster_inv_cong [OF cluster_view_upd(5)])
next
  case (other n)
  with assms(1) show ?thesis by (simp add: cluster_inv_cong [OF cluster_view_upd(5)])
qed (use assms in simp)

lemma StatusUpdate_frame:
  assumes "StatusUpdate io st s w = (s', w')"
  shows "offerCache s' = offerCache s" "settings s' = settings s"
  by (rule StatusUpdate_cases [OF assms]; auto simp: task_lost_fields task_running_fields sched_frame)+

text \<open>A status update can shrink the set of pending tasks, never extend it.\<close>

lemma StatusUpdate_pending:
  assumes "StatusUpdate io st s w = (s', w')"
  shows "pending s' = pending s \<or> (\<exists>k. pending s' = gm_del k (pending s))"
  by (rule StatusUpdate_cases [OF assms]) (auto simp: task_lost_fields task_running_fields)

section \<open>Offers\<close>

lemma offer_insert_frame:
  assumes "offer_insert s off = (s', es)"
  shows "cluster_view s' = cluster_view s" "settings s' = settings s"
  using assms by (auto simp: offer_insert_def sched_frame split: prod.splits bool.splits if_splits)

lemma offer_insert_cases:
  assumes "offer_insert s off = (s', es)"
  obtains (cached) oc where "offer_sufficient s off" "Push off (offerCache s) = (True, oc)"
      "offerCache s' = oc" "es = [GoDeclineLater off]"
  | (refused) oc where "Push off (offerCache s) = (False, oc)" "offerCache s' = oc" "es = [decline s off]"
  | (small) "offerCache s' = offerCache s" "es = [decline s off]"
  using assms by (auto simp: offer_insert_def sched_frame split: prod.splits bool.splits if_splits)

lemma decline_later_frame:
  assumes "decline_later off s = (s', es)"
  shows "cluster_view s' = cluster_view s" "settings s' = settings s"
  using assms by (auto simp: decline_later_def sched_frame split: prod.splits)

text \<open>An offer with enough ports has at least one range of ports.\<close>

lemma offer_sufficient_ports: "offer_sufficient s off \<Longrightarrow> ports (parseOffer off) \<noteq> []"
  by (auto simp: offer_sufficient_def totalPorts_def Let_def portsPerTask_def executorWantsPorts_def)

section \<open>Properties\<close>

text \<open>
  A total loss locks the scheduler: a terminal status update for the last running server
  leaves no running server and makes the scheduler immutable, so that nothing is launched any more.
\<close>

lemma total_loss_locks:
  assumes "Parse (task_id u) = Inr n" "is_terminal (task_state u)" "gm_keys (running s) \<subseteq> {Name n}"
    and "StatusUpdate io u s w = (s', w')"
  shows "running s' = [] \<and> state s' = Immutable"
proof -
  have "gm_keys (gm_del (Name n) (running s)) = {}" using assms(3) by (auto simp: go_map)
  then have "gm_del (Name n) (running s) = []" by (simp add: gm_keys_def)
  with assms(1,2,4) show ?thesis by (auto simp: StatusUpdate_def task_lost_fields)
qed

text \<open>
  A running update for a readable task identifier records that the task was heard
  from, that its server runs, that it is not pending any more and where it runs.
\<close>

lemma StatusUpdate_records_running:
  assumes "cluster_inv s" "Parse (task_id u) = Inr n" "task_state u = TASK_RUNNING" "StatusUpdate io u s w = (s', w')"
  shows "gm_has (heardFrom s') (task_id u) \<and> gm_has (running s') (Name n) \<and> gm_has (tasks s') (Name n) \<and>
    \<not> gm_has (pending s') (Name n) \<and> gm_get (reconciliationInfo s') (task_id u) = Some (status_slave u) \<and> cluster_inv s'"
proof -
  have t: "task_running io (task_id u) (status_slave u) (n\<lparr>SlaveID := status_slave u\<rparr>)
      (s\<lparr>heardFrom := gm_put (task_id u) () (heardFrom s)\<rparr>) w = (s', w')"
    using assms(2-4) by (simp add: StatusUpdate_def is_terminal_def)
  have inv: "cluster_inv s'" by (rule StatusUpdate_cluster_inv [OF assms(1,4)])
  moreover have run: "gm_has (running s') (Name n)" using task_running_fields(1) [OF t] by (auto simp: go_map)
  moreover have "gm_has (tasks s') (Name n)" using inv run unfolding cluster_inv_def gm_has_def by blast
  ultimately show ?thesis using task_running_fields(3-5) [OF t] by (auto simp: go_map)
qed

section \<open>Witnesses\<close>

definition demo_one :: EtcdScheduler where
  "demo_one = (the (fst (NewEtcdScheduler demo_world 3 60 240 True [] True 256 1 128 5 0)))\<lparr>state := Mutable,
     running := [(''etcd-1'', demo_node)], tasks := [(''etcd-1'', node_String demo_node)]\<rparr>"

definition demo_status :: "TaskState \<Rightarrow> TaskStatus" where
  "demo_status st = \<lparr>task_id = node_String demo_node, status_slave = ''s1'', task_state = st\<rparr>"

lemma demo_one_simps:
  "running demo_one = [(''etcd-1'', demo_node)]" "tasks demo_one = [(''etcd-1'', node_String demo_node)]"
  "pending demo_one = []"
  by (simp_all add: demo_one_def NewEtcdScheduler_def New_def demo_world_def)

lemma demo_node_Parse: "Parse (node_String demo_node) = Inr (text_part demo_node)"
  by (rule Parse_String) (simp add: node_ok_def demo_node_def is_space_def)

end
