(* ===== verification/Scheduler_Launch.thy ===== *)
theory Scheduler_Launch
  imports Scheduler
begin

text \<open>
  \<open>scheduler/scheduler.go\<close>, continued: synchronisation with the master, the periodic loops, the
  launcher, the reseed of a livelocked cluster and the admin interface.  Loops that run beside each
  other are given as single turns or as steps with a program counter; \<open>Scheduler_System\<close>
  interleaves them.
\<close>

section \<open>Synchronisation with the master\<close>

text \<open>The one driver call whose error is looked at.\<close>

record 'w Driver =
  drv_ReconcileTasks :: "TaskStatus list \<Rightarrow> 'w \<Rightarrow> go_error option \<times> 'w"

definition isInSync :: "EtcdScheduler \<Rightarrow> bool" where
  "isInSync s \<longleftrightarrow> list_all (\<lambda>(taskID, _). gm_has (heardFrom s) taskID) (reconciliationInfo s)"

definition recon_statuses :: "(string \<times> string) list \<Rightarrow> TaskStatus list" where
  "recon_statuses info =
     map (\<lambda>(taskID, slaveID). \<lparr>task_id = taskID, status_slave = slaveID, task_state = TASK_RUNNING\<rparr>) info"

text \<open>
  \<open>attemptMasterSync\<close> with \<open>waitForMasterSync\<close> inlined, cut where the mutex is released: the map is
  read from ZooKeeper, stored, sent to the master, and then the thread polls until every task in it
  was heard from.  The numbers are the turns left and the backoff of the two loops.
\<close>

datatype sync_pc =
    SyncRead nat nat
  | SyncStore nat nat "(string, string) gomap"
  | SyncCall nat nat "(string, string) gomap"
  | SyncWait nat nat nat nat
  | SyncCommit
  | SyncStop

definition sync_start :: sync_pc where
  "sync_start = SyncRead 5 1"

fun sync_step ::
    "'w World \<Rightarrow> 'w Driver \<Rightarrow> sync_pc \<Rightarrow> EtcdScheduler \<Rightarrow> 'w \<Rightarrow> (sync_pc \<times> EtcdScheduler \<times> effect list) \<times> 'w" where
  "sync_step io drv (SyncRead 0 b) s w = ((SyncStop, s, [Exit]), w)"
| "sync_step io drv (SyncRead (Suc r) b) s w =
     (case GetPreviousReconciliationInfo io (ZkServers s) (ZkChroot s) (FrameworkName s) w of
        (Inr info, w1) \<Rightarrow> ((SyncStore r b info, s, []), w1)
      | (Inl _, w1) \<Rightarrow> ((SyncRead r (next_backoff b), s, []), sleep io b w1))"
| "sync_step io drv (SyncStore r b info) s w =
     ((SyncCall r b info, s\<lparr>reconciliationInfo := info\<rparr>, []), w)"
| "sync_step io drv (SyncCall r b info) s w =
     (let (ord, w0) = go_range io info w in
      case drv_ReconcileTasks drv [] w0 of
        (Some _, w1) \<Rightarrow> ((SyncRead r b, s, [ReconcileTasks []]), w1)
      | (None, w1) \<Rightarrow>
          (let es = [ReconcileTasks [], ReconcileTasks (recon_statuses ord)] in
           case drv_ReconcileTasks drv (recon_statuses ord) w1 of
             (Some _, w2) \<Rightarrow> ((SyncRead r (next_backoff b), s, es), sleep io b w2)
           | (None, w2) \<Rightarrow> ((SyncWait r b 5 1, s, es), w2)))"
| "sync_step io drv (SyncWait r b 0 b2) s w = ((SyncRead r (next_backoff b), s, []), sleep io b w)"
| "sync_step io drv (SyncWait r b (Suc k) b2) s w =
     (if masterInfo s = None \<or> mi_Hostname (the (masterInfo s)) = None
      then ((SyncRead r (next_backoff b), s, []), sleep io b w)
      else if isInSync s then ((SyncCommit, s, []), w)
      else ((SyncWait r b k (next_backoff b2), s, []), sleep io b2 w))"
| "sync_step io drv SyncCommit s w = ((SyncStop, s\<lparr>state := Mutable\<rparr>, []), w)"
| "sync_step io drv SyncStop s w = ((SyncStop, s, []), w)"

section \<open>Periodic loops\<close>

text \<open>One turn of each loop, without its pause.\<close>

definition PeriodicReconciler :: "EtcdScheduler \<Rightarrow> effect list" where
  "PeriodicReconciler s = (if state s = Mutable then [ReconcileTasks []] else [])"

definition set_healthy :: "bool \<Rightarrow> EtcdScheduler \<Rightarrow> EtcdScheduler" where
  "set_healthy h = add_stat (\<lambda>st. st\<lparr>IsHealthy := (if h then 1 else 0)\<rparr>)"

definition set_running_servers :: "EtcdScheduler \<Rightarrow> EtcdScheduler" where
  "set_running_servers s = add_stat (\<lambda>st. st\<lparr>RunningServers := of_nat (length (running s))\<rparr>) s"

definition PeriodicHealthChecker :: "'w World \<Rightarrow> EtcdScheduler \<Rightarrow> 'w \<Rightarrow> EtcdScheduler \<times> 'w" where
  "PeriodicHealthChecker io s w =
     (let nodes = RunningCopy s; s1 = set_running_servers s in
      if nodes = [] then (set_healthy False s1, w)
      else (let (err, w1) = HealthCheck io nodes w in (set_healthy (err = None) s1, w1)))"

definition PeriodicLaunchRequestor :: "EtcdScheduler \<Rightarrow> EtcdScheduler" where
  "PeriodicLaunchRequestor s =
     (let s1 = set_running_servers s in
      if int (length (running s1)) < desiredInstanceCount s1 \<and> state s1 = Mutable then QueueLaunchAttempt s1 else s1)"

section \<open>Prune\<close>

text \<open>Unknown members are removed until one removal is reported as done.\<close>

fun prune_loop :: "'w World \<Rightarrow> EtcdScheduler \<Rightarrow> (string \<times> string) list \<Rightarrow> 'w \<Rightarrow> 'w" where
  "prune_loop io s [] w = w"
| "prune_loop io s ((k, _) # ks) w =
     (if \<not> gm_has (running s) k \<and> \<not> gm_has (pending s) k then
        (case RemoveInstance io (running s) k w of
           (Some _, w1) \<Rightarrow> prune_loop io s ks w1
         | (None, w1) \<Rightarrow> w1)
      else prune_loop io s ks w)"

definition Prune :: "'w World \<Rightarrow> EtcdScheduler \<Rightarrow> 'w \<Rightarrow> go_error option \<times> 'w" where
  "Prune io s w =
     (if state s = Mutable then
        (case MemberList io (running s) w of
           (Inl err, w1) \<Rightarrow> (Some err, w1)
         | (Inr configuredMembers, w1) \<Rightarrow>
             (let (ord, w2) = go_range io configuredMembers w1 in (None, prune_loop io s ord w2)))
      else (None, w))"

section \<open>shouldLaunch\<close>

text \<open>What happens when the cluster is unhealthy.\<close>

definition note_livelock :: "'w World \<Rightarrow> EtcdScheduler \<Rightarrow> 'w \<Rightarrow> (EtcdScheduler \<times> effect list) \<times> 'w" where
  "note_livelock io s w =
     (let s1 = add_stat (\<lambda>st. st\<lparr>IsHealthy := 0, ClusterLivelocks := ClusterLivelocks st + 1\<rparr>) s;
          (t, w1) = now io w in
      case livelockWindow s1 of
        Some since \<Rightarrow>
          ((s1, if t - since > reseedTimeout s1 \<and> autoReseedEnabled s1 then [GoReseed] else []), w1)
      | None \<Rightarrow> ((s1\<lparr>livelockWindow := Some t\<rparr>, []), w1))"

definition shouldLaunch ::
    "'w World \<Rightarrow> EtcdScheduler \<Rightarrow> 'w \<Rightarrow> (bool \<times> EtcdScheduler \<times> effect list) \<times> 'w" where
  "shouldLaunch io s w =
     (if state s \<noteq> Mutable then ((False, s, []), w)
      else if reseeding s then ((False, s, []), w)
      else if pending s \<noteq> [] then ((False, s, []), w)
      else if int (length (running s)) \<ge> desiredInstanceCount s then ((False, s, []), w)
      else
        case MemberList io (running s) w of
          (Inl _, w1) \<Rightarrow> ((False, s, []), w1)
        | (Inr members, w1) \<Rightarrow>
            (if int (length members) = desiredInstanceCount s then ((False, s, []), w1)
             else
               case GetPreviousReconciliationInfo io (ZkServers s) (ZkChroot s) (FrameworkName s) w1 of
                 (Inl _, w2) \<Rightarrow> ((False, s, []), w2)
               | (Inr _, w2) \<Rightarrow>
                   (case HealthCheck io (running s) w2 of
                      (Some _, w3) \<Rightarrow> (let ((s1, es), w4) = note_livelock io s w3 in ((False, s1, es), w4))
                    | (None, w3) \<Rightarrow> ((True, set_healthy True s\<lparr>livelockWindow := None\<rparr>, []), w3))))"

section \<open>launchOne\<close>

definition validOffer :: "EtcdScheduler \<Rightarrow> Offer \<Rightarrow> bool" where
  "validOffer s offer \<longleftrightarrow>
     \<not> (list_ex (\<lambda>(_, etcdConfig). SlaveID etcdConfig = slave_id offer) (RunningCopy s) \<and> singleInstancePerSlave s)"

text \<open>The last element of a path.\<close>

definition path_base :: "string \<Rightarrow> string" where
  "path_base path = last (Split path CHR ''/'')"

definition newExecutorInfo :: "EtcdScheduler \<Rightarrow> Node \<Rightarrow> 64 word \<Rightarrow> ExecutorInfo" where
  "newExecutorInfo s node libprocessPort =
     (let execmd = ''./'' @ path_base (ExecutorPath s) in
      \<lparr>executor_id = Name node, exec_source = FrameworkName s,
       exec_command = \<lparr>cmd_value = execmd, cmd_uris = executorUris s,
         cmd_arguments = [execmd, ''-log_dir=./'', ''-driver-port='' @ fmt_int (sint libprocessPort)]\<rparr>,
       exec_resources =
         [NewScalarResource ''cpus'' executorWantsCpus, NewScalarResource ''mem'' executorWantsMem,
          NewRangesResource ''ports'' [NewValueRange libprocessPort (libprocessPort + executorWantsPorts - 1)]]\<rparr>)"

definition new_node :: "EtcdScheduler \<Rightarrow> Offer \<Rightarrow> 64 word \<Rightarrow> Node" where
  "new_node s offer lowest =
     \<lparr>Name = ''etcd-'' @ fmt_int (highestInstanceID s), Host = hostname offer,
      RPCPort = lowest, ClientPort = lowest + 1, ReseedPort = lowest + 2,
      Type = (if running s = [] then ''new'' else ''existing''), SlaveID = slave_id offer\<rparr>"

definition new_task :: "EtcdScheduler \<Rightarrow> Offer \<Rightarrow> Node \<Rightarrow> (string \<times> Node) list \<Rightarrow> 64 word \<Rightarrow> TaskInfo" where
  "new_task s offer node ord libprocessPort =
     \<lparr>task_info_id = node_String node, task_name = ''etcd-server'',
      task_data = marshal_nodes (node # map snd ord), task_slave = slave_id offer,
      task_executor = newExecutorInfo s node libprocessPort,
      task_resources =
        [NewScalarResource ''cpus'' (cpusPerTask s), NewScalarResource ''mem'' (memPerTask s),
         NewScalarResource ''disk'' (diskPerTask s),
         NewRangesResource ''ports'' [NewValueRange (RPCPort node) (RPCPort node + portsPerTask - 1)]],
      task_ports =
        [\<lparr>port_number = ucast (RPCPort node), port_protocol = ''tcp''\<rparr>,
         \<lparr>port_number = ucast (ClientPort node), port_protocol = ''client''\<rparr>]\<rparr>"

text \<open>
  The critical section that registers the new task, with the launch that follows it.  Without ports
  in the offer it panics; \<open>json.Marshal\<close> of nodes does not fail.
\<close>

definition launch_task ::
    "'w World \<Rightarrow> EtcdScheduler \<Rightarrow> Offer \<Rightarrow> 'w \<Rightarrow> (EtcdScheduler \<times> effect list) outcome \<times> 'w" where
  "launch_task io s offer w =
     (case ports (parseOffer offer) of
        [] \<Rightarrow> (Panics, w)
      | r # _ \<Rightarrow>
          (let lowest = Begin r;
               s1 = s\<lparr>highestInstanceID := wrap64 (highestInstanceID s + 1)\<rparr>;
               node = new_node s1 offer lowest;
               (ord, w1) = go_range io (running s1) w;
               task = new_task s1 offer node ord (lowest + 3);
               s2 = s1\<lparr>pending := gm_put (Name node) () (pending s1)\<rparr>
           in (Returns (add_stat (\<lambda>st. st\<lparr>LaunchedServers := LaunchedServers st + 1\<rparr>) s2,
                 [LaunchTasks [offer_id offer] [task] 1]), w1)))"

text \<open>Pop until an offer is valid; the others are declined.  \<open>None\<close>: the cache blocks.\<close>

function pop_valid :: "EtcdScheduler \<Rightarrow> Offer option \<times> EtcdScheduler \<times> effect list" where
  "pop_valid s =
     (case BlockingPop (offerCache s) of
        (None, oc) \<Rightarrow> (None, s\<lparr>offerCache := oc\<rparr>, [])
      | (Some offer, oc) \<Rightarrow>
          (if validOffer (s\<lparr>offerCache := oc\<rparr>) offer then (Some offer, s\<lparr>offerCache := oc\<rparr>, [])
           else (let (r, s1, es) = pop_valid (s\<lparr>offerCache := oc\<rparr>) in (r, s1, decline s offer # es))))"
  by pat_completeness auto
termination
  by (relation "measure (\<lambda>s. length (offerQueue (offerCache s)))") (auto dest: BlockingPop_shorter [OF sym])

declare pop_valid.simps [simp del]

text \<open>
  \<open>launchOne\<close>, when nothing else runs meanwhile.  Outcome \<open>None\<close>: it waits for an offer.
\<close>

definition launchOne ::
    "'w World \<Rightarrow> EtcdScheduler \<Rightarrow> 'w \<Rightarrow> (EtcdScheduler \<times> effect list) outcome option \<times> 'w" where
  "launchOne io s w =
     (case Prune io s w of
        (Some _, w1) \<Rightarrow> (Some (Returns (s, [])), w1)
      | (None, w1) \<Rightarrow>
          (case shouldLaunch io s w1 of
             ((False, s1, es1), w2) \<Rightarrow> (Some (Returns (s1, es1)), w2)
           | ((True, s1, es1), w2) \<Rightarrow>
               (case pop_valid s1 of
                  (None, _, _) \<Rightarrow> (None, w2)
                | (Some offer, s2, es2) \<Rightarrow>
                    (case shouldLaunch io s2 w2 of
                       ((False, s3, es3), w3) \<Rightarrow> (Some (Returns (s3, es1 @ es2 @ es3 @ [decline s3 offer])), w3)
                     | ((True, s3, es3), w3) \<Rightarrow>
                         (case launch_task io s3 offer w3 of
                            (Panics, w4) \<Rightarrow> (Some Panics, w4)
                          | (Returns (s4, es4), w4) \<Rightarrow> (Some (Returns (s4, es1 @ es2 @ es3 @ es4)), w4))))))"

section \<open>Reseeding\<close>

text \<open>
  The loop of \<open>reseedNode\<close> ends when the node is healthy or the clock passes the timeout; \<open>None\<close>: it
  does not end.
\<close>

partial_function (option) reseed_wait ::
    "'w World \<Rightarrow> string \<Rightarrow> Node \<Rightarrow> int \<Rightarrow> int \<Rightarrow> nat \<Rightarrow> 'w \<Rightarrow> (bool \<times> 'w) option" where
  [code]: "reseed_wait io name node timeout before b w =
     (case now io w of
        (t, w1) \<Rightarrow>
          if t - before < timeout then
            (case HealthCheck io [(name, node)] w1 of
               (None, w2) \<Rightarrow> Some (True, w2)
             | (Some _, w2) \<Rightarrow> reseed_wait io name node timeout before (next_backoff b) (sleep io b w2))
          else Some (False, w1))"

text \<open>A candidate is a key of the map; for any other name the code would use a nil pointer.\<close>

definition reseedNode :: "'w World \<Rightarrow> EtcdScheduler \<Rightarrow> string \<Rightarrow> 'w \<Rightarrow> (bool \<times> 'w) option" where
  "reseedNode io s name w =
     (case gm_get (running s) name of
        None \<Rightarrow> None
      | Some node \<Rightarrow>
          (let (_, w1) = TriggerReseed io node w; (before, w2) = now io w1
           in reseed_wait io name node (reseedTimeout s) before 1 w2))"

text \<open>The loop over the candidates: the first that becomes healthy is the new seed.\<close>

fun choose_seed :: "'w World \<Rightarrow> EtcdScheduler \<Rightarrow> nodeIndex list \<Rightarrow> 'w \<Rightarrow> (string option \<times> 'w) option" where
  "choose_seed io s [] w = Some (None, w)"
| "choose_seed io s (c # cs) w =
     (case reseedNode io s (ni_Node c) w of
        None \<Rightarrow> None
      | Some (True, w1) \<Rightarrow> Some (Some (ni_Node c), w1)
      | Some (False, w1) \<Rightarrow> choose_seed io s cs w1)"

text \<open>The compare-and-swap at the start; only the winner goes on.\<close>

definition reseed_begin :: "EtcdScheduler \<Rightarrow> bool \<times> EtcdScheduler" where
  "reseed_begin s =
     (if reseeding s then (False, s)
      else (True, add_stat (\<lambda>st. st\<lparr>ClusterReseeds := ClusterReseeds st + 1\<rparr>) (s\<lparr>reseeding := True\<rparr>)))"

text \<open>The rest runs with the mutex held and ends with the deferred function.\<close>

definition reseed_kills :: "'w World \<Rightarrow> string option \<Rightarrow> (string, string) gomap \<Rightarrow> 'w \<Rightarrow> effect list \<times> 'w" where
  "reseed_kills io newSeed ts w =
     (case newSeed of
        None \<Rightarrow> ([], w)
      | Some seed \<Rightarrow>
          (let (ord, w1) = go_range io ts w in
           (map (\<lambda>(_, taskID). KillTask taskID) (filter (\<lambda>(node, _). node \<noteq> seed) ord), w1)))"

definition reseed_run :: "'w World \<Rightarrow> EtcdScheduler \<Rightarrow> 'w \<Rightarrow> ((EtcdScheduler \<times> effect list) \<times> 'w) option" where
  "reseed_run io s w =
     (let s1 = s\<lparr>state := Immutable\<rparr>;
          (candidates, w1) = RankReseedCandidates io (running s1) w;
          aborts = (if candidates = [] then [Abort] else []) in
      case choose_seed io s1 candidates w1 of
        None \<Rightarrow> None
      | Some (newSeed, w2) \<Rightarrow>
          (let (kills, w3) = reseed_kills io newSeed (tasks s1) w2 in
           Some ((s1\<lparr>state := Mutable, reseeding := False\<rparr>, aborts @ kills), w3)))"

definition reseedCluster :: "'w World \<Rightarrow> EtcdScheduler \<Rightarrow> 'w \<Rightarrow> ((EtcdScheduler \<times> effect list) \<times> 'w) option" where
  "reseedCluster io s w =
     (case reseed_begin s of
        (False, s1) \<Rightarrow> Some ((s1, []), w)
      | (True, s1) \<Rightarrow> reseed_run io s1 w)"

section \<open>Admin interface\<close>

definition stats_json :: "Stats \<Rightarrow> json" where
  "stats_json st =
     JObj (map (\<lambda>(k, v). (k, JNum (fmt_nat (unat v))))
       [(''running_servers'', RunningServers st), (''launched_servers'', LaunchedServers st),
        (''failed_servers'', FailedServers st), (''cluster_livelocks'', ClusterLivelocks st),
        (''cluster_reseeds'', ClusterReseeds st), (''healthy'', IsHealthy st)])"

text \<open>The handlers of \<open>AdminHTTP\<close>; \<open>None\<close>: the static files.\<close>

definition AdminHTTP :: "'w World \<Rightarrow> string \<Rightarrow> EtcdScheduler \<Rightarrow> 'w \<Rightarrow> (nat \<times> string \<times> effect list) option \<times> 'w" where
  "AdminHTTP io path s w =
     (if path = ''/stats'' then (Some (200, print_json (stats_json (stats s)), []), w)
      else if path = ''/reseed'' then (Some (200, ''reseeding'', [GoReseed]), w)
      else if path = ''/members'' then
        (let (ord, w1) = go_range io (RunningCopy s) w in (Some (200, marshal_nodes (map snd ord), []), w1))
      else if path = ''/healthz'' then
        (if IsHealthy (stats s) = 1 then (Some (200, ''cluster is healthy'' @ [CHR 0x0A], []), w)
         else (Some (500, ''500 internal server error: cluster not healthy.'' @ [CHR 0x0A], []), w))
      else (None, w))"

text \<open>
  \<open>exists\<close> is what \<open>os.Stat\<close> finds; \<open>mux\<close> are the files of the default HTTP handler by pattern.
  Registering a pattern twice panics.  \<open>None\<close>: the file is missing.
\<close>

definition ServeExecutorArtifact ::
    "(string \<Rightarrow> bool) \<Rightarrow> (string, string) gomap \<Rightarrow> string \<Rightarrow> string \<Rightarrow> int \<Rightarrow>
     (string \<times> (string, string) gomap) option outcome" where
  "ServeExecutorArtifact exists mux path address artifactPort =
     (if \<not> exists path then Returns None
      else
        let base = path_base path in
        if gm_has mux (''/'' @ base) then Panics
        else Returns (Some (''http://'' @ address @ '':'' @ fmt_int artifactPort @ ''/'' @ base,
               gm_put (''/'' @ base) path mux)))"

section \<open>Lemmas: synchronisation\<close>

text \<open>A bound on the steps a synchronisation thread still takes.\<close>

fun sync_rank :: "sync_pc \<Rightarrow> nat" where
  "sync_rank (SyncRead r b) = 9 * r + 1"
| "sync_rank (SyncStore r b info) = 9 * r + 9"
| "sync_rank (SyncCall r b info) = 9 * r + 8"
| "sync_rank (SyncWait r b k b2) = 9 * r + 2 + k"
| "sync_rank SyncCommit = 1"
| "sync_rank SyncStop = 0"

lemma sync_step_rank:
  "sync_step io drv pc s w = ((pc', s', es), w') \<Longrightarrow> pc \<noteq> SyncStop \<Longrightarrow> sync_rank pc' < sync_rank pc"
  by (cases "(io, drv, pc, s, w)" rule: sync_step.cases)
     (auto simp: Let_def split: prod.splits sum.splits option.splits if_splits)

lemma sync_step_frame:
  "sync_step io drv pc s w = ((pc', s', es), w') \<Longrightarrow>
   cluster_view s' = cluster_view s \<and> settings s' = settings s \<and> offerCache s' = offerCache s \<and>
   highestInstanceID s' = highestInstanceID s"
  by (cases "(io, drv, pc, s, w)" rule: sync_step.cases)
     (auto simp: Let_def sched_frame split: prod.splits sum.splits option.splits if_splits)

lemma sync_step_effects:
  "sync_step io drv pc s w = ((pc', s', es), w') \<Longrightarrow> e \<in> set es \<Longrightarrow> e = Exit \<or> (\<exists>sts. e = ReconcileTasks sts)"
  by (cases "(io, drv, pc, s, w)" rule: sync_step.cases)
     (auto simp: Let_def split: prod.splits sum.splits option.splits if_splits)

section \<open>Lemmas: launching\<close>

lemma set_stats_frame [sched_frame]:
  "cluster_view (set_healthy h s) = cluster_view s" "settings (set_healthy h s) = settings s"
  "offerCache (set_healthy h s) = offerCache s" "pending (set_healthy h s) = pending s"
  "cluster_view (set_running_servers s) = cluster_view s" "settings (set_running_servers s) = settings s"
  "offerCache (set_running_servers s) = offerCache s"
  by (simp_all add: set_healthy_def set_running_servers_def sched_frame)

lemma note_livelock_frame:
  "note_livelock io s w = ((s', es), w') \<Longrightarrow>
   cluster_view s' = cluster_view s \<and> settings s' = settings s \<and> offerCache s' = offerCache s \<and> set es \<subseteq> {GoReseed}"
  by (auto simp: note_livelock_def Let_def sched_frame split: prod.splits option.splits if_splits)

lemma shouldLaunch_True:
  assumes "shouldLaunch io s w = ((True, s', es), w')"
  shows "state s = Mutable" "\<not> reseeding s" "pending s = []" "int (length (running s)) < desiredInstanceCount s"
    "es = []" "s' = set_healthy True s\<lparr>livelockWindow := None\<rparr>"
    "\<exists>members w1. MemberList io (running s) w = (Inr members, w1) \<and> int (length members) \<noteq> desiredInstanceCount s \<and>
       (\<exists>info w2. GetPreviousReconciliationInfo io (ZkServers s) (ZkChroot s) (FrameworkName s) w1 = (Inr info, w2) \<and>
          HealthCheck io (running s) w2 = (None, w'))"
  using assms by (auto simp: shouldLaunch_def Let_def split: if_splits prod.splits sum.splits option.splits)

lemma shouldLaunch_False:
  assumes "shouldLaunch io s w = ((False, s', es), w')"
  shows "cluster_view s' = cluster_view s \<and> settings s' = settings s \<and> offerCache s' = offerCache s \<and> set es \<subseteq> {GoReseed}"
  using assms
  by (auto simp: shouldLaunch_def Let_def split: if_splits prod.splits sum.splits option.splits
      dest!: note_livelock_frame)

lemma shouldLaunch_frame:
  assumes "shouldLaunch io s w = ((b, s', es), w')"
  shows "cluster_view s' = cluster_view s \<and> settings s' = settings s \<and> offerCache s' = offerCache s \<and> set es \<subseteq> {GoReseed}"
proof (cases b)
  case True
  with shouldLaunch_True(5,6) [of io s w s' es w'] assms show ?thesis by (simp add: sched_frame)
next
  case False
  with shouldLaunch_False [of io s w s' es w'] assms show ?thesis by simp
qed

lemma launch_task_ReturnsE:
  assumes "launch_task io s offer w = (Returns (s', es), w')"
  obtains r rs ord node s1 where "ports (parseOffer offer) = r # rs"
    "s1 = s\<lparr>highestInstanceID := wrap64 (highestInstanceID s + 1)\<rparr>"
    "node = new_node s1 offer (Begin r)"
    "go_range io (running s) w = (ord, w')"
    "es = [LaunchTasks [offer_id offer] [new_task s1 offer node ord (Begin r + 3)] 1]"
    "pending s' = gm_put (Name node) () (pending s)" "running s' = running s" "tasks s' = tasks s"
    "settings s' = settings s" "offerCache s' = offerCache s"
    "highestInstanceID s' = wrap64 (highestInstanceID s + 1)"
proof -
  obtain r rs where p: "ports (parseOffer offer) = r # rs"
    using assms by (cases "ports (parseOffer offer)") (auto simp: launch_task_def)
  obtain ord w1 where o: "go_range io (running s) w = (ord, w1)" by fastforce
  show thesis
    using assms p o
    by (intro that [OF p refl refl]) (auto simp: launch_task_def Let_def sched_frame)
qed

lemma launch_task_ok: "ports (parseOffer offer) \<noteq> [] \<Longrightarrow> \<exists>r w'. launch_task io s offer w = (Returns r, w')"
  by (cases "ports (parseOffer offer)") (auto simp: launch_task_def Let_def split: prod.splits)

text \<open>What a task and its executor take, read the way an offer is read.\<close>

definition task_use :: "TaskInfo \<Rightarrow> OfferResources" where
  "task_use t = parseOffer \<lparr>offer_id = [], slave_id = [], hostname = [],
     resources = task_resources t @ exec_resources (task_executor t)\<rparr>"

definition range_within :: "Value_Range \<Rightarrow> Value_Range \<Rightarrow> bool" where
  "range_within a b \<longleftrightarrow> Begin b \<le> Begin a \<and> Begin a \<le> End a \<and> End a \<le> End b"

lemma task_use_new_task:
  "cpus (task_use (new_task s offer node ord p)) = cpusPerTask s + executorWantsCpus"
  "mems (task_use (new_task s offer node ord p)) = memPerTask s + executorWantsMem"
  "disk (task_use (new_task s offer node ord p)) = diskPerTask s"
  "ports (task_use (new_task s offer node ord p)) =
     [\<lparr>Begin = RPCPort node, End = RPCPort node + 2\<rparr>, \<lparr>Begin = p, End = p\<rparr>]"
  by (simp_all add: task_use_def new_task_def newExecutorInfo_def parseOffer_def FilterResources_def Let_def
      NewScalarResource_def NewRangesResource_def NewValueRange_def portsPerTask_def executorWantsPorts_def)

lemma word_add_mono:
  fixes b e :: "64 word"
  assumes "unat b + 3 \<le> unat e" "k \<le> 3"
  shows "unat (b + of_nat k) = unat b + k"
proof -
  have "unat e < 2 ^ 64" using unsigned_less [of e] by simp
  then have "unat b + k < 2 ^ 64" using assms by linarith
  then show ?thesis by (simp add: unat_word_ariths unsigned_of_nat take_bit_eq_mod)
qed

lemma within_first_range:
  fixes b e :: "64 word"
  assumes "unat b + 3 \<le> unat e"
  shows "range_within \<lparr>Begin = b, End = b + 2\<rparr> \<lparr>Begin = b, End = e\<rparr>"
    "range_within \<lparr>Begin = b + 3, End = b + 3\<rparr> \<lparr>Begin = b, End = e\<rparr>" "b + 2 < b + 3"
  using word_add_mono [OF assms, of 2] word_add_mono [OF assms, of 3] assms
  by (simp_all add: range_within_def word_le_nat_alt word_less_nat_alt)

section \<open>Lemmas: reseeding\<close>

lemma reseed_wait_True:
  assumes "reseed_wait io name node timeout before b w = Some (True, w')"
  shows "\<exists>w1. HealthCheck io [(name, node)] w1 = (None, w')"
proof -
  have "fst r \<longrightarrow> (\<exists>w1. HealthCheck io [(name, node)] w1 = (None, snd r))"
    if "reseed_wait io name node timeout before b w = Some r" for r
  proof (rule reseed_wait.raw_induct [OF _ that], goal_cases)
    case (1 rec io name node timeout before b w r)
    then show ?case by (auto split: prod.splits option.splits if_splits)
  qed
  with assms show ?thesis by fastforce
qed

lemma choose_seed_Some:
  "choose_seed io s cs w = Some (Some seed, w') \<Longrightarrow>
   \<exists>c \<in> set cs. ni_Node c = seed \<and> (\<exists>node. gm_get (running s) seed = Some node \<and>
     (\<exists>w1 w2. HealthCheck io [(seed, node)] w1 = (None, w2)))"
proof (induction cs arbitrary: w)
  case (Cons c cs)
  obtain b w1 where r: "reseedNode io s (ni_Node c) w = Some (b, w1)"
    using Cons.prems by (cases "reseedNode io s (ni_Node c) w") auto
  show ?case
  proof (cases b)
    case True
    with Cons.prems r have "seed = ni_Node c" by simp
    with r True show ?thesis
      by (auto simp: reseedNode_def Let_def split: option.splits prod.splits dest!: reseed_wait_True)
  next
    case False
    with Cons r show ?thesis by auto
  qed
qed simp

text \<open>
  A clock: readings and pauses move it forward, and no request moves it back.
\<close>

definition clock_advances :: "'w World \<Rightarrow> ('w \<Rightarrow> int) \<Rightarrow> bool" where
  "clock_advances io clk \<longleftrightarrow>
     (\<forall>w. fst (now io w) = clk (snd (now io w)) \<and> clk w \<le> clk (snd (now io w))) \<and>
     (\<forall>n w. clk w + int n * 1000000000 \<le> clk (sleep io n w)) \<and>
     (\<forall>r w. clk w \<le> clk (snd (http_do io r w))) \<and>
     (\<forall>u w. clk w \<le> clk (snd (etcd_sync io u w))) \<and>
     (\<forall>u w. clk w \<le> clk (snd (etcd_get io u w))) \<and>
     (\<forall>ks w. clk w \<le> clk (snd (range_order io ks w)))"

lemma clock_find_endpoint:
  "clock_advances io clk \<Longrightarrow> clk w \<le> clk (snd (find_endpoint io ord w))"
proof (induction io ord w rule: find_endpoint.induct)
  case (2 io i args rest w)
  obtain r w1 where g: "http_get io (client_url args @ ''/v2/stats/leader'') w = (r, w1)" by fastforce
  then have le: "clk w \<le> clk w1"
    using "2.prems" unfolding clock_advances_def http_get_def by (metis snd_conv)
  with g "2.IH" "2.prems" show ?case
    by (auto split: http_result.splits option.splits intro: order.trans [OF le])
qed simp

lemma clock_HealthCheck:
  assumes "clock_advances io clk"
  shows "clk w \<le> clk (snd (HealthCheck io m w))"
proof -
  obtain ord w0 where o: "go_range io m w = (ord, w0)" by fastforce
  then have 0: "clk w \<le> clk w0"
    using assms unfolding clock_advances_def go_range_def
    by (auto simp: split_beta)
  obtain x w1 where f: "find_endpoint io ord w0 = (x, w1)" by fastforce
  then have 1: "clk w0 \<le> clk w1" using clock_find_endpoint [OF assms, of w0 ord] by simp
  show ?thesis
  proof (cases "m = [] \<or> x = None")
    case True
    with o f 0 1 show ?thesis by (auto simp: HealthCheck_def)
  next
    case False
    then obtain u where u: "x = Some u" by auto
    obtain ok w2 where s: "etcd_sync io u w1 = (ok, w2)" by fastforce
    obtain r1 w3 where g1: "etcd_get io u w2 = (r1, w3)" by fastforce
    obtain r2 w4 where g2: "etcd_get io u (sleep io 1 w3) = (r2, w4)" by fastforce
    have "clk w1 \<le> clk w2" "clk w2 \<le> clk w3" "clk w3 \<le> clk (sleep io 1 w3)" "clk (sleep io 1 w3) \<le> clk w4"
      using assms s g1 g2 unfolding clock_advances_def by (metis snd_conv, metis snd_conv, smt (verit) of_nat_0_le_iff, metis snd_conv)
    with False o f u s g1 g2 0 1 show ?thesis
      by (auto simp: HealthCheck_def split: bool.splits option.splits if_splits)
  qed
qed

lemma reseed_wait_returns:
  assumes "clock_advances io clk"
  shows "1 \<le> b \<Longrightarrow> \<exists>y. reseed_wait io name node timeout before b w = Some y"
proof (induction "nat (before + timeout - clk w)" arbitrary: b w rule: less_induct)
  case less
  obtain t w1 where n: "now io w = (t, w1)" by fastforce
  then have t: "t = clk w1" "clk w \<le> clk w1" using assms unfolding clock_advances_def by (metis fst_conv snd_conv)+
  obtain e w2 where h: "HealthCheck io [(name, node)] w1 = (e, w2)" by fastforce
  then have 2: "clk w1 \<le> clk w2" using clock_HealthCheck [OF assms, of w1 "[(name, node)]"] by simp
  have 3: "clk w2 + 1000000000 \<le> clk (sleep io b w2)"
  proof -
    have "clk w2 + int b * 1000000000 \<le> clk (sleep io b w2)" using assms by (simp add: clock_advances_def)
    then show ?thesis using less.prems by linarith
  qed
  show ?case
  proof (cases "t - before < timeout \<and> e \<noteq> None")
    case True
    have "nat (before + timeout - clk (sleep io b w2)) < nat (before + timeout - clk w)"
      using True t 2 3 by linarith
    moreover have "1 \<le> next_backoff b" using less.prems by (simp add: next_backoff_def)
    ultimately obtain y where "reseed_wait io name node timeout before (next_backoff b) (sleep io b w2) = Some y"
      using less.hyps by blast
    with True n h show ?thesis by (subst reseed_wait.simps) auto
  next
    case False
    with n h show ?thesis by (subst reseed_wait.simps) (auto split: option.splits)
  qed
qed

lemma choose_seed_returns:
  assumes "clock_advances io clk" "\<forall>c \<in> set cs. gm_get (running s) (ni_Node c) \<noteq> None"
  shows "\<exists>y. choose_seed io s cs w = Some y"
  using assms(2)
proof (induction cs arbitrary: w)
  case (Cons c cs)
  then obtain node where node: "gm_get (running s) (ni_Node c) = Some node" by auto
  have "\<exists>y. reseedNode io s (ni_Node c) w = Some y"
    using reseed_wait_returns [OF assms(1)] by (auto simp: reseedNode_def node Let_def split: prod.splits)
  then obtain b w1 where "reseedNode io s (ni_Node c) w = Some (b, w1)" by auto
  with Cons show ?case by (cases b) auto
qed simp

section \<open>Example data\<close>

definition demo_sched :: EtcdScheduler where
  "demo_sched = (the (fst (NewEtcdScheduler demo_world 3 60 240 True [] True 256 1 128 5 0)))\<lparr>state := Mutable\<rparr>"

definition demo_offer :: "Value_Range list \<Rightarrow> Offer" where
  "demo_offer rs = \<lparr>offer_id = ''o1'', slave_id = ''s9'', hostname = ''h9'',
     resources = [NewScalarResource ''cpus'' 2, NewScalarResource ''mem'' 512, NewScalarResource ''disk'' 512,
       NewRangesResource ''ports'' rs]\<rparr>"

lemma demo_sched_simps:
  "state demo_sched = Mutable" "reseeding demo_sched = False" "pending demo_sched = []" "running demo_sched = []"
  "desiredInstanceCount demo_sched = 3" "cpusPerTask demo_sched = 1" "memPerTask demo_sched = 128"
  "diskPerTask demo_sched = 256" "tasks demo_sched = []"
  by (simp_all add: demo_sched_def NewEtcdScheduler_def New_def demo_world_def)

lemma demo_offer_sufficient:
  "totalPorts \<lparr>cpus = 2, mems = 512, disk = 512, ports = rs\<rparr> \<ge> 4 \<Longrightarrow> offer_sufficient demo_sched (demo_offer rs)"
  "ports (parseOffer (demo_offer rs)) = rs"
  by (simp_all add: offer_sufficient_def demo_offer_def parseOffer_def FilterResources_def demo_sched_simps
      NewScalarResource_def NewRangesResource_def executorWantsCpus_def executorWantsMem_def portsPerTask_def
      executorWantsPorts_def totalPorts_def)

section \<open>Properties\<close>

text \<open>
  A launch is attempted only when the scheduler is mutable, no reseed runs, no
  launch is pending, fewer servers run than desired, the configured members are not already as many
  as desired, ZooKeeper answers and the health check of the running servers passes.
\<close>

lemma shouldLaunch_guards:
  assumes "shouldLaunch io s w = ((True, s', es), w')"
  shows "state s = Mutable \<and> \<not> reseeding s \<and> pending s = [] \<and> int (length (running s)) < desiredInstanceCount s \<and>
    (\<exists>members w1 info w2. MemberList io (running s) w = (Inr members, w1) \<and>
       int (length members) \<noteq> desiredInstanceCount s \<and>
       GetPreviousReconciliationInfo io (ZkServers s) (ZkChroot s) (FrameworkName s) w1 = (Inr info, w2) \<and>
       HealthCheck io (running s) w2 = (None, w'))"
  using shouldLaunch_True [OF assms] by blast


text \<open>
  C9 (safety): what a launched task and its executor take is covered by the offer, if the first
  range of ports of the offer has at least four ports.
\<close>

theorem launch_within_offer:
  assumes "offer_sufficient s offer" "ports (parseOffer offer) = r # rs" "unat (Begin r) + 3 \<le> unat (End r)"
    and "launch_task io s offer w = (Returns (s', es), w')"
  shows "\<exists>task. es = [LaunchTasks [offer_id offer] [task] 1] \<and> task_slave task = slave_id offer \<and>
    cpus (task_use task) \<le> cpus (parseOffer offer) \<and> mems (task_use task) \<le> mems (parseOffer offer) \<and>
    disk (task_use task) \<le> disk (parseOffer offer) \<and>
    (\<exists>p1 p2. ports (task_use task) = [p1, p2] \<and> range_within p1 r \<and> range_within p2 r \<and> End p1 < Begin p2)"
proof -
  from assms(4) obtain ord node s1 where l: "s1 = s\<lparr>highestInstanceID := wrap64 (highestInstanceID s + 1)\<rparr>"
      "node = new_node s1 offer (Begin r)"
      "es = [LaunchTasks [offer_id offer] [new_task s1 offer node ord (Begin r + 3)] 1]"
    by (rule launch_task_ReturnsE) (use assms(2) in auto)
  have r: "r = \<lparr>Begin = Begin r, End = End r\<rparr>" by simp
  have "offer_sufficient s1 offer" using assms(1) l(1) offer_sufficient_cong [of s1 s] by (simp add: sched_frame)
  then have "cpus (task_use (new_task s1 offer node ord (Begin r + 3))) \<le> cpus (parseOffer offer)"
    "mems (task_use (new_task s1 offer node ord (Begin r + 3))) \<le> mems (parseOffer offer)"
    "disk (task_use (new_task s1 offer node ord (Begin r + 3))) \<le> disk (parseOffer offer)"
    by (simp_all add: offer_sufficient_def Let_def task_use_new_task)
  moreover have "RPCPort node = Begin r" by (simp add: l(2) new_node_def)
  ultimately show ?thesis
    using within_first_range [OF assms(3)] r l(3)
    by (intro exI [of _ "new_task s1 offer node ord (Begin r + 3)"])
       (simp add: task_use_new_task, simp add: new_task_def)
qed

text \<open>
  C10 (roundtrip): from a launched task the executor reads the new node and the servers that run,
  and the scheduler reads the new node back from the identifier of the task.
\<close>

theorem launch_data_roundtrip:
  assumes "gm_ok (running s)" "launch_task io s offer w = (Returns (s', es), w')"
    and "hostname offer \<noteq> []" "no_space (hostname offer)"
  shows "\<exists>task node rest. es = [LaunchTasks [offer_id offer] [task] 1] \<and>
    unmarshal_nodes (task_data task) = Some (map Some (node # rest)) \<and> mset rest = mset (map snd (running s)) \<and>
    Parse (task_info_id task) = Inr (text_part node) \<and> pending s' = gm_put (Name node) () (pending s)"
proof -
  show ?thesis
    using assms(2)
  proof (cases rule: launch_task_ReturnsE)
    case (1 r rs ord node s1)
    have "mset (map snd ord) = mset (map snd (running s))"
      using go_range_mset [OF assms(1), of io w] 1(4) by (metis fst_conv mset_map)
    moreover have "node_ok node"
      using assms(3,4) no_space_fmt_int [of "highestInstanceID s1"]
      by (auto simp: 1(3) new_node_def node_ok_def is_space_def)
    ultimately show ?thesis
      using 1(5,6) Parse_String [of node] unmarshal_marshal_nodes [of "node # map snd ord"]
      by (intro exI [of _ "new_task s1 offer node ord (Begin r + 3)"] exI [of _ node] exI [of _ "map snd ord"])
         (simp add: new_task_def)
  qed
qed


text \<open>
  A reseed ends, if the clock advances.
\<close>

lemma reseed_ends:
  assumes "gm_ok (running s)" "clock_advances io clk"
  shows "\<exists>y. reseedCluster io s w = Some y"
proof -
  have "\<exists>y. reseed_run io s1 w = Some y" if "gm_ok (running s1)" for s1
  proof -
    obtain cs w1 where c: "RankReseedCandidates io (running s1) w = (cs, w1)" by fastforce
    have "\<forall>x \<in> set cs. gm_get (running s1) (ni_Node x) \<noteq> None"
      using RankReseedCandidates_running [OF that c] by fastforce
    then have "\<exists>y. choose_seed io (s1\<lparr>state := Immutable\<rparr>) cs w1 = Some y"
      by (intro choose_seed_returns [OF assms(2)]) simp
    then obtain y where "choose_seed io (s1\<lparr>state := Immutable\<rparr>) cs w1 = Some y" ..
    with c show ?thesis
      by (cases y) (auto simp: reseed_run_def Let_def split: prod.splits)
  qed
  with assms(1) show ?thesis
    by (auto simp: reseedCluster_def reseed_begin_def sched_frame)
qed

text \<open>
  A reseed leaves the scheduler mutable, even if it was immutable before and even
  if there is no candidate at all and the driver is told to abort.
\<close>

lemma reseed_unlocks:
  assumes "reseed_run io s w = Some ((s', es), w')"
  shows "state s' = Mutable \<and> \<not> reseeding s' \<and>
    (fst (RankReseedCandidates io (running s) w) = [] \<longrightarrow> es = [Abort])"
  using assms
  by (auto simp: reseed_run_def reseed_kills_def Let_def split: prod.splits option.splits if_splits)


section \<open>Witnesses\<close>


theorem launch_within_offer_witness:
  "\<exists>task s' w'. launch_task demo_world demo_sched (demo_offer [\<lparr>Begin = 31000, End = 31009\<rparr>]) 0 =
     (Returns (s', [LaunchTasks [''o1''] [task] 1]), w') \<and>
   cpus (task_use task) \<le> cpus (parseOffer (demo_offer [\<lparr>Begin = 31000, End = 31009\<rparr>]))"
proof -
  let ?offer = "demo_offer [\<lparr>Begin = 31000, End = 31009\<rparr>]"
  have suff: "offer_sufficient demo_sched ?offer"
    by (rule demo_offer_sufficient) (simp add: totalPorts_def)
  have p: "ports (parseOffer ?offer) = [\<lparr>Begin = 31000, End = 31009\<rparr>]"
    by (rule demo_offer_sufficient)
  then obtain s' es w' where l: "launch_task demo_world demo_sched ?offer 0 = (Returns (s', es), w')"
    using launch_task_ok [of ?offer demo_world demo_sched 0] by auto
  from launch_within_offer [OF suff p _ l] l show ?thesis by (auto simp: demo_offer_def)
qed

theorem launch_data_roundtrip_witness:
  "\<exists>s' es w' (node :: Node). launch_task demo_world demo_sched (demo_offer [\<lparr>Begin = 31000, End = 31009\<rparr>]) 0 = (Returns (s', es), w') \<and>
     pending s' = gm_put (Name node) () []"
proof -
  let ?offer = "demo_offer [\<lparr>Begin = 31000, End = 31009\<rparr>]"
  have p: "ports (parseOffer ?offer) = [\<lparr>Begin = 31000, End = 31009\<rparr>]"
    by (rule demo_offer_sufficient)
  then obtain s' es w' where l: "launch_task demo_world demo_sched ?offer 0 = (Returns (s', es), w')"
    using launch_task_ok [of ?offer demo_world demo_sched 0] by auto
  have "no_space (hostname ?offer)" "hostname ?offer \<noteq> []" by (simp_all add: demo_offer_def is_space_def)
  with launch_data_roundtrip [OF _ l] obtain node :: Node where "pending s' = gm_put (Name node) () []"
    by (auto simp: demo_sched_simps)
  with l show ?thesis by blast
qed

definition demo_named :: "string \<Rightarrow> Node" where
  "demo_named n = demo_node\<lparr>Name := n\<rparr>"

definition demo_pair :: EtcdScheduler where
  "demo_pair = demo_sched\<lparr>running := [(''a-1'', demo_named ''a-1''), (''b-2'', demo_named ''b-2'')],
     tasks := [(''a-1'', node_String (demo_named ''a-1'')), (''b-2'', node_String (demo_named ''b-2''))]\<rparr>"

lemma demo_pair_inv: "cluster_inv demo_pair"
proof -
  have n: "node_ok (demo_named n)" if "n \<noteq> []" "no_space n" for n
    using that by (simp add: node_ok_def demo_named_def demo_node_def is_space_def)
  have "Parse (node_String (demo_named ''a-1'')) = Inr (text_part (demo_named ''a-1''))"
    "Parse (node_String (demo_named ''b-2'')) = Inr (text_part (demo_named ''b-2''))"
    by (rule Parse_String, rule n; simp add: is_space_def)+
  then show ?thesis
    by (simp add: cluster_inv_def demo_pair_def gm_ok_def demo_sched_simps demo_named_def)
qed

lemma demo_pair_reseed:
  "reseed_run (demo_answer ''{}'') demo_pair 0 =
     Some ((demo_pair, [KillTask (node_String (demo_named ''a-1''))]), 10)"
proof -
  let ?io = "demo_answer ''{}''"
  have run: "running demo_pair = [(''a-1'', demo_named ''a-1''), (''b-2'', demo_named ''b-2'')]"
    "0 < reseedTimeout demo_pair" "state demo_pair = Mutable" "reseeding demo_pair = False"
    by (simp_all add: demo_pair_def demo_sched_def NewEtcdScheduler_def New_def demo_world_def wrap64_def)
  have rank: "RankReseedCandidates ?io [(''a-1'', demo_named ''a-1''), (''b-2'', demo_named ''b-2'')] 0 =
      ([\<lparr>ni_RaftIndex = 3, ni_Node = ''b-2''\<rparr>, \<lparr>ni_RaftIndex = 1, ni_Node = ''a-1''\<rparr>], 4)"
    by code_simp
  have health: "HealthCheck ?io [(''b-2'', demo_named ''b-2'')] 5 = (None, 10)" by code_simp
  have clock: "now ?io 5 = (5000000000, 5)" "snd (TriggerReseed ?io (demo_named ''b-2'') 4) = 5"
    by (simp add: demo_answer_def demo_world_def) code_simp
  have "reseed_wait ?io ''b-2'' (demo_named ''b-2'') (reseedTimeout demo_pair) 5000000000 1 5 = Some (True, 10)"
    by (subst reseed_wait.simps) (simp add: clock health run)
  then have "reseedNode ?io (demo_pair\<lparr>state := Immutable\<rparr>) ''b-2'' 4 = Some (True, 10)"
    using clock by (simp add: reseedNode_def run split_beta)
  then have "choose_seed ?io (demo_pair\<lparr>state := Immutable\<rparr>)
      [\<lparr>ni_RaftIndex = 3, ni_Node = ''b-2''\<rparr>, \<lparr>ni_RaftIndex = 1, ni_Node = ''a-1''\<rparr>] 4 = Some (Some ''b-2'', 10)"
    by simp
  moreover have "reseed_kills ?io (Some ''b-2'') (tasks demo_pair) 10 = ([KillTask (node_String (demo_named ''a-1''))], 10)"
    by (simp add: reseed_kills_def go_range_def demo_pair_def demo_answer_def demo_world_def)
  moreover have "demo_pair\<lparr>state := Mutable, reseeding := False\<rparr> = demo_pair"
    using run by (intro EtcdScheduler.equality) simp_all
  ultimately show ?thesis
    by (simp add: reseed_run_def run rank)
qed


end
