(* ===== verification/Transition.thy ===== *)
theory Transition
  imports Main
begin

text \<open>
  Transition systems: the interface of the two processes, the scheduler and the executor, to proofs
  about all their runs.  A state is reachable if some run from an initial state ends in it, and what
  holds initially and is kept by every step from a reachable state holds in every reachable state.
\<close>

locale transition_system =
  fixes init :: "'a \<Rightarrow> bool"
    and step :: "'a \<Rightarrow> 'a \<Rightarrow> bool"
begin

definition reach :: "'a \<Rightarrow> bool" where
  "reach s \<longleftrightarrow> (\<exists>s0. init s0 \<and> step\<^sup>*\<^sup>* s0 s)"

lemma reach_induct [consumes 1, case_names init step]:
  assumes "reach s" "\<And>s. init s \<Longrightarrow> I s" "\<And>s s'. reach s \<Longrightarrow> I s \<Longrightarrow> step s s' \<Longrightarrow> I s'"
  shows "I s"
proof -
  from assms(1) obtain s0 where s0: "init s0" "step\<^sup>*\<^sup>* s0 s" unfolding reach_def by blast
  from s0(2) have "reach s \<and> I s"
  proof induction
    case base
    then show ?case using s0(1) assms(2) unfolding reach_def by blast
  next
    case (step y z)
    then have "reach z" unfolding reach_def by (meson rtranclp.rtrancl_into_rtrancl)
    with step assms(3) show ?case by blast
  qed
  then show ?thesis by simp
qed

end

end
