(* ===== verification/Scheduler_System.thy ===== *)
theory Scheduler_System
  imports Scheduler_Launch Transition
begin

text \<open>
  The scheduler process as a whole: the callbacks of the Mesos driver, the launcher goroutine, the
  synchronisation threads, the timers that decline offers, the periodic loops, the admin interface
  and the reseed, interleaved at the points where the code releases its mutex.  The relation
  \<open>sys_step\<close> allows any order, and the outside world may change between any two steps.  The theory
  shows that the cluster view evolves as an abstract specification says (\<open>view_step\<close>), that at most one
  launch is pending, that no offer is answered twice and that the launcher does not panic.
\<close>

section \<open>The launcher\<close>

text \<open>The points of \<open>SerialLauncher\<close> and \<open>launchOne\<close> between which others may run.\<close>

datatype launcher_pc =
    LIdle | LSelect | LPrune | LShould | LPop
  | LCheck Offer | LValid Offer | LAgain Offer | LLaunch Offer
  | LRest | LPanic

definition chill :: "'w World \<Rightarrow> EtcdScheduler \<Rightarrow> 'w \<Rightarrow> 'w" where
  "chill io s w = sleep io (nat (chillSeconds s)) w"

text \<open>\<open>None\<close>: the launcher is blocked.  The flag decides a \<open>select\<close> with two ready channels.\<close>

fun launcher_step ::
    "'w World \<Rightarrow> bool \<Rightarrow> launcher_pc \<Rightarrow> EtcdScheduler \<Rightarrow> 'w \<Rightarrow>
     ((launcher_pc \<times> EtcdScheduler \<times> effect list) \<times> 'w) option" where
  "launcher_step io c LIdle s w =
     (if 0 < pauseChan s then Some ((LIdle, s\<lparr>pauseChan := pauseChan s - 1\<rparr>, []), chill io s w)
      else Some ((LSelect, s, []), w))"
| "launcher_step io c LSelect s w =
     (if 0 < launchChan s \<and> (c \<or> pauseChan s = 0) then Some ((LPrune, s\<lparr>launchChan := launchChan s - 1\<rparr>, []), w)
      else if 0 < pauseChan s then Some ((LIdle, s\<lparr>pauseChan := pauseChan s - 1\<rparr>, []), chill io s w)
      else None)"
| "launcher_step io c LPrune s w =
     (case Prune io s w of
        (Some _, w1) \<Rightarrow> Some ((LRest, s, []), w1)
      | (None, w1) \<Rightarrow> Some ((LShould, s, []), w1))"
| "launcher_step io c LShould s w =
     (case shouldLaunch io s w of
        ((True, s1, es), w1) \<Rightarrow> Some ((LPop, s1, es), w1)
      | ((False, s1, es), w1) \<Rightarrow> Some ((LRest, s1, es), w1))"
| "launcher_step io c LPop s w =
     (case pop_recv (offerCache s) of
        None \<Rightarrow> None
      | Some (offer, oc) \<Rightarrow> Some ((LCheck offer, s\<lparr>offerCache := oc\<rparr>, []), w))"
| "launcher_step io c (LCheck offer) s w =
     (case pop_check offer (offerCache s) of
        (True, oc) \<Rightarrow> Some ((LValid offer, s\<lparr>offerCache := oc\<rparr>, []), w)
      | (False, oc) \<Rightarrow> Some ((LPop, s\<lparr>offerCache := oc\<rparr>, []), w))"
| "launcher_step io c (LValid offer) s w =
     (if validOffer s offer then Some ((LAgain offer, s, []), w)
      else Some ((LPop, s, [decline s offer]), w))"
| "launcher_step io c (LAgain offer) s w =
     (case shouldLaunch io s w of
        ((True, s1, es), w1) \<Rightarrow> Some ((LLaunch offer, s1, es), w1)
      | ((False, s1, es), w1) \<Rightarrow> Some ((LRest, s1, es @ [decline s1 offer]), w1))"
| "launcher_step io c (LLaunch offer) s w =
     (case launch_task io s offer w of
        (Panics, w1) \<Rightarrow> Some ((LPanic, s, []), w1)
      | (Returns (s1, es), w1) \<Rightarrow> Some ((LRest, s1, es), w1))"
| "launcher_step io c LRest s w = Some ((LIdle, s, []), chill io s w)"
| "launcher_step io c LPanic s w = None"

section \<open>The process\<close>

text \<open>
  \<open>arriving\<close> and \<open>inserting\<close> are the offers of running \<open>ResourceOffers\<close> calls before and after the check
  against the state; \<open>timers\<close> the offers with a decline timer; \<open>reseeds\<close> and \<open>reseedsLocked\<close> the reseed
  goroutines before and after the compare-and-swap.  \<open>seen\<close> and \<open>trace\<close> are history: the identifiers of
  the offers received so far and the effects so far.
\<close>

record 'w sys =
  sched :: EtcdScheduler
  launcher :: launcher_pc
  syncs :: "sync_pc list"
  timers :: "Offer list"
  arriving :: "Offer list"
  inserting :: "Offer list"
  reseeds :: nat
  reseedsLocked :: nat
  seen :: "string set"
  trace :: "effect list"
  alive :: bool
  world :: 'w

fun later_offers :: "effect list \<Rightarrow> Offer list" where
  "later_offers [] = []"
| "later_offers (GoDeclineLater off # es) = off # later_offers es"
| "later_offers (_ # es) = later_offers es"

definition emit :: "effect list \<Rightarrow> 'w sys \<Rightarrow> 'w sys" where
  "emit es st = st\<lparr>trace := trace st @ es, timers := timers st @ later_offers es,
     syncs := syncs st @ replicate (count_list es GoSync) sync_start,
     reseeds := reseeds st + count_list es GoReseed, alive := alive st \<and> Exit \<notin> set es\<rparr>"

inductive sys_step :: "'w World \<Rightarrow> 'w Driver \<Rightarrow> 'w sys \<Rightarrow> 'w sys \<Rightarrow> bool" for io drv where
  environment: "sys_step io drv st (st\<lparr>world := w'\<rparr>)"
| offers: "alive st \<Longrightarrow> distinct (map offer_id offs) \<Longrightarrow> offer_id ` set offs \<inter> seen st = {} \<Longrightarrow>
    sys_step io drv st (st\<lparr>arriving := arriving st @ offs, seen := seen st \<union> offer_id ` set offs\<rparr>)"
| offer_refused: "alive st \<Longrightarrow> arriving st = off # rest \<Longrightarrow> offer_unwanted (sched st) off \<Longrightarrow>
    sys_step io drv st (emit [decline (sched st) off] (st\<lparr>arriving := rest\<rparr>))"
| offer_passed: "alive st \<Longrightarrow> arriving st = off # rest \<Longrightarrow> \<not> offer_unwanted (sched st) off \<Longrightarrow>
    sys_step io drv st (st\<lparr>arriving := rest, inserting := inserting st @ [off]\<rparr>)"
| offer_inserted: "alive st \<Longrightarrow> inserting st = off # rest \<Longrightarrow> offer_insert (sched st) off = (s', es) \<Longrightarrow>
    sys_step io drv st (emit es (st\<lparr>inserting := rest, sched := s'\<rparr>))"
| timer: "alive st \<Longrightarrow> timers st = xs @ off # ys \<Longrightarrow> decline_later off (sched st) = (s', es) \<Longrightarrow>
    sys_step io drv st (emit es (st\<lparr>timers := xs @ ys, sched := s'\<rparr>))"
| rescinded: "alive st \<Longrightarrow> sys_step io drv st (st\<lparr>sched := OfferRescinded i (sched st)\<rparr>)"
| status: "alive st \<Longrightarrow> StatusUpdate io u (sched st) (world st) = (s', w') \<Longrightarrow>
    sys_step io drv st (st\<lparr>sched := s', world := w'\<rparr>)"
| registered: "alive st \<Longrightarrow> Registered io fwid mi (sched st) (world st) = ((s', es), w') \<Longrightarrow>
    sys_step io drv st (emit es (st\<lparr>sched := s', world := w'\<rparr>))"
| reregistered: "alive st \<Longrightarrow> Reregistered mi (sched st) = (s', es) \<Longrightarrow>
    sys_step io drv st (emit es (st\<lparr>sched := s'\<rparr>))"
| disconnected: "alive st \<Longrightarrow> sys_step io drv st (st\<lparr>sched := Disconnected (sched st)\<rparr>)"
| driver_error: "alive st \<Longrightarrow> sched_Error io msg (sched st) (world st) = (es, w') \<Longrightarrow>
    sys_step io drv st (emit es (st\<lparr>world := w'\<rparr>))"
| sync: "alive st \<Longrightarrow> syncs st = xs @ pc # ys \<Longrightarrow> pc \<noteq> SyncStop \<Longrightarrow>
    sync_step io drv pc (sched st) (world st) = ((pc', s', es), w') \<Longrightarrow>
    sys_step io drv st (emit es (st\<lparr>syncs := xs @ pc' # ys, sched := s', world := w'\<rparr>))"
| reconciler: "alive st \<Longrightarrow> sys_step io drv st (emit (PeriodicReconciler (sched st)) st)"
| health_checker: "alive st \<Longrightarrow> PeriodicHealthChecker io (sched st) (world st) = (s', w') \<Longrightarrow>
    sys_step io drv st (st\<lparr>sched := s', world := w'\<rparr>)"
| launch_requestor: "alive st \<Longrightarrow> sys_step io drv st (st\<lparr>sched := PeriodicLaunchRequestor (sched st)\<rparr>)"
| launcher: "alive st \<Longrightarrow> launcher_step io c (launcher st) (sched st) (world st) = Some ((pc', s', es), w') \<Longrightarrow>
    sys_step io drv st (emit es (st\<lparr>launcher := pc', sched := s', world := w', alive := pc' \<noteq> LPanic\<rparr>))"
| reseed_cas: "alive st \<Longrightarrow> reseeds st = Suc n \<Longrightarrow> reseed_begin (sched st) = (won, s') \<Longrightarrow>
    sys_step io drv st (st\<lparr>reseeds := n, reseedsLocked := reseedsLocked st + (if won then 1 else 0), sched := s'\<rparr>)"
| reseed_body: "alive st \<Longrightarrow> reseedsLocked st = Suc n \<Longrightarrow> reseed_run io (sched st) (world st) = Some ((s', es), w') \<Longrightarrow>
    sys_step io drv st (emit es (st\<lparr>reseedsLocked := n, sched := s', world := w'\<rparr>))"
| admin: "alive st \<Longrightarrow> AdminHTTP io path (sched st) (world st) = (Some (code, body, es), w') \<Longrightarrow>
    sys_step io drv st (emit es (st\<lparr>world := w'\<rparr>))"

text \<open>The start: a fresh scheduler with the addresses that \<open>main\<close> sets, and nothing received.\<close>

definition sys_init :: "'w sys \<Rightarrow> bool" where
  "sys_init st \<longleftrightarrow>
     (\<exists>(io :: 'w World) n chill reseed auto uris single d c m r w s0 w' master exec name zc zr zs.
        NewEtcdScheduler io n chill reseed auto uris single d c m r w = (Some s0, w') \<and>
        sched st = s0\<lparr>Master := master, ExecutorPath := exec, FrameworkName := name, ZkConnect := zc,
          ZkChroot := zr, ZkServers := zs\<rparr>) \<and>
     launcher st = LIdle \<and> syncs st = [] \<and> timers st = [] \<and> arriving st = [] \<and> inserting st = [] \<and>
     reseeds st = 0 \<and> reseedsLocked st = 0 \<and> seen st = {} \<and> trace st = [] \<and> alive st"

interpretation sys: transition_system sys_init "sys_step io drv" for io drv .

definition reachable :: "'w World \<Rightarrow> 'w Driver \<Rightarrow> 'w sys \<Rightarrow> bool" where
  "reachable io drv st \<longleftrightarrow> (\<exists>st0. sys_init st0 \<and> (sys_step io drv)\<^sup>*\<^sup>* st0 st)"

lemma reachable_reach: "reachable io drv st = sys.reach io drv st"
  by (simp add: reachable_def sys.reach_def)

lemma NewEtcdScheduler_Some:
  assumes "NewEtcdScheduler io n ch reseed auto uris single d c m r w = (Some s0, w')"
  shows "running s0 = [] \<and> pending s0 = [] \<and> tasks s0 = [] \<and> New n single = Some (offerCache s0)"
  using assms by (auto simp: NewEtcdScheduler_def split_beta)

lemma New_empty: "New n single = Some oc \<Longrightarrow> offerSet oc = [] \<and> offerQueue oc = []"
  by (auto simp: New_def split: if_splits)

lemma sys_init_sched:
  assumes "sys_init st"
  shows "running (sched st) = [] \<and> pending (sched st) = [] \<and> tasks (sched st) = [] \<and>
    offerSet (offerCache (sched st)) = [] \<and> offerQueue (offerCache (sched st)) = [] \<and> oc_inv [] (offerCache (sched st))"
proof -
  obtain n single where n: "New n single = Some (offerCache (sched st))"
      "running (sched st) = []" "pending (sched st) = []" "tasks (sched st) = []"
    using assms by (fastforce simp: sys_init_def dest: NewEtcdScheduler_Some)
  from oc_inv_New [OF n(1)] New_empty [OF n(1)] n show ?thesis by simp
qed

lemma sys_init_rest:
  "sys_init st \<Longrightarrow> launcher st = LIdle \<and> arriving st = [] \<and> inserting st = [] \<and> seen st = {} \<and> trace st = []"
  by (simp add: sys_init_def)

lemma emit_simps [simp]:
  "sched (emit es st) = sched st" "launcher (emit es st) = launcher st" "arriving (emit es st) = arriving st"
  "inserting (emit es st) = inserting st" "reseedsLocked (emit es st) = reseedsLocked st"
  "seen (emit es st) = seen st" "world (emit es st) = world st" "trace (emit es st) = trace st @ es"
  "timers (emit es st) = timers st @ later_offers es"
  by (simp_all add: emit_def)

section \<open>The specification of the cluster view\<close>

text \<open>
  The abstract scheduler: running servers, pending launches and known tasks.  A contraction forgets
  a name, a running task is recorded, a (re)registration forgets the running servers, and a launch
  adds a pending name when none is pending.
\<close>

type_synonym view = "(string, Node) gomap \<times> (string, unit) gomap \<times> (string, string) gomap"

inductive view_step :: "view \<Rightarrow> view \<Rightarrow> bool" where
  view_lost: "view_step (r, p, t) (gm_del k r, gm_del k p, gm_del k t)"
| view_runs: "Parse tid = Inr n \<Longrightarrow>
    view_step (r, p, t)
      (if gm_has r (Name n) then (r, gm_del (Name n) p, t)
       else (gm_put (Name n) (n\<lparr>SlaveID := slave\<rparr>) r, gm_del (Name n) p, gm_put (Name n) tid t))"
| view_reset: "view_step (r, p, t) ([], p, t)"
| view_launch: "view_step (r, [], t) (r, gm_put k () [], t)"

lemma StatusUpdate_view:
  assumes "StatusUpdate io u s w = (s', w')"
  shows "cluster_view s' = cluster_view s \<or> view_step (cluster_view s) (cluster_view s')"
  using assms
proof (cases rule: StatusUpdate_cases)
  case (lost n)
  then show ?thesis
    using view_lost [of "running s" "pending s" "tasks s" "Name n"] by (simp add: cluster_view_def task_lost_fields)
next
  case (runs n)
  then show ?thesis
    using view_runs [OF runs(1), of "running s" "pending s" "tasks s" "status_slave u"]
      task_running_fields(1-3) [OF runs(3)]
    by (cases "gm_has (running s) (Name n)") (simp_all add: cluster_view_def)
qed (simp_all add: sched_frame)

lemma Initialize_view:
  "Initialize mi s = (s', es) \<Longrightarrow> view_step (cluster_view s) (cluster_view s')"
  using view_reset [of "running s" "pending s" "tasks s"] by (auto simp: Initialize_def cluster_view_def)

lemma Registered_view:
  assumes "Registered io fwid mi s w = ((s', es), w')"
  shows "cluster_view s' = cluster_view s \<or> view_step (cluster_view s) (cluster_view s')"
  using assms Initialize_view [of mi "s\<lparr>frameworkID := Some fwid\<rparr>" s' es]
  by (auto simp: Registered_def Let_def sched_frame split: if_splits prod.splits)

lemma reseed_frame:
  "reseed_begin s = (b, s') \<Longrightarrow> cluster_view s' = cluster_view s \<and> settings s' = settings s \<and> offerCache s' = offerCache s"
  "reseed_run io s w = Some ((s', es), w') \<Longrightarrow> cluster_view s' = cluster_view s \<and> settings s' = settings s \<and> offerCache s' = offerCache s"
  by (auto simp: reseed_begin_def reseed_run_def Let_def sched_frame split: if_splits prod.splits option.splits)

text \<open>The launcher leaves the view alone, except for the launch itself.\<close>

lemma launcher_step_view:
  assumes "launcher_step io c pc s w = Some ((pc', s', es), w')"
  shows "cluster_view s' = cluster_view s \<or> (\<exists>off k. pc = LLaunch off \<and>
     running s' = running s \<and> pending s' = gm_put k () (pending s) \<and> tasks s' = tasks s)"
  using assms
proof (cases pc)
  case (LLaunch off)
  then show ?thesis
    using assms
    by (auto split: prod.splits outcome.splits elim!: launch_task_ReturnsE)
qed (auto simp: sched_frame split: prod.splits option.splits bool.splits if_splits dest!: shouldLaunch_frame)

text \<open>After the second check nothing is pending until the launch.\<close>

definition launch_ready :: "'w sys \<Rightarrow> bool" where
  "launch_ready st \<longleftrightarrow> (\<forall>off. launcher st = LLaunch off \<longrightarrow> pending (sched st) = [])"

lemma shouldLaunch_ready: "shouldLaunch io s w = ((True, s', es), w') \<Longrightarrow> pending s' = []"
  using shouldLaunch_True(3,6) [of io s w s' es w'] by (simp add: sched_frame)

lemma launcher_step_ready:
  assumes "launcher_step io c pc s w = Some ((LLaunch off, s', es), w')"
  shows "pending s' = []"
  using assms
  by (cases pc) (auto simp: sched_frame split: prod.splits option.splits bool.splits if_splits outcome.splits
      dest!: shouldLaunch_ready)

lemma health_frame:
  "PeriodicHealthChecker io s w = (s', w') \<Longrightarrow> cluster_view s' = cluster_view s \<and> settings s' = settings s \<and> offerCache s' = offerCache s"
  by (auto simp: PeriodicHealthChecker_def Let_def sched_frame split: if_splits prod.splits)

lemma requestor_frame [sched_frame]:
  "cluster_view (PeriodicLaunchRequestor s) = cluster_view s" "settings (PeriodicLaunchRequestor s) = settings s"
  "offerCache (PeriodicLaunchRequestor s) = offerCache s"
  by (simp_all add: PeriodicLaunchRequestor_def Let_def sched_frame)

lemma other_frame [sched_frame]:
  "cluster_view (OfferRescinded i s) = cluster_view s" "settings (OfferRescinded i s) = settings s"
  "cluster_view (Disconnected s) = cluster_view s" "settings (Disconnected s) = settings s"
  "offerCache (Disconnected s) = offerCache s"
  by (simp_all add: OfferRescinded_def Disconnected_def sched_frame)

lemma cluster_view_pending: "cluster_view s' = cluster_view s \<Longrightarrow> pending s' = pending s"
  by (simp add: cluster_view_def)

lemma view_step_Nil: "view_step (r, [], t) (r', p', t') \<Longrightarrow> p' = [] \<or> (\<exists>k. p' = gm_put k () [])"
  by (auto elim!: view_step.cases split: if_splits simp: gm_del_def)

text \<open>One step of the process, seen from the view.\<close>

lemma sys_step_view:
  assumes "sys_step io drv st st'" "launch_ready st"
  shows "cluster_view (sched st') = cluster_view (sched st) \<or> view_step (cluster_view (sched st)) (cluster_view (sched st'))"
  using assms(1)
proof (cases rule: sys_step.cases)
  case (status u s' w')
  then show ?thesis using StatusUpdate_view [OF status(3)] by simp
next
  case (registered fwid mi s' es w')
  then show ?thesis using Registered_view [OF registered(3)] by simp
next
  case (reregistered mi s' es)
  then show ?thesis using Initialize_view [of mi "sched st" s' es] by (simp add: Reregistered_def)
next
  case (launcher c pc' s' es w')
  from launcher_step_view [OF launcher(3)] show ?thesis
  proof (elim disjE exE conjE)
    fix off k
    assume *: "launcher st = LLaunch off" "running s' = running (sched st)"
      "pending s' = gm_put k () (pending (sched st))" "tasks s' = tasks (sched st)"
    with assms(2) have "pending (sched st) = []" by (simp add: launch_ready_def)
    with * launcher(1) view_launch [of "running (sched st)" "tasks (sched st)" k] show ?thesis
      by (simp add: cluster_view_def)
  qed (use launcher in simp)
qed (auto simp: sched_frame dest: offer_insert_frame decline_later_frame sync_step_frame health_frame reseed_frame)

lemma register_pending:
  "Registered io fwid mi s w = ((s', es), w') \<Longrightarrow> pending s' = pending s"
  "Reregistered mi s = (s', es) \<Longrightarrow> pending s' = pending s"
  by (auto simp: Registered_def Reregistered_def Initialize_def Let_def split: if_splits prod.splits)

lemma frame_pending [sched_frame]:
  "pending (OfferRescinded i s) = pending s" "pending (Disconnected s) = pending s"
  "pending (PeriodicLaunchRequestor s) = pending s"
  by (intro cluster_view_pending; simp add: sched_frame)+

lemma launch_ready_step:
  assumes "sys_step io drv st st'" "launch_ready st"
  shows "launch_ready st'"
  using assms(1)
proof (cases rule: sys_step.cases)
  case (status u s' w')
  then show ?thesis
    using assms(2) StatusUpdate_pending [OF status(3)] by (auto simp: launch_ready_def gm_del_def)
next
  case (launcher c pc' s' es w')
  then show ?thesis by (auto simp: launch_ready_def dest: launcher_step_ready)
qed (use assms(2) in \<open>auto simp: launch_ready_def sched_frame dest!: register_pending
      offer_insert_frame(1) decline_later_frame(1) sync_step_frame health_frame reseed_frame cluster_view_pending\<close>)

lemma launch_ready_reachable: "reachable io drv st \<Longrightarrow> launch_ready st"
  unfolding reachable_reach
proof (induction rule: sys.reach_induct)
  case (init st)
  then show ?case by (simp add: launch_ready_def sys_init_def)
next
  case (step st st')
  then show ?case by (blast intro: launch_ready_step)
qed

text \<open>The invariants of the specification.\<close>

definition view_inv :: "view \<Rightarrow> bool" where
  "view_inv v \<longleftrightarrow>
     (case v of (r, p, t) \<Rightarrow>
        gm_ok r \<and> gm_ok p \<and> gm_ok t \<and> length p \<le> 1 \<and>
        (\<forall>k n. gm_get r k = Some n \<longrightarrow> Name n = k \<and> (\<exists>tid. gm_get t k = Some tid \<and> Parse tid = Inr (text_part n))) \<and>
        (\<forall>k tid. gm_get t k = Some tid \<longrightarrow> (\<exists>n. Parse tid = Inr n \<and> Name n = k)))"

lemma view_inv_cluster: "view_inv (cluster_view s) \<longleftrightarrow> cluster_inv s \<and> length (pending s) \<le> 1"
  by (auto simp: view_inv_def cluster_view_def cluster_inv_def)

lemma view_inv_step:
  assumes "view_step v v'" "view_inv v"
  shows "view_inv v'"
  using assms(1)
proof cases
  case (view_lost r p t k)
  then show ?thesis using assms(2) gm_len_del_le [of k p] by (auto simp: view_inv_def go_map)
next
  case (view_runs tid n r p t slave)
  have "text_part (n\<lparr>SlaveID := slave\<rparr>) = n"
    using Parse_text_part [OF view_runs(3)] by (simp add: text_part_def)
  then show ?thesis
    using view_runs assms(2) gm_len_del_le [of "Name n" p] by (auto simp: view_inv_def go_map)
next
  case (view_reset r p t)
  then show ?thesis using assms(2) by (auto simp: view_inv_def)
next
  case (view_launch r t k)
  then show ?thesis using assms(2) by (auto simp: view_inv_def go_map gm_len_put)
qed

lemma view_inv_reachable: "reachable io drv st \<Longrightarrow> view_inv (cluster_view (sched st))"
  unfolding reachable_reach
proof (induction rule: sys.reach_induct)
  case (init st)
  then show ?case by (auto simp: view_inv_def cluster_view_def dest!: sys_init_sched)
next
  case (step st st')
  then have "sys_step io drv st st'" "launch_ready st"
    using launch_ready_reachable [of io drv st] by (simp_all add: reachable_reach)
  from sys_step_view [OF this] step.IH show ?case by (metis view_inv_step)
qed

section \<open>Offers\<close>

text \<open>The offers an effect answers.\<close>

fun answers :: "effect \<Rightarrow> string list" where
  "answers (DeclineOffer i _) = [i]"
| "answers (LaunchTasks is _ _) = is"
| "answers _ = []"

definition answered :: "effect list \<Rightarrow> string list" where
  "answered es = concat (map answers es)"

text \<open>The offer the launcher has received from the channel, and the offer it has taken.\<close>

fun in_check :: "launcher_pc \<Rightarrow> Offer list" where
  "in_check (LCheck off) = [off]"
| "in_check _ = []"

fun taken :: "launcher_pc \<Rightarrow> Offer list" where
  "taken (LValid off) = [off]"
| "taken (LAgain off) = [off]"
| "taken (LLaunch off) = [off]"
| "taken _ = []"

text \<open>
  Where an offer can be: answered, still in a \<open>ResourceOffers\<close> call, taken by the launcher, or in the
  cache, whose keys are among the offers of its channel.  The four are disjoint and contain only
  offers that were received; offers that are not in the cache yet are not in its channel either.
\<close>

definition places ::
    "string list \<Rightarrow> string list \<Rightarrow> string list \<Rightarrow> string set \<Rightarrow> string set \<Rightarrow> string set \<Rightarrow> bool" where
  "places ans fresh hand keys chan known \<longleftrightarrow>
     distinct (ans @ fresh @ hand) \<and> set (ans @ fresh @ hand) \<inter> keys = {} \<and>
     set (ans @ fresh @ hand) \<union> chan \<subseteq> known \<and> set fresh \<inter> chan = {} \<and> keys \<subseteq> chan"

lemma places_receive:
  "places A F H K C S \<Longrightarrow> distinct N \<Longrightarrow> set N \<inter> S = {} \<Longrightarrow> places A (F @ N) H K C (S \<union> set N)"
  by (auto simp: places_def)

lemma places_answer: "places A (F1 @ i # F2) H K C S \<Longrightarrow> places (A @ [i]) (F1 @ F2) H K C S"
  by (auto simp: places_def)

lemma places_cache:
  "places A (i # F) H K C S \<Longrightarrow> C' \<subseteq> insert i C \<Longrightarrow> insert i K \<subseteq> C' \<Longrightarrow> places A F H (insert i K) C' S"
  by (auto simp: places_def)

lemma places_rescind: "places A F H K C S \<Longrightarrow> K' \<subseteq> K \<Longrightarrow> places A F H K' C S"
  by (auto simp: places_def)

lemma places_expire: "places A F H K C S \<Longrightarrow> i \<in> K \<Longrightarrow> places (A @ [i]) F H (K - {i}) C S"
  by (auto simp: places_def)

lemma places_take:
  "places A F [] K C S \<Longrightarrow> i \<in> K \<Longrightarrow> C' \<subseteq> C \<Longrightarrow> K - {i} \<subseteq> C' \<Longrightarrow> places A F [i] (K - {i}) C' S"
  by (auto simp: places_def)

lemma places_drop: "places A F [i] K C S \<Longrightarrow> places (A @ [i]) F [] K C S"
  by (auto simp: places_def)

lemma places_chan: "places A F H K C S \<Longrightarrow> C' \<subseteq> C \<Longrightarrow> K \<subseteq> C' \<Longrightarrow> places A F H K C' S"
  by (auto simp: places_def)

definition chan_ids :: "launcher_pc \<Rightarrow> OfferCache \<Rightarrow> string set" where
  "chan_ids pc oc = offer_id ` set (in_check pc @ offerQueue oc)"

definition offers_inv :: "'w sys \<Rightarrow> bool" where
  "offers_inv st \<longleftrightarrow>
     places (answered (trace st)) (map offer_id (inserting st @ arriving st)) (map offer_id (taken (launcher st)))
       (gm_keys (offerSet (offerCache (sched st)))) (chan_ids (launcher st) (offerCache (sched st))) (seen st) \<and>
     oc_inv (in_check (launcher st)) (offerCache (sched st))"

lemma answered_simps [simp]:
  "answered [] = []" "answered (es @ es') = answered es @ answered es'" "answered (e # es) = answers e @ answered es"
  "answers (decline s off) = [offer_id off]"
  by (simp_all add: answered_def decline_def)

lemma answered_NilI: "(\<And>e. e \<in> set es \<Longrightarrow> answers e = []) \<Longrightarrow> answered es = []"
  by (simp add: answered_def)

text \<open>Steps that neither touch the cache nor answer an offer.\<close>

lemma offers_inv_cong:
  assumes "offers_inv st" "answered (trace st') = answered (trace st)" "offerCache (sched st') = offerCache (sched st)"
    and "launcher st' = launcher st" "arriving st' = arriving st" "inserting st' = inserting st" "seen st' = seen st"
  shows "offers_inv st'"
  using assms by (simp add: offers_inv_def)

lemma keys_in_chan: "oc_inv (in_check pc) oc \<Longrightarrow> gm_keys (offerSet oc) \<subseteq> chan_ids pc oc"
  by (force simp: oc_inv_def gm_keys_def chan_ids_def)

lemma offers_inv_offers:
  assumes "offers_inv st" "distinct (map offer_id offs)" "offer_id ` set offs \<inter> seen st = {}"
  shows "offers_inv (st\<lparr>arriving := arriving st @ offs, seen := seen st \<union> offer_id ` set offs\<rparr>)"
  using assms places_receive [of _ "map offer_id (inserting st @ arriving st)" _ _ _ _ "map offer_id offs"]
  by (simp add: offers_inv_def)

lemma offers_inv_refused:
  assumes "offers_inv st" "arriving st = off # rest"
  shows "offers_inv (emit [decline (sched st) off] (st\<lparr>arriving := rest\<rparr>))"
  using assms places_answer [of _ "map offer_id (inserting st)" "offer_id off" "map offer_id rest"]
  by (simp add: offers_inv_def)

lemma offers_inv_passed:
  assumes "offers_inv st" "arriving st = off # rest"
  shows "offers_inv (st\<lparr>arriving := rest, inserting := inserting st @ [off]\<rparr>)"
  using assms by (simp add: offers_inv_def)

lemma offers_inv_inserted:
  assumes "offers_inv st" "inserting st = off # rest" "offer_insert (sched st) off = (s', es)"
  shows "offers_inv (emit es (st\<lparr>inserting := rest, sched := s'\<rparr>))"
proof -
  let ?pc = "launcher st" and ?oc = "offerCache (sched st)" and ?F = "map offer_id (rest @ arriving st)"
  have inv: "oc_inv (in_check ?pc) ?oc"
    and P: "places (answered (trace st)) (offer_id off # ?F) (map offer_id (taken ?pc))
      (gm_keys (offerSet ?oc)) (chan_ids ?pc ?oc) (seen st)"
    using assms(1,2) by (simp_all add: offers_inv_def)
  then have new: "offer_id off \<notin> offer_id ` set (in_check ?pc @ offerQueue ?oc)"
    by (auto simp: places_def chan_ids_def)
  have answer: ?thesis if "offerCache s' = ?oc" "es = [decline (sched st) off]"
    using places_answer [of _ "[]", simplified, OF P] inv that by (simp add: offers_inv_def)
  from assms(3) show ?thesis
  proof (cases rule: offer_insert_cases)
    case (cached oc)
    from inv new show ?thesis
    proof (cases rule: Push_cases)
      case (cached q)
      let ?oc' = "?oc\<lparr>offerSet := gm_put (offer_id off) off (offerSet ?oc), offerQueue := q @ [off]\<rparr>"
      have inv': "oc_inv (in_check ?pc) ?oc'" using cached by simp
      have "chan_ids ?pc ?oc' \<subseteq> insert (offer_id off) (chan_ids ?pc ?oc)"
        using set_mset_mono [OF cached(5)] by (auto simp: chan_ids_def)
      from places_cache [OF P this] keys_in_chan [OF inv'] inv'
      show ?thesis
        using cached(1) \<open>Push off ?oc = (True, oc)\<close> \<open>offerCache s' = oc\<close> \<open>es = [GoDeclineLater off]\<close>
        by (auto simp: offers_inv_def go_map)
    qed (use \<open>Push off ?oc = (True, oc)\<close> in simp)
  next
    case (refused oc)
    from inv new have "oc = ?oc" by (cases rule: Push_cases) (use refused(1) in auto)
    with refused answer show ?thesis by simp
  qed (use answer in simp)
qed

lemma chan_ids_Rescind [simp]: "chan_ids pc (snd (Rescind i oc)) = chan_ids pc oc"
  by (simp add: chan_ids_def Rescind_def)

lemma keys_Rescind [simp]: "gm_keys (offerSet (snd (Rescind i oc))) = gm_keys (offerSet oc) - {i}"
  by (simp add: Rescind_def go_map)

lemma offers_inv_timer:
  assumes "offers_inv st" "decline_later off (sched st) = (s', es)"
  shows "offers_inv (emit es (st\<lparr>timers := ts, sched := s'\<rparr>))"
proof -
  let ?oc = "offerCache (sched st)"
  have s': "offerCache s' = snd (Rescind (offer_id off) ?oc)"
    and es: "es = (if offer_id off \<in> gm_keys (offerSet ?oc) then [decline (sched st) off] else [])"
    using assms(2) by (auto simp: decline_later_def Rescind_def gm_has_iff)
  show ?thesis
    using assms(1) oc_inv_Rescind [of "in_check (launcher st)" ?oc "offer_id off"]
      places_expire [of _ _ _ "gm_keys (offerSet ?oc)" _ _ "offer_id off"]
    by (auto simp: offers_inv_def s' es)
qed

lemma offers_inv_rescinded:
  assumes "offers_inv st"
  shows "offers_inv (st\<lparr>sched := OfferRescinded i (sched st)\<rparr>)"
  using assms oc_inv_Rescind [of "in_check (launcher st)" "offerCache (sched st)" i]
    places_rescind [of _ _ _ "gm_keys (offerSet (offerCache (sched st)))"]
  by (simp add: offers_inv_def OfferRescinded_def)

lemma places_forget: "places A F [i] K C S \<Longrightarrow> places A F [] K C S"
  by (auto simp: places_def)

lemma reseed_effects_silent: "set es \<subseteq> {GoReseed} \<Longrightarrow> answered es = []"
  by (rule answered_NilI) auto

lemma offers_inv_launcher:
  assumes "offers_inv st" "launcher_step io c (launcher st) (sched st) w = Some ((pc', s', es), w')"
  shows "offers_inv (emit es (st\<lparr>launcher := pc', sched := s', world := w', alive := a\<rparr>))"
proof (cases "launcher st")
  case LShould
  with assms show ?thesis
    by (auto simp: offers_inv_def chan_ids_def reseed_effects_silent split: prod.splits bool.splits dest!: shouldLaunch_frame)
next
  case LPop
  with assms(2) obtain off oc where r: "pop_recv (offerCache (sched st)) = Some (off, oc)"
      "pc' = LCheck off" "s' = sched st\<lparr>offerCache := oc\<rparr>" "es = []"
    by (auto split: option.splits)
  moreover have "chan_ids (LCheck off) oc = chan_ids LPop (offerCache (sched st))"
    using r(1) by (auto simp: pop_recv_def chan_ids_def split: list.splits)
  ultimately show ?thesis
    using assms(1) LPop oc_inv_pop_recv [OF _ r(1), of "[]"] pop_recv_frame [OF r(1)] by (simp add: offers_inv_def)
next
  case (LCheck off)
  let ?oc = "offerCache (sched st)"
  obtain b oc where p: "pop_check off ?oc = (b, oc)" by fastforce
  have inv: "oc_inv [off] ?oc" using assms(1) LCheck by (simp add: offers_inv_def)
  have inv': "oc_inv [] oc" by (rule oc_inv_pop_check [OF inv p])
  have q: "offerQueue oc = offerQueue ?oc" using p by (auto simp: pop_check_def split: if_splits)
  have sub: "chan_ids pc oc \<subseteq> chan_ids (LCheck off) ?oc" if "in_check pc = []" for pc
    using that q by (auto simp: chan_ids_def)
  show ?thesis
  proof (cases b)
    case True
    with p have k: "offer_id off \<in> gm_keys (offerSet ?oc)" "gm_keys (offerSet oc) = gm_keys (offerSet ?oc) - {offer_id off}"
      by (auto simp: pop_check_def gm_has_iff go_map split: if_splits)
    have "gm_keys (offerSet oc) \<subseteq> chan_ids (LValid off) oc" using keys_in_chan [of "LValid off"] inv' by simp
    with places_take [OF _ k(1) sub [of "LValid off"]] k(2) assms LCheck p True inv' show ?thesis
      by (auto simp: offers_inv_def)
  next
    case False
    with p have "oc = ?oc" by (auto simp: pop_check_def split: if_splits)
    moreover have "gm_keys (offerSet oc) \<subseteq> chan_ids LPop oc" using keys_in_chan [of LPop] inv' by simp
    ultimately show ?thesis
      using places_chan [OF _ sub [of LPop]] assms LCheck p False inv' by (auto simp: offers_inv_def)
  qed
next
  case (LValid off)
  with assms show ?thesis
    by (auto simp: offers_inv_def chan_ids_def intro: places_drop split: if_splits)
next
  case (LAgain off)
  with assms show ?thesis
    by (auto simp: offers_inv_def chan_ids_def reseed_effects_silent intro: places_drop
        split: prod.splits bool.splits dest!: shouldLaunch_frame)
next
  case (LLaunch off)
  obtain r w1 where l: "launch_task io (sched st) off w = (r, w1)" by fastforce
  show ?thesis
  proof (cases r)
    case (Returns x)
    obtain s1 es1 where x: "x = (s1, es1)" by fastforce
    from l Returns x have "launch_task io (sched st) off w = (Returns (s1, es1), w1)" by simp
    then have "offerCache s1 = offerCache (sched st)" "answered es1 = [offer_id off]"
      by (auto elim!: launch_task_ReturnsE)
    with assms LLaunch l Returns x show ?thesis
      by (auto simp: offers_inv_def chan_ids_def intro: places_drop)
  next
    case Panics
    with assms LLaunch l show ?thesis
      by (auto simp: offers_inv_def chan_ids_def intro: places_forget)
  qed
qed (use assms in \<open>auto simp: offers_inv_def chan_ids_def split: if_splits prod.splits option.splits\<close>)

lemma silent_effects:
  "Registered io fwid mi s w = ((s', es), w') \<Longrightarrow> answered es = [] \<and> offerCache s' = offerCache s"
  "Reregistered mi s = (s', es) \<Longrightarrow> answered es = [] \<and> offerCache s' = offerCache s"
  "sched_Error io msg s w = (es, w') \<Longrightarrow> answered es = []"
  "AdminHTTP io path s w = (Some (code, body, es), w') \<Longrightarrow> answered es = []"
  "answered (PeriodicReconciler s) = []"
  by (auto simp: Registered_def Reregistered_def Initialize_def sched_Error_def AdminHTTP_def PeriodicReconciler_def
      Let_def split: if_splits prod.splits)

lemma sync_silent: "sync_step io drv pc s w = ((pc', s', es), w') \<Longrightarrow> answered es = []"
  by (rule answered_NilI) (auto dest: sync_step_effects)

lemma reseed_silent: "reseed_run io s w = Some ((s', es), w') \<Longrightarrow> answered es = []"
  by (rule answered_NilI)
     (auto simp: reseed_run_def reseed_kills_def Let_def split: prod.splits option.splits if_splits)

lemma offers_inv_step:
  assumes "sys_step io drv st st'" "offers_inv st"
  shows "offers_inv st'"
  using assms(1)
proof (cases rule: sys_step.cases)
  case (status u s' w')
  with assms(2) StatusUpdate_frame(1) [OF status(3)] show ?thesis by (auto intro: offers_inv_cong)
next
  case (sync xs pc ys pc' s' es w')
  with assms(2) sync_step_frame [OF sync(5)] sync_silent [OF sync(5)] show ?thesis by (auto intro: offers_inv_cong)
next
  case (reseed_body n s' es w')
  with assms(2) reseed_frame(2) [OF reseed_body(4)] reseed_silent [OF reseed_body(4)] show ?thesis
    by (auto intro: offers_inv_cong)
next
  case (launcher c pc' s' es w')
  with assms(2) show ?thesis by (simp add: offers_inv_launcher)
next
  case (health_checker s' w')
  with assms(2) health_frame [OF health_checker(3)] show ?thesis by (auto intro: offers_inv_cong)
next
  case (reseed_cas n won s')
  with assms(2) reseed_frame(1) [OF reseed_cas(4)] show ?thesis by (auto intro: offers_inv_cong)
qed (use assms(2) in \<open>auto intro: offers_inv_cong offers_inv_offers offers_inv_refused offers_inv_passed
      offers_inv_inserted offers_inv_timer offers_inv_rescinded
      simp: sched_frame silent_effects dest: silent_effects(1,2,3,4)\<close>)

lemma offers_inv_reachable: "reachable io drv st \<Longrightarrow> offers_inv st"
  unfolding reachable_reach
proof (induction rule: sys.reach_induct)
  case (init st)
  from sys_init_sched [OF init] sys_init_rest [OF init] show ?case
    by (simp add: offers_inv_def places_def chan_ids_def)
next
  case (step st st')
  then show ?case by (blast intro: offers_inv_step)
qed

section \<open>The launcher does not panic\<close>

lemma launcher_step_settings:
  assumes "launcher_step io c pc s w = Some ((pc', s', es), w')"
  shows "settings s' = settings s"
  using assms
proof (cases pc)
  case (LLaunch off)
  with assms show ?thesis by (auto split: prod.splits outcome.splits elim!: launch_task_ReturnsE)
qed (auto simp: sched_frame split: prod.splits option.splits bool.splits if_splits dest!: shouldLaunch_frame)

lemma register_settings:
  "Registered io fwid mi s w = ((s', es), w') \<Longrightarrow> settings s' = settings s"
  "Reregistered mi s = (s', es) \<Longrightarrow> settings s' = settings s"
  by (auto simp: Registered_def Reregistered_def Initialize_def Let_def sched_frame split: if_splits prod.splits)

lemma sys_step_settings:
  assumes "sys_step io drv st st'"
  shows "settings (sched st') = settings (sched st)"
  using assms
  by (cases rule: sys_step.cases)
     (auto simp: sched_frame dest: launcher_step_settings register_settings StatusUpdate_frame(2)
       offer_insert_frame(2) decline_later_frame(2) sync_step_frame health_frame reseed_frame)

text \<open>Every offer in the channel or in the hands of the launcher is sufficient.\<close>

definition channel_offers :: "launcher_pc \<Rightarrow> OfferCache \<Rightarrow> Offer set" where
  "channel_offers pc oc = set (in_check pc @ taken pc @ offerQueue oc)"

lemma launcher_channel:
  assumes "launcher_step io c pc s w = Some ((pc', s', es), w')"
  shows "channel_offers pc' (offerCache s') \<subseteq> channel_offers pc (offerCache s)"
  using assms
proof (cases pc)
  case (LLaunch off)
  with assms show ?thesis
    by (auto simp: channel_offers_def split: prod.splits outcome.splits elim!: launch_task_ReturnsE)
next
  case LPop
  with assms show ?thesis
    by (auto simp: channel_offers_def pop_recv_def split: option.splits list.splits)
next
  case (LCheck off)
  with assms show ?thesis
    by (auto simp: channel_offers_def pop_check_def split: prod.splits bool.splits if_splits)
qed (auto simp: channel_offers_def split: prod.splits option.splits bool.splits if_splits dest!: shouldLaunch_frame)

lemma sys_step_channel:
  assumes "sys_step io drv st st'"
  shows "channel_offers (launcher st') (offerCache (sched st')) \<subseteq>
    channel_offers (launcher st) (offerCache (sched st)) \<union> {off. offer_sufficient (sched st) off}"
  using assms
proof (cases rule: sys_step.cases)
  case (offer_inserted off rest s' es)
  from offer_inserted(4) show ?thesis
    by (cases rule: offer_insert_cases) (use offer_inserted in \<open>auto simp: channel_offers_def dest!: Push_queue\<close>)
next
  case (timer xs off ys s' es)
  then show ?thesis by (auto simp: channel_offers_def decline_later_def Rescind_def)
next
  case (rescinded i)
  then show ?thesis by (auto simp: channel_offers_def OfferRescinded_def Rescind_def)
next
  case (launcher c pc' s' es w')
  then show ?thesis using launcher_channel [OF launcher(3)] by auto
qed (auto simp: sched_frame channel_offers_def dest: silent_effects(1,2) StatusUpdate_frame(1) sync_step_frame health_frame reseed_frame)

definition usable_inv :: "'w sys \<Rightarrow> bool" where
  "usable_inv st \<longleftrightarrow>
     (\<forall>off \<in> channel_offers (launcher st) (offerCache (sched st)). offer_sufficient (sched st) off) \<and> launcher st \<noteq> LPanic"

lemma usable_inv_step:
  assumes "sys_step io drv st st'" "usable_inv st"
  shows "usable_inv st'"
proof -
  have "offer_sufficient (sched st') = offer_sufficient (sched st)"
    by (rule offer_sufficient_cong) (rule sys_step_settings [OF assms(1)])
  then have "\<forall>off \<in> channel_offers (launcher st') (offerCache (sched st')). offer_sufficient (sched st') off"
    using sys_step_channel [OF assms(1)] assms(2) by (auto simp: usable_inv_def)
  moreover have "launcher st' \<noteq> LPanic"
    using assms(1)
  proof (cases rule: sys_step.cases)
    case (launcher c pc' s' es w')
    have "pc' \<noteq> LPanic"
    proof (cases "launcher st")
      case (LLaunch off)
      then have "ports (parseOffer off) \<noteq> []"
        using assms(2) by (intro offer_sufficient_ports [of "sched st"]) (auto simp: usable_inv_def channel_offers_def)
      from launch_task_ok [OF this, of io "sched st" "world st"] launcher(3) LLaunch show ?thesis
        by (auto split: prod.splits outcome.splits)
    qed (use launcher(3) assms(2) in \<open>auto simp: usable_inv_def split: prod.splits option.splits bool.splits if_splits\<close>)
    with launcher show ?thesis by simp
  qed (use assms(2) in \<open>auto simp: usable_inv_def\<close>)
  ultimately show ?thesis by (simp add: usable_inv_def)
qed

lemma usable_inv_reachable: "reachable io drv st \<Longrightarrow> usable_inv st"
  unfolding reachable_reach
proof (induction rule: sys.reach_induct)
  case (init st)
  from sys_init_sched [OF init] sys_init_rest [OF init] show ?case
    by (simp add: usable_inv_def channel_offers_def)
next
  case (step st st')
  then show ?case by (blast intro: usable_inv_step)
qed

section \<open>Fresh names\<close>

text \<open>The names the scheduler knows have no larger index than its counter.\<close>

definition known_names :: "EtcdScheduler \<Rightarrow> string set" where
  "known_names s = gm_keys (running s) \<union> gm_keys (pending s) \<union> gm_keys (tasks s)"

definition ids_below :: "EtcdScheduler \<Rightarrow> bool" where
  "ids_below s \<longleftrightarrow> 0 \<le> highestInstanceID s \<and>
     (\<forall>k \<in> known_names s. \<forall>i. etcd_index k = Some i \<longrightarrow> i \<le> highestInstanceID s)"

lemma etcd_index_name: "0 \<le> i \<Longrightarrow> i < 2 ^ 63 \<Longrightarrow> etcd_index (''etcd-'' @ fmt_int i) = Some i"
proof -
  assume i: "0 \<le> i" "i < 2 ^ 63"
  have "CHR ''-'' \<notin> set (fmt_int i)"
    using i by (auto simp: fmt_int_nonneg dest!: fmt_nat_digits is_digit_not_sign)
  then have "Split (''etcd'' @ CHR ''-'' # fmt_int i) CHR ''-'' = [''etcd'', fmt_int i]"
    by (subst Split_pair) (simp_all add: Split_single)
  then show ?thesis using i by (simp add: etcd_index_def ParseInt_fmt_int)
qed

lemma etcd_index_range: "etcd_index k = Some i \<Longrightarrow> i < 2 ^ 63"
  by (auto simp: etcd_index_def Let_def dest: ParseInt_range split: if_splits)

lemma launch_names:
  assumes "launch_task io s off w = (Returns (s', es), w')"
  shows "known_names s' = insert (''etcd-'' @ fmt_int (highestInstanceID s')) (known_names s)"
    "pending s' = gm_put (''etcd-'' @ fmt_int (highestInstanceID s')) () (pending s)"
  by (rule launch_task_ReturnsE [OF assms]; auto simp: known_names_def go_map new_node_def)+

lemma launch_index:
  assumes "launch_task io s off w = (Returns (s', es), w')" "0 \<le> highestInstanceID s'"
  shows "etcd_index (''etcd-'' @ fmt_int (highestInstanceID s')) = Some (highestInstanceID s')"
proof (rule etcd_index_name [OF assms(2)])
  show "highestInstanceID s' < 2 ^ 63"
    by (rule launch_task_ReturnsE [OF assms(1)]) (use wrap64_range in auto)
qed

lemma ids_below_mono:
  assumes "ids_below s" "known_names s' \<subseteq> known_names s" "highestInstanceID s \<le> highestInstanceID s'"
  shows "ids_below s'"
  using assms unfolding ids_below_def by (meson order.trans subsetD)

lemma ids_below_launch:
  assumes "ids_below s" "launch_task io s off w = (Returns (s', es), w')" "highestInstanceID s \<le> highestInstanceID s'"
  shows "ids_below s'"
  using assms launch_names(1) [OF assms(2)] launch_index [OF assms(2)]
  unfolding ids_below_def by (auto intro: order.trans)

lemma ids_below_runs:
  assumes "ids_below s" "task_running io tid slave node s w = (s', w')" "highestInstanceID s \<le> highestInstanceID s'"
  shows "ids_below s'"
proof -
  have names: "known_names s' \<subseteq> insert (Name node) (known_names s)"
    by (auto simp: known_names_def task_running_fields [OF assms(2)] go_map)
  have "i \<le> highestInstanceID s'" if i: "etcd_index (Name node) = Some i" for i
  proof (cases "highestInstanceID s < i")
    case True
    then have h: "highestInstanceID s' = wrap64 (i + 1)" using i by (simp add: task_running_fields(9) [OF assms(2)])
    have "i + 1 < 2 ^ 63"
    proof (rule ccontr)
      assume "\<not> i + 1 < 2 ^ 63"
      then have "i + 1 = 2 ^ 63" using etcd_index_range [OF i] by simp
      then have "wrap64 (i + 1) < 0" by (simp add: wrap64_def)
      with h assms(1,3) show False by (simp add: ids_below_def)
    qed
    then show ?thesis using h True assms(1) by (simp add: wrap64_id ids_below_def)
  next
    case False
    with assms(3) show ?thesis by simp
  qed
  moreover have "i \<le> highestInstanceID s'" if "k \<in> known_names s" "etcd_index k = Some i" for k i
    using that assms(1,3) by (force simp: ids_below_def)
  ultimately have "i \<le> highestInstanceID s'" if "k \<in> known_names s'" "etcd_index k = Some i" for k i
    using that names by blast
  then show ?thesis using assms(1,3) by (simp add: ids_below_def)
qed

lemma ids_below_status:
  assumes "ids_below s" "StatusUpdate io u s w = (s', w')" "highestInstanceID s \<le> highestInstanceID s'"
  shows "ids_below s'"
  using assms(2)
proof (cases rule: StatusUpdate_cases)
  case (lost n)
  then show ?thesis
    using assms(1,3) by (intro ids_below_mono [OF assms(1)]) (auto simp: known_names_def task_lost_fields go_map)
next
  case (runs n)
  let ?s = "s\<lparr>heardFrom := gm_put (task_id u) () (heardFrom s)\<rparr>"
  have "ids_below ?s" using assms(1) by (simp add: ids_below_def known_names_def)
  from ids_below_runs [OF this runs(3)] assms(3) show ?thesis by simp
qed (use assms in \<open>auto simp: ids_below_def known_names_def\<close>)

lemma known_names_view: "cluster_view s' = cluster_view s \<Longrightarrow> known_names s' = known_names s"
  by (simp add: cluster_view_def known_names_def)

lemma ids_below_view:
  "ids_below s \<Longrightarrow> cluster_view s' = cluster_view s \<Longrightarrow> highestInstanceID s \<le> highestInstanceID s' \<Longrightarrow> ids_below s'"
  using ids_below_mono [of s s'] known_names_view [of s' s] by simp

lemma register_names:
  "Registered io fwid mi s w = ((s', es), w') \<Longrightarrow> known_names s' \<subseteq> known_names s"
  "Reregistered mi s = (s', es) \<Longrightarrow> known_names s' \<subseteq> known_names s"
  by (auto simp: Registered_def Reregistered_def Initialize_def Let_def known_names_def split: if_splits prod.splits)

text \<open>The steps in which the counter does not wrap around.\<close>

definition steady_step :: "'w World \<Rightarrow> 'w Driver \<Rightarrow> 'w sys \<Rightarrow> 'w sys \<Rightarrow> bool" where
  "steady_step io drv st st' \<longleftrightarrow>
     sys_step io drv st st' \<and> highestInstanceID (sched st) \<le> highestInstanceID (sched st')"

lemma ids_below_step:
  assumes "steady_step io drv st st'" "ids_below (sched st)"
  shows "ids_below (sched st')"
proof -
  have mono: "highestInstanceID (sched st) \<le> highestInstanceID (sched st')" and step: "sys_step io drv st st'"
    using assms(1) by (simp_all add: steady_step_def)
  note same = ids_below_view [OF assms(2) _ mono] and fewer = ids_below_mono [OF assms(2) _ mono]
  from step show ?thesis
  proof (cases rule: sys_step.cases)
    case (status u s' w')
    with ids_below_status [OF assms(2) status(3)] mono show ?thesis by simp
  next
    case (registered fwid mi s' es w')
    with register_names(1) [OF registered(3)] show ?thesis by (intro fewer) simp
  next
    case (reregistered mi s' es)
    with register_names(2) [OF reregistered(3)] show ?thesis by (intro fewer) simp
  next
    case (launcher c pc' s' es w')
    show ?thesis
    proof (cases "cluster_view s' = cluster_view (sched st)")
      case True
      with launcher show ?thesis by (intro same) simp
    next
      case False
      with launcher_step_view [OF launcher(3)] obtain off where off: "launcher st = LLaunch off" by blast
      with launcher(3) False obtain w1 where "launch_task io (sched st) off (world st) = (Returns (s', es), w1)"
        by (auto split: prod.splits outcome.splits)
      from ids_below_launch [OF assms(2) this] mono launcher(1) show ?thesis by simp
    qed
  qed (rule same; auto simp: sched_frame dest: offer_insert_frame decline_later_frame sync_step_frame health_frame reseed_frame)+
qed

interpretation steady: transition_system
  "\<lambda>st. sys_init st \<and> 0 \<le> highestInstanceID (sched st)" "steady_step io drv" for io drv .

lemma ids_below_steady: "steady.reach io drv st \<Longrightarrow> ids_below (sched st)"
proof (induction rule: steady.reach_induct)
  case (init st)
  then show ?case using sys_init_sched [of st] by (simp add: ids_below_def known_names_def)
next
  case (step st st')
  then show ?case by (blast intro: ids_below_step)
qed

section \<open>Properties\<close>

text \<open>
  C8 (refinement): every step of the process, in any interleaving, leaves the cluster view as it is or
  is a step of the abstract scheduler: a name is forgotten, a running task is recorded, the running
  servers are reset, or one launch becomes pending when none was.
\<close>

theorem sys_refines_view:
  assumes "reachable io drv st" "sys_step io drv st st'"
  shows "cluster_view (sched st') = cluster_view (sched st) \<or>
    view_step (cluster_view (sched st)) (cluster_view (sched st'))"
  by (rule sys_step_view [OF assms(2) launch_ready_reachable [OF assms(1)]])

text \<open>
  C7 (invariant): in every reachable state each running server is stored under its own name and has a
  task whose identifier reads back as this server, and every known task is stored under the name in
  its identifier.
\<close>

theorem cluster_inv_holds:
  assumes "reachable io drv st"
  shows "cluster_inv (sched st)"
  using view_inv_reachable [OF assms] by (simp add: view_inv_cluster)

text \<open>At most one launch is pending at any time.\<close>

lemma one_pending_launch:
  assumes "reachable io drv st"
  shows "length (pending (sched st)) \<le> 1"
  using view_inv_reachable [OF assms] by (simp add: view_inv_cluster)

text \<open>
  C6 (safety): no offer is answered twice: the offers declined or used by a launch are distinct, they
  were received, and none of them is still in the cache.
\<close>

theorem offers_answered_once:
  assumes "reachable io drv st"
  shows "distinct (answered (trace st)) \<and> set (answered (trace st)) \<subseteq> seen st \<and>
    set (answered (trace st)) \<inter> gm_keys (offerSet (offerCache (sched st))) = {}"
  using offers_inv_reachable [OF assms] by (auto simp: offers_inv_def places_def)

text \<open>
  The launcher never panics on an offer without ports, because every offer it takes was
  checked for its resources when it was cached.
\<close>

lemma launcher_never_panics:
  assumes "reachable io drv st"
  shows "launcher st \<noteq> LPanic \<and>
    (\<forall>off. launcher st = LLaunch off \<longrightarrow> offer_sufficient (sched st) off \<and>
       (\<exists>r w'. launch_task io (sched st) off (world st) = (Returns r, w')))"
proof -
  have inv: "usable_inv st" by (rule usable_inv_reachable [OF assms])
  show ?thesis
  proof (intro conjI allI impI)
    show "launcher st \<noteq> LPanic" using inv by (simp add: usable_inv_def)
    fix off assume "launcher st = LLaunch off"
    then show suff: "offer_sufficient (sched st) off" using inv by (simp add: usable_inv_def channel_offers_def)
    show "\<exists>r w'. launch_task io (sched st) off (world st) = (Returns r, w')"
      by (rule launch_task_ok [OF offer_sufficient_ports [OF suff]])
  qed
qed

text \<open>
  The offer cache never holds more offers than instances are wanted, nor does its channel.
\<close>

lemma cache_bounded:
  assumes "reachable io drv st"
  shows "oc_Len (offerCache (sched st)) \<le> maxOffers (offerCache (sched st)) \<and>
    length (offerQueue (offerCache (sched st))) \<le> maxOffers (offerCache (sched st))"
  using offers_inv_reachable [OF assms] by (auto simp: offers_inv_def oc_inv_def oc_Len_def)


section \<open>Witnesses\<close>

definition demo_driver :: "nat Driver" where
  "demo_driver = \<lparr>drv_ReconcileTasks = (\<lambda>_ w. (None, w))\<rparr>"

definition demo_start :: "nat sys" where
  "demo_start = \<lparr>sched = the (fst (NewEtcdScheduler demo_world 3 60 240 True [] True 256 1 128 5 0)),
     launcher = LIdle, syncs = [], timers = [], arriving = [], inserting = [], reseeds = 0, reseedsLocked = 0,
     seen = {}, trace = [], alive = True, world = 0\<rparr>"

lemma demo_start_init: "sys_init demo_start"
proof -
  have "fst (NewEtcdScheduler demo_world 3 60 240 True [] True 256 1 128 5 0) = Some (sched demo_start)"
    by (simp add: demo_start_def NewEtcdScheduler_def New_def split_beta)
  then obtain w' where n: "NewEtcdScheduler demo_world 3 60 240 True [] True 256 1 128 5 0 = (Some (sched demo_start), w')"
    by (cases "NewEtcdScheduler demo_world 3 60 240 True [] True 256 1 128 5 0") simp
  have "sched demo_start = (sched demo_start)\<lparr>Master := Master (sched demo_start), ExecutorPath := ExecutorPath (sched demo_start),
      FrameworkName := FrameworkName (sched demo_start), ZkConnect := ZkConnect (sched demo_start),
      ZkChroot := ZkChroot (sched demo_start), ZkServers := ZkServers (sched demo_start)\<rparr>" by simp
  with n have "\<exists>(io :: nat World) n chill reseed auto uris single d c m r w s0 w' master exec name zc zr zs.
      NewEtcdScheduler io n chill reseed auto uris single d c m r w = (Some s0, w') \<and>
      sched demo_start = s0\<lparr>Master := master, ExecutorPath := exec, FrameworkName := name, ZkConnect := zc,
        ZkChroot := zr, ZkServers := zs\<rparr>" by blast
  then show ?thesis by (simp add: sys_init_def) (simp add: demo_start_def)
qed

text \<open>Two steps from the start: an offer arrives and is declined, as the scheduler is immutable.\<close>

definition demo_declined :: "nat sys" where
  "demo_declined = emit [decline (sched demo_start) (demo_offer [])]
     (demo_start\<lparr>arriving := [], seen := {''o1''}\<rparr>)"

lemma demo_declined_reachable: "reachable demo_world demo_driver demo_declined"
proof -
  have 1: "sys_step demo_world demo_driver demo_start (demo_start\<lparr>arriving := [demo_offer []], seen := {''o1''}\<rparr>)"
    using sys_step.offers [of demo_start "[demo_offer []]" demo_world demo_driver]
    by (simp add: demo_start_def demo_offer_def)
  have "offer_unwanted (sched demo_start) (demo_offer [])"
    by (simp add: offer_unwanted_def demo_start_def NewEtcdScheduler_def New_def demo_world_def)
  then have "sys_step demo_world demo_driver (demo_start\<lparr>arriving := [demo_offer []], seen := {''o1''}\<rparr>) demo_declined"
    using sys_step.offer_refused [of "demo_start\<lparr>arriving := [demo_offer []], seen := {''o1''}\<rparr>" "demo_offer []" "[]"]
    by (simp add: demo_declined_def) (simp add: demo_start_def)
  with 1 demo_start_init show ?thesis unfolding reachable_def
    by (meson rtranclp.rtrancl_into_rtrancl rtranclp.rtrancl_refl)
qed

theorem offers_answered_once_witness:
  "answered (trace demo_declined) = [''o1''] \<and> distinct (answered (trace demo_declined))"
  using offers_answered_once [OF demo_declined_reachable]
  by (simp add: demo_declined_def demo_start_def demo_offer_def)

theorem sys_refines_view_witness:
  "\<exists>st'. sys_step demo_world demo_driver demo_declined st' \<and>
     (cluster_view (sched st') = cluster_view (sched demo_declined) \<or>
      view_step (cluster_view (sched demo_declined)) (cluster_view (sched st')))"
proof -
  have "alive demo_declined" by (simp add: demo_declined_def demo_start_def emit_def decline_def)
  then have "sys_step demo_world demo_driver demo_declined (demo_declined\<lparr>sched := Disconnected (sched demo_declined)\<rparr>)"
    by (rule sys_step.disconnected)
  with sys_refines_view [OF demo_declined_reachable this] show ?thesis by blast
qed

theorem cluster_inv_holds_witness: "cluster_inv (sched demo_declined)"
  by (rule cluster_inv_holds [OF demo_declined_reachable])


end
