(* ===== verification/Executor.thy ===== *)
theory Executor
  imports Rpc_State Node_Json Mesos Transition
begin

text \<open>
  \<open>executor/executor.go\<close>: the Mesos executor that runs one etcd server.  First the operations, then
  the process as a step relation: the harness loop, the goroutine of each etcd process it starts, the
  listener for reseed requests, the callbacks of the driver, and the goroutines that end the executor
  after a disconnection.  What the operating system and the driver answer is a record of operations over the same outside state as
  \<open>World\<close>.  The \<open>exit\<close> and \<open>shutdown\<close> fields are those set by \<open>New\<close> and never nil.
\<close>

section \<open>State and constants\<close>

text \<open>
  \<open>suicides\<close> counts the goroutines that wait on \<open>cancelSuicide\<close>; \<open>shutdownClosed\<close> says whether
  \<open>shutdownChan\<close> is closed.  Durations are in nanoseconds.
\<close>

record Executor =
  suicides :: nat
  launchTimeout :: int
  shutdownClosed :: bool

datatype exec_effect =
    XStatus TaskStatus
  | XAbort
  | XListen "64 word"
  | XHarness "Node option list"

record 'w OS =
  os_exec :: "string list \<Rightarrow> 'w \<Rightarrow> go_error option \<times> 'w"
  os_RemoveAll :: "string \<Rightarrow> 'w \<Rightarrow> go_error option \<times> 'w"
  os_Rename :: "string \<Rightarrow> string \<Rightarrow> 'w \<Rightarrow> go_error option \<times> 'w"
  drv_SendStatusUpdate :: "TaskStatus \<Rightarrow> 'w \<Rightarrow> go_error option \<times> 'w"

definition suicideTimeout :: int where
  "suicideTimeout = (5 + 1) * (15 * 1000000000)"

definition new_Executor :: "int \<Rightarrow> Executor" where
  "new_Executor timeout = \<lparr>suicides = 0, launchTimeout = timeout, shutdownClosed = False\<rparr>"

text \<open>Closing a closed channel panics.\<close>

definition shutdown :: "Executor \<Rightarrow> Executor outcome" where
  "shutdown e = (if shutdownClosed e then Panics else Returns (e\<lparr>shutdownClosed := True\<rparr>))"

section \<open>Callbacks\<close>

text \<open>The receivers that wait are all cancelled; \<open>Registered\<close>, \<open>Shutdown\<close> and the others only log.\<close>

definition exec_Reregistered :: "Executor \<Rightarrow> Executor" where
  "exec_Reregistered e = e\<lparr>suicides := 0\<rparr>"

definition exec_Disconnected :: "Executor \<Rightarrow> Executor" where
  "exec_Disconnected e = e\<lparr>suicides := suicides e + 1\<rparr>"

text \<open>The timeout of one of the goroutines started by \<open>Disconnected\<close>.\<close>

definition suicide :: "Executor \<Rightarrow> Executor outcome" where
  "suicide e = shutdown (e\<lparr>suicides := suicides e - 1\<rparr>)"

definition exec_KillTask :: "Executor \<Rightarrow> Executor outcome" where
  "exec_KillTask e = shutdown e"

definition update_for :: "TaskInfo \<Rightarrow> TaskState \<Rightarrow> TaskStatus" where
  "update_for t st = \<lparr>task_id = task_info_id t, status_slave = [], task_state = st\<rparr>"

definition handleFailure :: "'w OS \<Rightarrow> TaskInfo \<Rightarrow> 'w \<Rightarrow> exec_effect list \<times> 'w" where
  "handleFailure os t w =
     (let (_, w1) = drv_SendStatusUpdate os (update_for t TASK_FAILED) w
      in ([XStatus (update_for t TASK_FAILED), XAbort], w1))"

definition LaunchTask :: "'w OS \<Rightarrow> TaskInfo \<Rightarrow> 'w \<Rightarrow> exec_effect list \<times> 'w" where
  "LaunchTask os t w =
     (case unmarshal_nodes (task_data t) of
        None \<Rightarrow> handleFailure os t w
      | Some running \<Rightarrow>
          (if length running = 0 then handleFailure os t w else ([XHarness running], w)))"

section \<open>The command line of etcd\<close>

definition cmdTemplate :: "Node \<Rightarrow> string \<Rightarrow> string" where
  "cmdTemplate n cluster =
     ''./etcd --data-dir=etcd_data --name='' @ Name n @
     '' --listen-peer-urls='' @ host_port_url (Host n) (RPCPort n) @
     '' --initial-advertise-peer-urls='' @ host_port_url (Host n) (RPCPort n) @
     '' --listen-client-urls='' @ host_port_url (Host n) (ClientPort n) @
     '' --advertise-client-urls='' @ host_port_url (Host n) (ClientPort n) @
     '' --initial-cluster='' @ cluster"

text \<open>A nil node panics when its fields are formatted.\<close>

definition command :: "Node option list \<Rightarrow> (go_error + string) outcome" where
  "command nodes =
     (if nodes = [] then Returns (Inl (ErrText ''No nodes to configure.''))
      else
        case those nodes of
          None \<Rightarrow> Panics
        | Some ns \<Rightarrow> Returns (Inr (cmdTemplate (hd ns) (Join (map peer_entry ns) '',''))))"

section \<open>The harness\<close>

text \<open>\<open>string(i)\<close> of an integer is the UTF-8 form of the code point.\<close>

definition rune_string :: "nat \<Rightarrow> string" where
  "rune_string i =
     (if 0x10FFFF < i \<or> 0xD800 \<le> i \<and> i < 0xE000 then utf8 0xFFFD else utf8 i)"

definition running_map :: "Node list \<Rightarrow> (string, Node) gomap" where
  "running_map ns =
     foldl (\<lambda>m (i, r). if 0 < i then gm_put (rune_string i) r m else m) [] (enumerate 0 ns)"

text \<open>
  \<open>etcdHarness\<close> up to its loop: \<open>None\<close> when it returned, otherwise the command to run.  A status
  update that fails does not stop it.
\<close>

definition harness_start ::
    "'w World \<Rightarrow> 'w OS \<Rightarrow> TaskInfo \<Rightarrow> Node option list \<Rightarrow> 'w \<Rightarrow>
     (string option \<times> exec_effect list) outcome \<times> 'w" where
  "harness_start io os t running w =
     (case command running of
        Panics \<Rightarrow> (Panics, w)
      | Returns (Inl _) \<Rightarrow> (let (es, w1) = handleFailure os t w in (Returns (None, es), w1))
      | Returns (Inr cmd) \<Rightarrow>
          (let nodes = map the running; node = hd nodes;
               (err, w1) = ConfigureInstance io (running_map nodes) node w in
           if err \<noteq> None then (let (es, w2) = handleFailure os t w1 in (Returns (None, es), w2))
           else
             let (err2, w2) = drv_SendStatusUpdate os (update_for t TASK_RUNNING) w1;
                 (es, w3) = (if err2 \<noteq> None then handleFailure os t w2 else ([], w2)) in
             (Returns (Some (cmd @ '' --initial-cluster-state='' @ Type node),
                [XListen (ReseedPort node), XStatus (update_for t TASK_RUNNING)] @ es), w3)))"

record Harness =
  h_cmd :: string
  h_before :: int
  h_delay :: nat
  h_reseeding :: bool

definition dumbExec :: "'w OS \<Rightarrow> string \<Rightarrow> 'w \<Rightarrow> go_error option \<times> 'w" where
  "dumbExec os args w = os_exec os (Fields args) w"

definition stripPersistedMetadata :: "'w OS \<Rightarrow> 'w \<Rightarrow> go_error option \<times> 'w" where
  "stripPersistedMetadata os w =
     (case dumbExec os ''./etcdctl backup --data-dir=./etcd_data --backup-dir=./etcd_backup'' w of
        (Some e, w1) \<Rightarrow> (Some e, w1)
      | (None, w1) \<Rightarrow>
          (case os_RemoveAll os ''./etcd_data'' w1 of
             (Some e, w2) \<Rightarrow> (Some e, w2)
           | (None, w2) \<Rightarrow> os_Rename os ''./etcd_backup'' ''./etcd_data'' w2))"

text \<open>The first part of a turn of the loop: the command is started, and after a reseed the peer address is fixed.\<close>

definition harness_turn :: "'w World \<Rightarrow> Node \<Rightarrow> Harness \<Rightarrow> 'w \<Rightarrow> string list \<times> 'w" where
  "harness_turn io node h w =
     (Fields (h_cmd h), if h_reseeding h then snd (FixInstancePeers io node w) else w)"

text \<open>The branch of a reseed request, after the process was told to stop.  Failures are reported and the loop goes on.\<close>

definition harness_reseed ::
    "'w World \<Rightarrow> 'w OS \<Rightarrow> TaskInfo \<Rightarrow> Node \<Rightarrow> Harness \<Rightarrow> 'w \<Rightarrow> (Harness \<times> exec_effect list) outcome \<times> 'w" where
  "harness_reseed io os t node h w =
     (let (err, w1) = stripPersistedMetadata os w;
          (es1, w2) = (if err \<noteq> None then handleFailure os t w1 else ([], w1)) in
      case command [Some node] of
        Panics \<Rightarrow> (Panics, w2)
      | Returns r \<Rightarrow>
          (let (cmd, es2, w3) =
                 (case r of Inl _ \<Rightarrow> (let (es, w3) = handleFailure os t w2 in ([], es, w3)) | Inr c \<Rightarrow> (c, [], w2));
               (t1, w4) = now io w3
           in (Returns (h\<lparr>h_cmd := cmd @ '' --force-new-cluster'', h_reseeding := True, h_before := t1\<rparr>, es1 @ es2), w4)))"

text \<open>The branch of an early exit.\<close>

definition harness_exit ::
    "'w World \<Rightarrow> 'w OS \<Rightarrow> TaskInfo \<Rightarrow> Executor \<Rightarrow> Harness \<Rightarrow> 'w \<Rightarrow>
     (Executor \<times> Harness \<times> exec_effect list) outcome \<times> 'w" where
  "harness_exit io os t e h w =
     (let (t1, w1) = now io w; late = (t1 - h_before h > launchTimeout e);
          (es, w2) = (if late then handleFailure os t w1 else ([], w1)) in
      case (if late then shutdown e else Returns e) of
        Panics \<Rightarrow> (Panics, w2)
      | Returns e1 \<Rightarrow>
          (Returns (e1, h\<lparr>h_delay := min (h_delay h + 1) 4\<rparr>, es), sleep io (h_delay h) w2))"

section \<open>The process\<close>

text \<open>
  A process started by \<open>runUntilClosed\<close>: whether it could be started, whether \<open>Wait\<close> has returned,
  whether its kill channel and its exit channel are closed, and whether the goroutine still waits for
  the kill channel.
\<close>

record proc =
  p_argv :: "string list"
  p_started :: bool
  p_reaped :: bool
  p_killed :: bool
  p_exited :: bool
  p_waiting :: bool

definition p_alive :: "proc \<Rightarrow> bool" where
  "p_alive p \<longleftrightarrow> p_started p \<and> \<not> p_reaped p"

datatype exec_run = Live | Exited | Crashed

datatype harness_pc = HStart | HSelect

record 'w exec_sys =
  exe :: Executor
  pc :: harness_pc
  harness :: Harness
  procs :: "proc list"
  reseedQ :: nat
  listening :: bool
  run :: exec_run
  xtrace :: "exec_effect list"
  xworld :: 'w

definition new_proc :: "string list \<Rightarrow> bool \<Rightarrow> proc" where
  "new_proc argv started =
     \<lparr>p_argv = argv, p_started = started, p_reaped = False, p_killed = False, p_exited = False, p_waiting = True\<rparr>"

text \<open>\<open>close(killChan)\<close> of the current process, the last one.\<close>

definition close_kill :: "proc list \<Rightarrow> proc list" where
  "close_kill ps = butlast ps @ [(last ps)\<lparr>p_killed := True\<rparr>]"

text \<open>\<open>command.Wait\<close> returns; the exit channel is closed unless the process was told to stop.\<close>

definition proc_exit :: "proc \<Rightarrow> proc" where
  "proc_exit p = p\<lparr>p_reaped := True, p_exited := \<not> p_killed p\<rparr>"

text \<open>
  After \<open><-killChan\<close>: the signal is sent, which panics for a process that was not started, and the
  executor exits if it is shutting down.
\<close>

definition proc_kill :: "Executor \<Rightarrow> proc \<Rightarrow> exec_run \<times> proc" where
  "proc_kill e p =
     (if \<not> p_started p then (Crashed, p)
      else (if shutdownClosed e then Exited else Live, p\<lparr>p_waiting := False\<rparr>))"

definition shut :: "Executor outcome \<Rightarrow> 'w exec_sys \<Rightarrow> 'w exec_sys" where
  "shut r st = (case r of Panics \<Rightarrow> st\<lparr>run := Crashed\<rparr> | Returns e \<Rightarrow> st\<lparr>exe := e\<rparr>)"

inductive exec_step :: "'w World \<Rightarrow> 'w OS \<Rightarrow> TaskInfo \<Rightarrow> Node \<Rightarrow> 'w exec_sys \<Rightarrow> 'w exec_sys \<Rightarrow> bool"
  for io os t node where
  turn: "run st = Live \<Longrightarrow> pc st = HStart \<Longrightarrow> harness_turn io node (harness st) (xworld st) = (argv, w1) \<Longrightarrow> argv \<noteq> [] \<Longrightarrow>
    exec_step io os t node st (st\<lparr>pc := HSelect, procs := procs st @ [new_proc argv started], xworld := w1\<rparr>)"
| turn_panics: "run st = Live \<Longrightarrow> pc st = HStart \<Longrightarrow> fst (harness_turn io node (harness st) (xworld st)) = [] \<Longrightarrow>
    exec_step io os t node st (st\<lparr>run := Crashed\<rparr>)"
| reseed: "run st = Live \<Longrightarrow> pc st = HSelect \<Longrightarrow> 0 < reseedQ st \<Longrightarrow>
    harness_reseed io os t node (harness st) (xworld st) = (Returns (h, es), w1) \<Longrightarrow>
    exec_step io os t node st
      (st\<lparr>pc := HStart, harness := h, procs := close_kill (procs st), reseedQ := reseedQ st - 1,
          xtrace := xtrace st @ es, xworld := w1\<rparr>)"
| shutting_down: "run st = Live \<Longrightarrow> pc st = HSelect \<Longrightarrow> shutdownClosed (exe st) \<Longrightarrow>
    exec_step io os t node st (st\<lparr>pc := HStart, procs := close_kill (procs st)\<rparr>)"
| exited: "run st = Live \<Longrightarrow> pc st = HSelect \<Longrightarrow> p_exited (last (procs st)) \<Longrightarrow>
    harness_exit io os t (exe st) (harness st) (xworld st) = (Returns (e, h, es), w1) \<Longrightarrow>
    exec_step io os t node st (st\<lparr>exe := e, pc := HStart, harness := h, xtrace := xtrace st @ es, xworld := w1\<rparr>)"
| exited_panics: "run st = Live \<Longrightarrow> pc st = HSelect \<Longrightarrow> p_exited (last (procs st)) \<Longrightarrow>
    harness_exit io os t (exe st) (harness st) (xworld st) = (Panics, w1) \<Longrightarrow>
    exec_step io os t node st (st\<lparr>run := Crashed, xworld := w1\<rparr>)"
| process_exits: "run st = Live \<Longrightarrow> i < length (procs st) \<Longrightarrow> \<not> p_reaped (procs st ! i) \<Longrightarrow>
    exec_step io os t node st (st\<lparr>procs := (procs st)[i := proc_exit (procs st ! i)]\<rparr>)"
| process_killed: "run st = Live \<Longrightarrow> i < length (procs st) \<Longrightarrow> p_killed (procs st ! i) \<Longrightarrow> p_waiting (procs st ! i) \<Longrightarrow>
    proc_kill (exe st) (procs st ! i) = (r, p) \<Longrightarrow>
    exec_step io os t node st (st\<lparr>run := r, procs := (procs st)[i := p]\<rparr>)"
| reseed_request: "run st = Live \<Longrightarrow> listening st \<Longrightarrow> reseedQ st < 1 \<Longrightarrow>
    exec_step io os t node st (st\<lparr>reseedQ := reseedQ st + 1\<rparr>)"
| listener_ends: "run st = Live \<Longrightarrow> listening st \<Longrightarrow>
    exec_step io os t node st (shut (shutdown (exe st)) (st\<lparr>listening := False\<rparr>))"
| kill_task: "run st = Live \<Longrightarrow> exec_step io os t node st (shut (exec_KillTask (exe st)) st)"
| disconnected: "run st = Live \<Longrightarrow> exec_step io os t node st (st\<lparr>exe := exec_Disconnected (exe st)\<rparr>)"
| reregistered: "run st = Live \<Longrightarrow> exec_step io os t node st (st\<lparr>exe := exec_Reregistered (exe st)\<rparr>)"
| suicide_timeout: "run st = Live \<Longrightarrow> 0 < suicides (exe st) \<Longrightarrow>
    exec_step io os t node st (shut (suicide (exe st)) st)"

text \<open>The process when the harness reaches its loop for a task.\<close>

definition exec_init :: "'w World \<Rightarrow> 'w OS \<Rightarrow> TaskInfo \<Rightarrow> Node \<Rightarrow> 'w exec_sys \<Rightarrow> bool" where
  "exec_init io os t node st \<longleftrightarrow>
     (\<exists>timeout rest cmd es w w1 t1 w2.
        LaunchTask os t w = ([XHarness (map Some (node # rest))], w) \<and>
        harness_start io os t (map Some (node # rest)) w = (Returns (Some cmd, es), w1) \<and>
        now io w1 = (t1, w2) \<and>
        st = \<lparr>exe = new_Executor timeout, pc = HStart,
              harness = \<lparr>h_cmd = cmd, h_before = t1, h_delay = 0, h_reseeding = False\<rparr>,
              procs = [], reseedQ = 0, listening = True, run = Live, xtrace = es, xworld = w2\<rparr>)"

interpretation exec: transition_system "exec_init io os t node" "exec_step io os t node" for io os t node .

definition exec_reachable :: "'w World \<Rightarrow> 'w OS \<Rightarrow> TaskInfo \<Rightarrow> Node \<Rightarrow> 'w exec_sys \<Rightarrow> bool" where
  "exec_reachable io os t node st \<longleftrightarrow> (\<exists>st0. exec_init io os t node st0 \<and> (exec_step io os t node)\<^sup>*\<^sup>* st0 st)"

lemma exec_reachable_reach: "exec_reachable io os t node st = exec.reach io os t node st"
  by (simp add: exec_reachable_def exec.reach_def)

section \<open>Lemmas: the command line\<close>

definition etcd_args :: "Node \<Rightarrow> string list \<Rightarrow> string list" where
  "etcd_args n peers =
     [''./etcd'', ''--data-dir=etcd_data'', ''--name='' @ Name n,
      ''--listen-peer-urls='' @ host_port_url (Host n) (RPCPort n),
      ''--initial-advertise-peer-urls='' @ host_port_url (Host n) (RPCPort n),
      ''--listen-client-urls='' @ host_port_url (Host n) (ClientPort n),
      ''--advertise-client-urls='' @ host_port_url (Host n) (ClientPort n),
      ''--initial-cluster='' @ Join peers '','']"

lemma those_map_Some [simp]: "those (map Some xs) = Some xs"
  by (induction xs) simp_all

lemma command_nodes:
  "command (map Some (n # ns)) = Returns (Inr (cmdTemplate n (Join (map peer_entry (n # ns)) '','')))"
  using those_map_Some [of "n # ns"] by (simp add: command_def)

lemma no_space_host_port_url: "no_space h \<Longrightarrow> no_space (host_port_url h p)"
  by (simp add: host_port_url_def) (simp add: is_space_def)

lemma no_space_peer_entry: "node_ok n \<Longrightarrow> no_space (peer_entry n)"
  by (simp add: peer_entry_def node_ok_def no_space_host_port_url) (simp add: is_space_def)

lemma no_space_peers: "list_all node_ok ns \<Longrightarrow> no_space (Join (map peer_entry ns) '','')"
  by (rule no_space_Join) (simp add: is_space_def, simp add: list.pred_map comp_def list.pred_mono_strong no_space_peer_entry)

lemma etcd_args_words:
  assumes "node_ok n" "no_space (Join peers '','')"
  shows "list_all (\<lambda>w. no_space w \<and> w \<noteq> []) (etcd_args n peers)"
  using assms by (simp add: etcd_args_def node_ok_def no_space_host_port_url) (simp add: is_space_def)

lemma cmdTemplate_Join: "cmdTemplate n (Join peers '','') = Join (etcd_args n peers) '' ''"
  by (simp add: cmdTemplate_def etcd_args_def)

text \<open>A further word at the end of a command is one more argument.\<close>

lemma Join_snoc: "ws \<noteq> [] \<Longrightarrow> Join (ws @ [w]) sep = Join ws sep @ sep @ w"
  by (induction ws sep rule: Join.induct) auto

lemma Fields_command:
  assumes "node_ok n" "no_space (Join peers '','')" "no_space w" "w \<noteq> []"
  shows "Fields (cmdTemplate n (Join peers '','') @ '' '' @ w) = etcd_args n peers @ [w]"
proof -
  have "cmdTemplate n (Join peers '','') @ '' '' @ w = Join (etcd_args n peers @ [w]) '' ''"
    by (simp add: Join_snoc cmdTemplate_Join etcd_args_def)
  then show ?thesis
    using Fields_Join [of "etcd_args n peers @ [w]"] etcd_args_words [OF assms(1,2)] assms(3,4) by simp
qed

text \<open>The two commands of the harness.\<close>

definition first_cmd :: "Node \<Rightarrow> Node list \<Rightarrow> string" where
  "first_cmd node rest =
     cmdTemplate node (Join (map peer_entry (node # rest)) '','') @ '' --initial-cluster-state='' @ Type node"

definition reseed_cmd :: "Node \<Rightarrow> string" where
  "reseed_cmd node = cmdTemplate node (Join [peer_entry node] '','') @ '' --force-new-cluster''"

lemma harness_start_cmd:
  assumes "harness_start io os t (map Some (node # rest)) w = (Returns (Some cmd, es), w1)"
  shows "cmd = first_cmd node rest"
  using assms unfolding harness_start_def command_nodes first_cmd_def
  by (auto simp: Let_def comp_def split: prod.splits if_splits)

lemma harness_reseed_cmd:
  assumes "harness_reseed io os t node h w = (Returns (h', es), w1)"
  shows "h_cmd h' = reseed_cmd node \<and> h_reseeding h' \<and> h_delay h' = h_delay h"
  using assms command_nodes [of node "[]"] unfolding harness_reseed_def reseed_cmd_def
  by (auto simp: Let_def split: prod.splits if_splits)

lemma harness_reseed_ok: "\<exists>h' es w1. harness_reseed io os t node h w = (Returns (h', es), w1)"
  using command_nodes [of node "[]"] unfolding harness_reseed_def
  by (auto simp: Let_def split: prod.splits)

lemma harness_exit_harness:
  assumes "harness_exit io os t e h w = (Returns (e', h', es), w1)"
  shows "h_cmd h' = h_cmd h \<and> h_reseeding h' = h_reseeding h \<and> h_delay h' \<le> 4"
  using assms by (auto simp: harness_exit_def Let_def split: prod.splits outcome.splits if_splits)

lemma Fields_first_cmd:
  assumes "list_all node_ok (node # rest)" "no_space (Type node)"
  shows "Fields (first_cmd node rest) =
    etcd_args node (map peer_entry (node # rest)) @ [''--initial-cluster-state='' @ Type node]"
proof -
  have "no_space (''--initial-cluster-state='' @ Type node)" using assms(2) by simp (simp add: is_space_def)
  with Fields_command [of node "map peer_entry (node # rest)" "''--initial-cluster-state='' @ Type node"]
    assms no_space_peers [OF assms(1)] show ?thesis by (simp add: first_cmd_def)
qed

lemma Fields_reseed_cmd:
  assumes "node_ok node"
  shows "Fields (reseed_cmd node) = etcd_args node [peer_entry node] @ [''--force-new-cluster'']"
proof -
  have "no_space ''--force-new-cluster''" by (simp add: is_space_def)
  with Fields_command [of node "[peer_entry node]" "''--force-new-cluster''"] assms no_space_peer_entry [OF assms]
  show ?thesis by (simp add: reseed_cmd_def)
qed

section \<open>Lemmas: the process\<close>

definition stopped :: "proc \<Rightarrow> bool" where
  "stopped p \<longleftrightarrow> p_killed p \<or> \<not> p_alive p"

definition proc_ok :: "Node \<Rightarrow> Node list \<Rightarrow> proc \<Rightarrow> bool" where
  "proc_ok node rest p \<longleftrightarrow>
     (p_exited p \<longrightarrow> p_reaped p) \<and> p_argv p \<in> {Fields (first_cmd node rest), Fields (reseed_cmd node)}"

text \<open>
  The process invariant: the exit channel of a process is closed only after it ended, all processes
  but the one the harness waits for have ended or were told to stop, the pause is at most four seconds,
  the command is one of the two, and the executor exits only when it shuts down.
\<close>

definition exec_inv :: "Node \<Rightarrow> Node list \<Rightarrow> 'w exec_sys \<Rightarrow> bool" where
  "exec_inv node rest st \<longleftrightarrow>
     list_all (proc_ok node rest) (procs st) \<and>
     list_all stopped (if pc st = HSelect then butlast (procs st) else procs st) \<and>
     (pc st = HSelect \<longrightarrow> procs st \<noteq> []) \<and> h_delay (harness st) \<le> 4 \<and>
     h_cmd (harness st) = (if h_reseeding (harness st) then reseed_cmd node else first_cmd node rest) \<and>
     (run st = Exited \<longrightarrow> shutdownClosed (exe st) \<and> list_ex p_killed (procs st))"

lemma shut_simps [simp]:
  "pc (shut r st) = pc st" "harness (shut r st) = harness st" "procs (shut r st) = procs st"
  by (simp_all add: shut_def split: outcome.splits)

lemma shut_run: "run st = Live \<Longrightarrow> run (shut r st) \<noteq> Exited"
  by (simp add: shut_def split: outcome.splits)

lemma exec_init_inv:
  assumes "exec_init io os t node st" "unmarshal_nodes (task_data t) = Some (map Some (node # rest))"
  shows "exec_inv node rest st"
proof -
  obtain timeout rest' cmd es w w1 t1 w2 where i:
      "LaunchTask os t w = ([XHarness (map Some (node # rest'))], w)"
      "harness_start io os t (map Some (node # rest')) w = (Returns (Some cmd, es), w1)"
      "st = \<lparr>exe = new_Executor timeout, pc = HStart,
         harness = \<lparr>h_cmd = cmd, h_before = t1, h_delay = 0, h_reseeding = False\<rparr>,
         procs = [], reseedQ = 0, listening = True, run = Live, xtrace = es, xworld = w2\<rparr>"
    using assms(1) unfolding exec_init_def by blast
  have "rest' = rest"
    using i(1) assms(2) inj_map_eq_map [of Some rest rest'] by (simp add: LaunchTask_def)
  with i harness_start_cmd [OF i(2)] show ?thesis by (simp add: exec_inv_def)
qed

lemma list_all_update:
  assumes "list_all P xs" "i < length xs \<Longrightarrow> P (xs ! i) \<Longrightarrow> P x"
  shows "list_all P (xs[i := x])"
  using assms by (cases "i < length xs") (auto simp: list_all_length nth_list_update)

lemma exec_inv_update:
  assumes "exec_inv node rest st" "i < length (procs st)"
    and "p_exited p \<longrightarrow> p_reaped p" "p_argv p = p_argv (procs st ! i)" "stopped (procs st ! i) \<Longrightarrow> stopped p"
    and "p_killed (procs st ! i) \<Longrightarrow> p_killed p"
    and "r = Exited \<Longrightarrow> shutdownClosed (exe st) \<and> p_killed p"
  shows "exec_inv node rest (st\<lparr>run := r, procs := (procs st)[i := p]\<rparr>)"
proof -
  let ?ps = "procs st"
  have "list_all stopped (?ps[i := p])" if "list_all stopped ?ps" using list_all_update [OF that] assms(5) by blast
  moreover have "list_all stopped (butlast (?ps[i := p]))" if "list_all stopped (butlast ?ps)"
    using that assms(2,5) by (auto simp: butlast_list_update nth_butlast list_all_length nth_list_update)
  moreover have "list_ex p_killed (?ps[i := p])" if "p_killed p"
    using that assms(2) by (metis length_list_update list_ex_length nth_list_update_eq)
  moreover have "list_all (proc_ok node rest) (?ps[i := p])"
    using assms(1,3,4) by (intro list_all_update) (auto simp: exec_inv_def proc_ok_def)
  ultimately show ?thesis
    using assms(1,7) unfolding exec_inv_def by auto
qed

lemma close_kill_procs:
  assumes "ps \<noteq> []"
  shows "list_all stopped (butlast ps) \<Longrightarrow> list_all stopped (close_kill ps)"
    and "list_all (proc_ok node rest) ps \<Longrightarrow> list_all (proc_ok node rest) (close_kill ps)"
  using assms by (auto simp: close_kill_def stopped_def proc_ok_def list_all_iff dest: in_set_butlastD last_in_set)

lemma exec_inv_live:
  assumes "exec_inv node rest st" "run st' \<noteq> Exited" "procs st' = procs st" "pc st' = pc st" "harness st' = harness st"
  shows "exec_inv node rest st'"
  using assms by (auto simp: exec_inv_def split: if_splits)

lemma exec_step_inv:
  assumes "exec_step io os t node st st'" "exec_inv node rest st"
  shows "exec_inv node rest st'"
  using assms
proof cases
  case (turn argv w1 started)
  then have "argv = Fields (h_cmd (harness st))" by (simp add: harness_turn_def)
  with turn assms(2) show ?thesis by (auto simp: exec_inv_def new_proc_def proc_ok_def)
next
  case (reseed h es w1)
  with assms(2) close_kill_procs(1) [of "procs st"] close_kill_procs(2) [of "procs st" node rest] harness_reseed_cmd [OF reseed(5)] show ?thesis
    by (simp add: exec_inv_def)
next
  case shutting_down
  with assms(2) close_kill_procs(1) [of "procs st"] close_kill_procs(2) [of "procs st" node rest] show ?thesis by (simp add: exec_inv_def)
next
  case (exited e h es w1)
  have "list_all stopped (procs st)"
  proof -
    have "procs st = butlast (procs st) @ [last (procs st)]" "proc_ok node rest (last (procs st))"
      using assms(2) exited by (auto simp: exec_inv_def list_all_iff)
    moreover from this(2) exited have "stopped (last (procs st))" by (simp add: proc_ok_def stopped_def p_alive_def)
    moreover have "list_all stopped (butlast (procs st))" using assms(2) exited by (simp add: exec_inv_def)
    ultimately show ?thesis by (metis list_all_append list.pred_inject)
  qed
  with exited assms(2) harness_exit_harness [OF exited(5)] show ?thesis by (simp add: exec_inv_def)
next
  case (process_exits i)
  have "exec_inv node rest (st\<lparr>run := run st, procs := (procs st)[i := proc_exit (procs st ! i)]\<rparr>)"
    using process_exits assms(2) by (intro exec_inv_update) (auto simp: proc_exit_def stopped_def p_alive_def)
  then show ?thesis by (rule exec_inv_live) (simp_all add: process_exits)
next
  case (process_killed i r p)
  moreover have "p_exited (procs st ! i) \<longrightarrow> p_reaped (procs st ! i)"
    using process_killed assms(2) by (auto simp: exec_inv_def list_all_length proc_ok_def)
  ultimately show ?thesis
    using assms(2) by (simp, intro exec_inv_update) (auto simp: proc_kill_def stopped_def p_alive_def split: if_splits)
qed (auto intro!: exec_inv_live [OF assms(2)] simp: shut_run)

lemma exec_inv_reachable:
  assumes "exec_reachable io os t node st" "unmarshal_nodes (task_data t) = Some (map Some (node # rest))"
  shows "exec_inv node rest st"
  using assms(1) unfolding exec_reachable_reach
proof (induction rule: exec.reach_induct)
  case (init st)
  then show ?case by (rule exec_init_inv [OF _ assms(2)])
next
  case (step st st')
  then show ?case by (blast intro: exec_step_inv)
qed

lemma exec_reachable_data:
  assumes "exec_reachable io os t node st"
  obtains rest where "unmarshal_nodes (task_data t) = Some (map Some (node # rest))"
proof -
  obtain w rest where "LaunchTask os t w = ([XHarness (map Some (node # rest))], w)"
    using assms unfolding exec_reachable_def exec_init_def by blast
  then show thesis
    using that by (auto simp: LaunchTask_def handleFailure_def split: option.splits if_splits prod.splits)
qed

section \<open>Properties\<close>

lemma unstopped_le_one:
  "list_all stopped (if pc st = HSelect then butlast (procs st) else procs st) \<Longrightarrow> pc st = HSelect \<longrightarrow> procs st \<noteq> [] \<Longrightarrow>
   length (filter (\<lambda>p. p_alive p \<and> \<not> p_killed p) (procs st)) \<le> 1"
  (is "_ \<Longrightarrow> _ \<Longrightarrow> length (filter ?P _) \<le> 1")
proof -
  assume a: "list_all stopped (if pc st = HSelect then butlast (procs st) else procs st)"
    "pc st = HSelect \<longrightarrow> procs st \<noteq> []"
  have stop: "filter ?P ps = []" if "list_all stopped ps" for ps
    using that by (auto simp: list_all_iff stopped_def filter_empty_conv)
  show ?thesis
  proof (cases "pc st = HSelect")
    case True
    then have "procs st = butlast (procs st) @ [last (procs st)]" using a(2) by simp
    then have "filter ?P (procs st) = filter ?P (butlast (procs st)) @ filter ?P [last (procs st)]"
      by (metis filter_append)
    with stop [of "butlast (procs st)"] a(1) True show ?thesis by simp
  qed (use a(1) stop in simp)
qed

lemma exec_process_args:
  assumes "exec_reachable io os t node st" "unmarshal_nodes (task_data t) = Some (map Some (node # rest))"
    and "list_all node_ok (node # rest)" "no_space (Type node)" "p \<in> set (procs st)"
  shows "p_argv p \<in>
    {etcd_args node (map peer_entry (node # rest)) @ [''--initial-cluster-state='' @ Type node],
     etcd_args node [peer_entry node] @ [''--force-new-cluster'']}"
proof -
  have "node_ok node" using assms(3) by simp
  with exec_inv_reachable [OF assms(1,2)] assms(5) Fields_first_cmd [OF assms(3,4)] Fields_reseed_cmd [of node]
  show ?thesis by (auto simp: exec_inv_def list_all_iff proc_ok_def)
qed

lemma kill_open:
  assumes "\<not> shutdownClosed (exe st)"
  shows "shut (exec_KillTask (exe st)) st = st\<lparr>exe := (exe st)\<lparr>shutdownClosed := True\<rparr>\<rparr>"
  using assms by (simp add: shut_def exec_KillTask_def shutdown_def)

lemma kill_closed: "shutdownClosed e \<Longrightarrow> exec_KillTask e = Panics"
  by (simp add: exec_KillTask_def shutdown_def)

lemma shut_Panics [simp]: "run (shut Panics st) = Crashed"
  by (simp add: shut_def)

lemma cmdTemplate_program: "Fields (cmdTemplate n c @ s) \<noteq> []"
proof -
  have "no_space ''./etcd''" by (simp add: is_space_def)
  then show ?thesis
    using fields_acc_word [of "''./etcd''" "[]"] unfolding Fields_def cmdTemplate_def by (simp add: is_space_def)
qed

lemma harness_turn_ne:
  "h_cmd h = (if h_reseeding h then reseed_cmd node else first_cmd node rest) \<Longrightarrow> fst (harness_turn io node h w) \<noteq> []"
  by (simp add: harness_turn_def reseed_cmd_def first_cmd_def cmdTemplate_program)

lemma shutdown_next_turn:
  assumes "run st = Live" "shutdownClosed (exe st)"
  shows "\<exists>st1. (exec_step io os t node)\<^sup>*\<^sup>* st st1 \<and> run st1 = Live \<and> pc st1 = HStart \<and>
    shutdownClosed (exe st1) \<and> harness st1 = harness st"
proof (cases "pc st")
  case HSelect
  then show ?thesis
    using r_into_rtranclp [of "exec_step io os t node", OF exec_step.shutting_down [OF assms(1) _ assms(2)]] assms
    by (intro exI [of _ "st\<lparr>pc := HStart, procs := close_kill (procs st)\<rparr>"]) simp
qed (use assms in \<open>blast intro: rtranclp.rtrancl_refl\<close>)

text \<open>
  C32 (safety): at any time at most one etcd process runs that was not told to stop, in any interleaving
  of reseed requests, early exits, kill requests and disconnections.
\<close>

theorem one_etcd_process:
  assumes "exec_reachable io os t node st"
  shows "length (filter (\<lambda>p. p_alive p \<and> \<not> p_killed p) (procs st)) \<le> 1"
proof -
  obtain rest where "unmarshal_nodes (task_data t) = Some (map Some (node # rest))"
    by (rule exec_reachable_data [OF assms])
  from exec_inv_reachable [OF assms this] show ?thesis
    by (intro unstopped_le_one) (auto simp: exec_inv_def)
qed

text \<open>
  A second request to shut down crashes the executor, because it closes the closed
  channel again: two kill requests are enough.
\<close>

lemma second_kill_crashes:
  assumes "run st = Live" "\<not> shutdownClosed (exe st)"
  shows "\<exists>st1 st2. exec_step io os t node st st1 \<and> run st1 = Live \<and> exec_step io os t node st1 st2 \<and> run st2 = Crashed"
proof -
  let ?st1 = "shut (exec_KillTask (exe st)) st"
  have s1: "exec_step io os t node st ?st1" by (rule exec_step.kill_task [OF assms(1)])
  have r1: "run ?st1 = Live" "shutdownClosed (exe ?st1)" using kill_open [OF assms(2)] assms(1) by simp_all
  have "exec_step io os t node ?st1 (shut (exec_KillTask (exe ?st1)) ?st1)" by (rule exec_step.kill_task [OF r1(1)])
  moreover have "run (shut (exec_KillTask (exe ?st1)) ?st1) = Crashed" unfolding kill_closed [OF r1(2)] by simp
  ultimately show ?thesis using s1 r1(1) by blast
qed

text \<open>
  C34 (liveness): once the executor shuts down it can exit: from every reachable state there are steps
  that lead to its exit, whatever processes it started before.
\<close>

theorem shutdown_can_exit:
  assumes "exec_reachable io os t node st" "run st = Live" "shutdownClosed (exe st)"
  shows "\<exists>st'. (exec_step io os t node)\<^sup>*\<^sup>* st st' \<and> run st' = Exited"
proof -
  obtain rest where "unmarshal_nodes (task_data t) = Some (map Some (node # rest))"
    by (rule exec_reachable_data [OF assms(1)])
  then have inv: "exec_inv node rest st" by (rule exec_inv_reachable [OF assms(1)])
  obtain st1 where s1: "(exec_step io os t node)\<^sup>*\<^sup>* st st1"
      "run st1 = Live" "pc st1 = HStart" "shutdownClosed (exe st1)" "harness st1 = harness st"
    using shutdown_next_turn [OF assms(2,3)] by blast
  obtain argv w1 where turn: "harness_turn io node (harness st1) (xworld st1) = (argv, w1)" by fastforce
  moreover have "argv \<noteq> []"
    using harness_turn_ne [of "harness st1" node rest io "xworld st1"] inv s1(5) turn by (simp add: exec_inv_def)
  ultimately have t: "exec_step io os t node st1 (st1\<lparr>pc := HSelect, procs := procs st1 @ [new_proc argv True], xworld := w1\<rparr>)"
    (is "exec_step io os t node st1 ?st2") by (intro exec_step.turn [OF s1(2,3)])
  obtain st2 where s2: "exec_step io os t node st1 st2"
      "run st2 = Live" "pc st2 = HSelect" "shutdownClosed (exe st2)" "procs st2 \<noteq> []"
      "p_started (last (procs st2))" "p_waiting (last (procs st2))"
    by (rule that [OF t]) (simp_all add: s1 new_proc_def)
  let ?st3 = "st2\<lparr>pc := HStart, procs := close_kill (procs st2)\<rparr>" and ?i = "length (procs st2) - 1"
  have s3: "exec_step io os t node st2 ?st3" by (rule exec_step.shutting_down [OF s2(2,3,4)])
  have last: "procs ?st3 ! ?i = (last (procs st2))\<lparr>p_killed := True\<rparr>" "?i < length (procs ?st3)"
    using s2(5) by (simp_all add: close_kill_def nth_append)
  with s2 obtain p where "proc_kill (exe ?st3) (procs ?st3 ! ?i) = (Exited, p)" by (simp add: proc_kill_def)
  with last s2 have "exec_step io os t node ?st3 (?st3\<lparr>run := Exited, procs := (procs ?st3)[?i := p]\<rparr>)"
    by (intro exec_step.process_killed) simp_all
  with s1(1) s2(1) s3 have "(exec_step io os t node)\<^sup>*\<^sup>* st (?st3\<lparr>run := Exited, procs := (procs ?st3)[?i := p]\<rparr>)"
    by (meson rtranclp.rtrancl_into_rtrancl)
  then show ?thesis by (intro exI conjI) (assumption, simp)
qed

section \<open>Witnesses\<close>

definition demo_os :: "nat OS" where
  "demo_os = \<lparr>os_exec = (\<lambda>_ w. (None, w)), os_RemoveAll = (\<lambda>_ w. (None, w)), os_Rename = (\<lambda>_ _ w. (None, w)),
     drv_SendStatusUpdate = (\<lambda>_ w. (None, w))\<rparr>"

definition demo_task :: TaskInfo where
  "demo_task = \<lparr>task_info_id = node_String demo_node, task_name = ''etcd-server'', task_data = marshal_nodes [demo_node],
     task_slave = ''s'', task_executor = \<lparr>executor_id = [], exec_source = [],
       exec_command = \<lparr>cmd_value = [], cmd_uris = [], cmd_arguments = []\<rparr>, exec_resources = []\<rparr>,
     task_resources = [], task_ports = []\<rparr>"

text \<open>The executor of a task with a single server, when its harness reaches the loop.\<close>

definition alone_exec :: "TaskInfo \<Rightarrow> Node \<Rightarrow> nat exec_sys" where
  "alone_exec t node = \<lparr>exe = new_Executor 0, pc = HStart,
     harness = \<lparr>h_cmd = first_cmd node [], h_before = 0, h_delay = 0, h_reseeding = False\<rparr>,
     procs = [], reseedQ = 0, listening = True, run = Live,
     xtrace = [XListen (ReseedPort node), XStatus (update_for t TASK_RUNNING)], xworld = 0\<rparr>"

lemma alone_exec_init:
  assumes "unmarshal_nodes (task_data t) = Some (map Some [node])"
  shows "exec_init demo_world demo_os t node (alone_exec t node)"
proof -
  have "LaunchTask demo_os t 0 = ([XHarness (map Some (node # []))], 0)"
    using assms by (simp add: LaunchTask_def)
  moreover have "harness_start demo_world demo_os t (map Some (node # [])) 0 =
      (Returns (Some (first_cmd node []), xtrace (alone_exec t node)), 0)"
    unfolding harness_start_def command_nodes
    by (simp add: running_map_def ConfigureInstance_def demo_os_def alone_exec_def first_cmd_def)
  moreover have "now demo_world 0 = (0, 0)" by (simp add: demo_world_def)
  ultimately show ?thesis unfolding exec_init_def
    by (intro exI [of _ 0] exI [of _ "[]"] exI [of _ "first_cmd node []"] exI [of _ "xtrace (alone_exec t node)"])
       (simp add: alone_exec_def)
qed

text \<open>The first turn: etcd was started.\<close>

definition alone_turn :: "TaskInfo \<Rightarrow> Node \<Rightarrow> nat exec_sys" where
  "alone_turn t node = (alone_exec t node)\<lparr>pc := HSelect, procs := [new_proc (Fields (first_cmd node [])) True]\<rparr>"

lemma alone_turn_reachable:
  assumes "unmarshal_nodes (task_data t) = Some (map Some [node])"
  shows "exec_reachable demo_world demo_os t node (alone_turn t node)"
proof -
  have "harness_turn demo_world node (harness (alone_exec t node)) (xworld (alone_exec t node)) = (Fields (first_cmd node []), 0)"
    by (simp add: harness_turn_def alone_exec_def)
  moreover have "Fields (first_cmd node []) \<noteq> []" by (simp add: first_cmd_def cmdTemplate_program)
  ultimately have "exec_step demo_world demo_os t node (alone_exec t node)
      ((alone_exec t node)\<lparr>pc := HSelect, procs := procs (alone_exec t node) @ [new_proc (Fields (first_cmd node [])) True], xworld := 0\<rparr>)"
    by (intro exec_step.turn) (simp_all add: alone_exec_def)
  then have "exec_step demo_world demo_os t node (alone_exec t node) (alone_turn t node)"
    by (simp add: alone_turn_def alone_exec_def)
  with alone_exec_init [OF assms] show ?thesis unfolding exec_reachable_def by blast
qed

abbreviation demo_exec :: "nat exec_sys" where
  "demo_exec \<equiv> alone_exec demo_task demo_node"

abbreviation demo_turn :: "nat exec_sys" where
  "demo_turn \<equiv> alone_turn demo_task demo_node"

lemma demo_data: "unmarshal_nodes (task_data demo_task) = Some (map Some [demo_node])"
  by (simp add: demo_task_def unmarshal_marshal_nodes)

lemmas demo_exec_init = alone_exec_init [OF demo_data]
  and demo_turn_reachable = alone_turn_reachable [OF demo_data]

theorem one_etcd_process_witness:
  "length (filter (\<lambda>p. p_alive p \<and> \<not> p_killed p) (procs demo_turn)) \<le> 1 \<and> procs demo_turn \<noteq> []"
  using one_etcd_process [OF demo_turn_reachable] by (simp add: alone_turn_def)

theorem shutdown_can_exit_witness:
  "\<exists>st st'. shutdownClosed (exe st) \<and> (exec_step demo_world demo_os demo_task demo_node)\<^sup>*\<^sup>* st st' \<and> run st' = Exited"
proof -
  let ?st = "shut (exec_KillTask (exe demo_exec)) demo_exec"
  have d: "\<not> shutdownClosed (exe demo_exec)" "run demo_exec = Live" by (simp_all add: alone_exec_def new_Executor_def)
  have st: "run ?st = Live" "shutdownClosed (exe ?st)" using kill_open [OF d(1)] d(2) by simp_all
  have "exec_step demo_world demo_os demo_task demo_node demo_exec ?st" by (rule exec_step.kill_task [OF d(2)])
  then have "exec_reachable demo_world demo_os demo_task demo_node ?st"
    using demo_exec_init unfolding exec_reachable_def by blast
  from shutdown_can_exit [OF this st(1,2)] st(2) show ?thesis by blast
qed

end
