(* ===== verification/Upid.thy ===== *)
theory Upid
  imports Go_Base
begin

text \<open>
  What the two drivers of the vendored package mesos-go share: the identifiers of processes
  (\<open>upid/upid.go\<close>), the interface of the messenger and the status of a driver (\<open>Status\<close> of \<open>mesosproto/mesos.pb.go\<close>).
\<close>

section \<open>Process identifiers\<close>

record UPID =
  upid_ID :: string
  upid_Host :: string
  upid_Port :: string

text \<open>\<open>net.SplitHostPort\<close>; \<open>None\<close> is its error.\<close>

definition SplitHostPort :: "string \<Rightarrow> (string \<times> string) option" where
  "SplitHostPort s =
     (let colon = CHR '':''; port = rev (takeWhile (\<lambda>c. c \<noteq> colon) (rev s)); front = butlast (take (length s - length port) s) in
      if colon \<notin> set s then None
      else if s \<noteq> [] \<and> hd s = CHR ''['' then
        (let host = takeWhile (\<lambda>c. c \<noteq> CHR '']'') (tl s); rest = drop (length host + 2) s in
         if CHR '']'' \<notin> set s then None
         else if rest \<noteq> colon # port then None
         else if CHR ''['' \<in> set (tl s) \<or> CHR '']'' \<in> set rest then None
         else Some (host, port))
      else if colon \<in> set front \<or> CHR ''%'' \<in> set front \<or> CHR ''['' \<in> set s \<or> CHR '']'' \<in> set s then None
      else Some (front, port))"

text \<open>The argument \<open>accepts\<close> is what \<open>net.ResolveTCPAddr\<close> accepts.\<close>

definition upid_Parse :: "(string \<Rightarrow> bool) \<Rightarrow> string \<Rightarrow> UPID option" where
  "upid_Parse accepts input =
     (let splits = Split input CHR ''@'' in
      if length splits \<noteq> 2 then None
      else if \<not> accepts (splits ! 1) then None
      else
        case SplitHostPort (splits ! 1) of
          None \<Rightarrow> Some \<lparr>upid_ID = splits ! 0, upid_Host = [], upid_Port = []\<rparr>
        | Some (host, port) \<Rightarrow> Some \<lparr>upid_ID = splits ! 0, upid_Host = host, upid_Port = port\<rparr>)"

definition upid_String :: "UPID \<Rightarrow> string" where
  "upid_String u = upid_ID u @ ''@'' @ upid_Host u @ '':'' @ upid_Port u"

text \<open>Pointers may be nil.\<close>

definition upid_Equal :: "UPID option \<Rightarrow> UPID option \<Rightarrow> bool" where
  "upid_Equal u v =
     (case u of
        None \<Rightarrow> v = None
      | Some x \<Rightarrow>
          (case v of
             None \<Rightarrow> False
           | Some y \<Rightarrow> upid_ID x = upid_ID y \<and> upid_Host x = upid_Host y \<and> upid_Port x = upid_Port y))"

section \<open>The messenger\<close>

text \<open>
  What the drivers use of the messenger, over a state of the outside: to send a message (with an
  error, if any), to start it (with its address) and to stop it; then new identifiers, and the
  addresses the resolver accepts.
\<close>

record ('m, 'w) Messenger =
  net_send :: "UPID \<Rightarrow> 'm \<Rightarrow> 'w \<Rightarrow> string option \<times> 'w"
  net_start :: "'w \<Rightarrow> (string + UPID) \<times> 'w"
  net_stop :: "'w \<Rightarrow> string option \<times> 'w"
  new_uuid :: "'w \<Rightarrow> string \<times> 'w"
  resolves :: "string \<Rightarrow> bool"

section \<open>The status of a driver\<close>

datatype drv_status = DRIVER_NOT_STARTED | DRIVER_RUNNING | DRIVER_ABORTED | DRIVER_STOPPED

definition status_name :: "drv_status \<Rightarrow> string" where
  "status_name st =
     (case st of
        DRIVER_NOT_STARTED \<Rightarrow> ''DRIVER_NOT_STARTED''
      | DRIVER_RUNNING \<Rightarrow> ''DRIVER_RUNNING''
      | DRIVER_ABORTED \<Rightarrow> ''DRIVER_ABORTED''
      | DRIVER_STOPPED \<Rightarrow> ''DRIVER_STOPPED'')"

section \<open>Lemmas\<close>

lemma upid_Equal_Some: "upid_Equal None v \<longleftrightarrow> v = None" "upid_Equal (Some u) v \<longleftrightarrow> v = Some u"
  by (auto simp: upid_Equal_def split: option.splits)

lemma takeWhile_rev_port: "CHR '':'' \<notin> set p \<Longrightarrow> rev (takeWhile (\<lambda>c. c \<noteq> CHR '':'') (rev (h @ CHR '':'' # p))) = p"
  by (simp, subst takeWhile_append2) auto

lemma SplitHostPort_plain:
  assumes "set h \<inter> set '':%[]'' = {}" "set p \<inter> set '':[]'' = {}"
  shows "SplitHostPort (h @ CHR '':'' # p) = Some (h, p)"
proof -
  let ?s = "h @ CHR '':'' # p"
  have h: "CHR '':'' \<notin> set h" "CHR ''%'' \<notin> set h" "CHR ''['' \<notin> set h" "CHR '']'' \<notin> set h"
    and p: "CHR '':'' \<notin> set p" "CHR ''['' \<notin> set p" "CHR '']'' \<notin> set p"
    using assms by auto
  have "hd ?s \<noteq> CHR ''[''" using h(3) by (cases h) auto
  moreover have "butlast (take (length ?s - length p) ?s) = h" by simp
  ultimately show ?thesis
    unfolding SplitHostPort_def Let_def takeWhile_rev_port [OF p(1)] using h p by simp
qed

text \<open>
  The text form of a process identifier reads back as the identifier, if its parts
  do not contain the separators.
\<close>

lemma upid_roundtrip:
  assumes "CHR ''@'' \<notin> set (upid_ID u)" "set (upid_Host u) \<inter> set ''@:%[]'' = {}" "set (upid_Port u) \<inter> set ''@:[]'' = {}"
    "accepts (upid_Host u @ '':'' @ upid_Port u)"
  shows "upid_Parse accepts (upid_String u) = Some u"
proof -
  let ?addr = "upid_Host u @ CHR '':'' # upid_Port u"
  have "Split (upid_String u) CHR ''@'' = [upid_ID u, ?addr]"
    using assms(1-3) Split_pair [of "CHR ''@''" "upid_ID u" ?addr] Split_single [of "CHR ''@''" ?addr]
    by (simp add: upid_String_def)
  moreover have "SplitHostPort ?addr = Some (upid_Host u, upid_Port u)"
    using assms(2,3) by (intro SplitHostPort_plain) auto
  ultimately show ?thesis using assms(4) by (simp add: upid_Parse_def)
qed

end
