(* ===== verification/Sched_Driver.thy ===== *)
theory Sched_Driver
  imports Rpc_Zk Mesos Upid Transition
begin

text \<open>
  The scheduler driver of mesos-go (\<open>scheduler/scheduler.go\<close> and \<open>scheduler/schedcache.go\<close> of the
  vendored package), through which the scheduler of etcd-mesos talks to the Mesos master.  Each
  handler of a message and each method runs under the event lock and is one definition.  Errors are
  their texts.  The messenger, the generator of identifiers and the resolver are operations of a
  record \<open>Messenger\<close>.  What a handler or method leaves to goroutines, and what it hands to the queue of
  callbacks, are its effects; the theory \<open>Driver_System\<close> runs them.
\<close>

section \<open>Messages\<close>

record FrameworkInfo =
  fi_User :: string
  fi_Name :: string
  fi_Id :: "string option"
  fi_FailoverTimeout :: "real option"
  fi_Checkpoint :: bool
  fi_Hostname :: string
  fi_WebuiUrl :: string
  fi_Principal :: "string option"

text \<open>A resource of an operation also has the fields the driver filters by, which are set or not.\<close>

record OpResource = Resource +
  op_Reservation :: bool
  op_Disk :: bool

datatype Offer_Operation =
    OpLaunch "TaskInfo list"
  | OpReserve "OpResource list"
  | OpUnreserve "OpResource list"
  | OpCreate "OpResource list"
  | OpDestroy "OpResource list"

record StatusUpdateInfo =
  su_status :: TaskStatus
  su_slave :: string
  su_uuid :: string

datatype drv_message =
    RegisterFramework FrameworkInfo
  | ReregisterFramework FrameworkInfo bool
  | UnregisterFramework "string option"
  | LaunchTasksMessage "string option" "string list" "TaskInfo list" real
  | AcceptMessage "string option" "string list" "Offer_Operation list" real
  | KillTaskMessage "string option" string
  | ResourceRequestMessage "string option"
  | ReviveOffersMessage "string option"
  | FrameworkToExecutorMessage string "string option" string string
  | ReconcileTasksMessage "string option" "TaskStatus list"
  | StatusUpdateAcknowledgement string "string option" string string

datatype sched_callback =
    CbRegistered string MasterInfo
  | CbReregistered MasterInfo
  | CbDisconnected
  | CbResourceOffers "Offer list"
  | CbOfferRescinded string
  | CbStatusUpdate TaskStatus "string option"
  | CbExecutorLost string string int
  | CbSlaveLost string
  | CbFrameworkMessage string string string
  | CbError string
  | CbNoop

text \<open>
  \<open>DCallbackAuth\<close> is a callback after which its handler runs a deferred \<open>tryAuthentication\<close>,
  \<open>DLost\<close> starts the goroutine that reports tasks as lost, \<open>DStopped\<close> the one that reports why the
  driver stopped, and \<open>DStop\<close> is a call of \<open>Stop\<close> by a goroutine that does not hold the lock.
\<close>

datatype drv_effect =
    DSend UPID drv_message
  | DCallback sched_callback
  | DCallbackAuth sched_callback
  | DRegister
  | DAuthenticate nat UPID
  | DLost "TaskInfo list"
  | DStopped "string option"
  | DStop bool
  | DDetect
  | DCancelDetector

section \<open>The driver\<close>

record cachedOffer =
  co_offer :: Offer
  co_slavePid :: UPID

text \<open>
  \<open>stopClosed\<close> and \<open>drv_started\<close> say whether the signal channels are closed, \<open>queueClosed\<close> whether the
  callback queue is.  The fields \<open>updates\<close> and \<open>tasks\<close> of the struct are never used.  An authentication attempt is a number; those whose channel is closed are listed.
\<close>

record MesosSchedulerDriver =
  masterPid :: "UPID option"
  frameworkInfo :: FrameworkInfo
  selfPid :: "UPID option"
  stopClosed :: bool
  drv_status :: drv_status
  connected :: bool
  drv_connection :: string
  failoverTimeout :: real
  failover :: bool
  savedOffers :: "(string, cachedOffer) gomap"
  savedSlavePids :: "(string, UPID) gomap"
  has_credential :: bool
  authenticated :: bool
  authenticating :: "nat option"
  attemptsDone :: "nat list"
  nextAttempt :: nat
  reauthenticate :: bool
  drv_started :: bool
  queueClosed :: bool

type_synonym 'w Net = "(drv_message, 'w) Messenger"

record DriverConfig =
  dc_Framework :: FrameworkInfo
  dc_Master :: string
  dc_Credential :: "(string \<times> string option) option"
  dc_BindingAddress :: string
  dc_BindingPort :: "16 word"
  dc_PublishedAddress :: "string option"

text \<open>
  The current user and the hostname are arguments, and so is what the detector and the messenger
  answer.  The callbacks, the framework and the authentication context are never nil here.
\<close>

definition NewMesosSchedulerDriver ::
    "string option \<Rightarrow> string \<Rightarrow> string option \<Rightarrow> string option \<Rightarrow> DriverConfig \<Rightarrow> string + MesosSchedulerDriver" where
  "NewMesosSchedulerDriver user hostName detectorErr messengerErr config =
     (if dc_Master config = [] then Inl ''Missing master location URL.''
      else
        let framework1 = dc_Framework config;
            framework2 = (if fi_User framework1 = [] then framework1\<lparr>fi_User := (case user of None \<Rightarrow> [] | Some u \<Rightarrow> u)\<rparr> else framework1);
            framework = (if fi_Hostname framework2 = [] then framework2\<lparr>fi_Hostname := hostName\<rparr> else framework2);
            driver =
              \<lparr>masterPid = None, frameworkInfo = framework, selfPid = None, stopClosed = False,
               drv_status = DRIVER_NOT_STARTED, connected = False, drv_connection = [],
               failoverTimeout =
                 (case fi_FailoverTimeout framework of
                    None \<Rightarrow> 0 | Some t \<Rightarrow> if t > 0 then t * 1000000000 else 0),
               failover = (case fi_Id framework of None \<Rightarrow> False | Some i \<Rightarrow> length i > 0),
               savedOffers = [], savedSlavePids = [], has_credential = (dc_Credential config \<noteq> None),
               authenticated = False, authenticating = None, attemptsDone = [], nextAttempt = 0,
               reauthenticate = False, drv_started = False, queueClosed = False\<rparr> in
        case detectorErr of
          Some e \<Rightarrow> Inl e
        | None \<Rightarrow> (case messengerErr of Some e \<Rightarrow> Inl e | None \<Rightarrow> Inr driver))"

section \<open>The offer cache of the driver\<close>

definition putOffer :: "Offer \<Rightarrow> UPID \<Rightarrow> MesosSchedulerDriver \<Rightarrow> MesosSchedulerDriver" where
  "putOffer offer pid d =
     d\<lparr>savedOffers := gm_put (offer_id offer) \<lparr>co_offer = offer, co_slavePid = pid\<rparr> (savedOffers d)\<rparr>"

definition getOffer :: "string \<Rightarrow> MesosSchedulerDriver \<Rightarrow> cachedOffer option" where
  "getOffer i d = gm_get (savedOffers d) i"

definition containsOffer :: "string \<Rightarrow> MesosSchedulerDriver \<Rightarrow> bool" where
  "containsOffer i d = gm_has (savedOffers d) i"

definition removeOffer :: "string \<Rightarrow> MesosSchedulerDriver \<Rightarrow> MesosSchedulerDriver" where
  "removeOffer i d = d\<lparr>savedOffers := gm_del i (savedOffers d)\<rparr>"

definition putSlavePid :: "string \<Rightarrow> UPID \<Rightarrow> MesosSchedulerDriver \<Rightarrow> MesosSchedulerDriver" where
  "putSlavePid slave pid d = d\<lparr>savedSlavePids := gm_put slave pid (savedSlavePids d)\<rparr>"

definition getSlavePid :: "string \<Rightarrow> MesosSchedulerDriver \<Rightarrow> UPID option" where
  "getSlavePid slave d = gm_get (savedSlavePids d) slave"

definition containsSlavePid :: "string \<Rightarrow> MesosSchedulerDriver \<Rightarrow> bool" where
  "containsSlavePid slave d = gm_has (savedSlavePids d) slave"

definition removeSlavePid :: "string \<Rightarrow> MesosSchedulerDriver \<Rightarrow> MesosSchedulerDriver" where
  "removeSlavePid slave d = d\<lparr>savedSlavePids := gm_del slave (savedSlavePids d)\<rparr>"

section \<open>Sending and calling back\<close>

type_synonym 'w handled = "(MesosSchedulerDriver \<times> drv_effect list) outcome \<times> 'w"

definition drv_ignored :: "MesosSchedulerDriver \<Rightarrow> 'w \<Rightarrow> 'w handled" where
  "drv_ignored d w = (Returns (d, []), w)"

text \<open>The messenger panics on a nil address.  The result is the error and the effect.\<close>

definition drv_send :: "'w Net \<Rightarrow> UPID option \<Rightarrow> drv_message \<Rightarrow> 'w \<Rightarrow> (string option \<times> drv_effect list) outcome \<times> 'w" where
  "drv_send net pid msg w =
     (case pid of
        None \<Rightarrow> (Panics, w)
      | Some p \<Rightarrow> (let (err, w1) = net_send net p msg w in (Returns (err, [DSend p msg]), w1)))"

text \<open>
  A callback is handed to the queue, unless the queue is closed.  One attempt to put it on the queue
  is \<open>trySend\<close>: \<open>first\<close> and \<open>final\<close> say whether the scheduler takes it at the first \<open>select\<close> and at
  the last one, which a stopping driver adds before it closes the queue.  The results are whether the
  sender is done, the driver and the callbacks taken.
\<close>

definition withScheduler :: "sched_callback \<Rightarrow> MesosSchedulerDriver \<Rightarrow> drv_effect list" where
  "withScheduler cb d = (if queueClosed d then [] else [DCallback cb])"

definition trySend ::
    "bool \<Rightarrow> bool \<Rightarrow> sched_callback \<Rightarrow> MesosSchedulerDriver \<Rightarrow> bool \<times> MesosSchedulerDriver \<times> sched_callback list" where
  "trySend first final cb d =
     (if queueClosed d then (True, d, [])
      else if stopClosed d then
        (True, d\<lparr>queueClosed := True\<rparr>, (if first then [cb] else []) @ (if final then [cb] else []))
      else (first, d, if first then [cb] else []))"

definition call_back :: "sched_callback \<Rightarrow> MesosSchedulerDriver \<Rightarrow> 'w \<Rightarrow> 'w handled" where
  "call_back cb d w = (Returns (d, withScheduler cb d), w)"

definition drv_stopped :: "MesosSchedulerDriver \<Rightarrow> bool" where
  "drv_stopped d \<longleftrightarrow> drv_status d \<noteq> DRIVER_RUNNING"

section \<open>Authentication\<close>

definition cancel_attempt :: "nat option \<Rightarrow> MesosSchedulerDriver \<Rightarrow> MesosSchedulerDriver" where
  "cancel_attempt a d = (case a of None \<Rightarrow> d | Some i \<Rightarrow> d\<lparr>attemptsDone := i # attemptsDone d\<rparr>)"

definition inProgress :: "MesosSchedulerDriver \<Rightarrow> bool" where
  "inProgress d = (case authenticating d of None \<Rightarrow> False | Some i \<Rightarrow> i \<notin> set (attemptsDone d))"

definition tryAuthentication :: "MesosSchedulerDriver \<Rightarrow> (MesosSchedulerDriver \<times> drv_effect list) outcome" where
  "tryAuthentication d =
     (if authenticated d then Panics
      else
        case masterPid d of
          None \<Rightarrow> Returns (d, [])
        | Some pid \<Rightarrow>
            (if inProgress d then Returns ((cancel_attempt (authenticating d) d)\<lparr>reauthenticate := True\<rparr>, [])
             else if has_credential d then
               Returns (d\<lparr>authenticating := Some (nextAttempt d), nextAttempt := nextAttempt d + 1\<rparr>,
                 [DAuthenticate (nextAttempt d) pid])
             else Returns (d\<lparr>authenticated := True\<rparr>, [DRegister])))"

definition handleAuthenticationResult ::
    "UPID option \<Rightarrow> bool \<Rightarrow> bool \<Rightarrow> string \<Rightarrow> MesosSchedulerDriver \<Rightarrow> (MesosSchedulerDriver \<times> drv_effect list) outcome" where
  "handleAuthenticationResult from completed success pid d =
     (if drv_status d \<noteq> DRIVER_RUNNING then Returns (d, [])
      else if \<not> upid_Equal from (selfPid d) then Returns (d, [])
      else if authenticated d then Panics
      else
        case masterPid d of
          None \<Rightarrow> Returns ((cancel_attempt (authenticating d) d)\<lparr>reauthenticate := False\<rparr>, [])
        | Some m \<Rightarrow>
            (if reauthenticate d \<or> \<not> completed \<or> upid_String m \<noteq> pid then
               tryAuthentication ((cancel_attempt (authenticating d) d)\<lparr>reauthenticate := False\<rparr>)
             else if \<not> success then Returns (d, [])
             else Returns (d\<lparr>authenticated := True\<rparr>, [DRegister])))"

section \<open>Messages from the messenger\<close>

definition handleNetworkError ::
    "UPID option \<Rightarrow> string \<Rightarrow> string \<Rightarrow> MesosSchedulerDriver \<Rightarrow> 'w \<Rightarrow> 'w handled" where
  "handleNetworkError from pid session d w =
     (if drv_status d = DRIVER_ABORTED then drv_ignored d w
      else if \<not> upid_Equal from (selfPid d) then drv_ignored d w
      else if \<not> connected d then drv_ignored d w
      else
        case masterPid d of
          None \<Rightarrow> (Panics, w)
        | Some m \<Rightarrow>
            (if upid_String m = pid \<and> drv_connection d = session then
               call_back CbDisconnected (d\<lparr>masterPid := None, connected := False, authenticated := False\<rparr>) w
             else drv_ignored d w))"

text \<open>
  The lock is released for the callback, and the deferred \<open>tryAuthentication\<close> runs after that.
\<close>

definition handleMasterChanged ::
    "'w Net \<Rightarrow> UPID option \<Rightarrow> string option \<Rightarrow> MesosSchedulerDriver \<Rightarrow> 'w \<Rightarrow> 'w handled" where
  "handleMasterChanged net from master d w =
     (if drv_status d = DRIVER_ABORTED then drv_ignored d w
      else if \<not> upid_Equal from (selfPid d) then drv_ignored d w
      else
        let alert = connected d;
            d1 = d\<lparr>connected := False, authenticated := False, masterPid := (if alert then None else masterPid d)\<rparr> in
        case master of
          None \<Rightarrow> if alert then call_back CbDisconnected d1 w else drv_ignored d1 w
        | Some text \<Rightarrow>
            (case upid_Parse (resolves net) text of
               None \<Rightarrow> (Panics, w)
             | Some pid \<Rightarrow>
                 (let d2 = d1\<lparr>masterPid := Some pid\<rparr> in
                  if alert \<and> \<not> queueClosed d then (Returns (d2, [DCallbackAuth CbDisconnected]), w)
                  else (tryAuthentication d2, w))))"

section \<open>Messages from the master\<close>

definition frameworkRegistered ::
    "'w Net \<Rightarrow> UPID option \<Rightarrow> string \<Rightarrow> MasterInfo \<Rightarrow> MesosSchedulerDriver \<Rightarrow> 'w \<Rightarrow> 'w handled" where
  "frameworkRegistered net from frameworkId info d w =
     (if drv_status d = DRIVER_ABORTED then drv_ignored d w
      else if connected d then drv_ignored d w
      else if drv_stopped d then drv_ignored d w
      else if \<not> upid_Equal (masterPid d) from then drv_ignored d w
      else
        let (c, w1) = new_uuid net w in
        call_back (CbRegistered frameworkId info)
          (d\<lparr>frameworkInfo := (frameworkInfo d)\<lparr>fi_Id := Some frameworkId\<rparr>, connected := True, failover := False, drv_connection := c\<rparr>) w1)"

definition frameworkReregistered ::
    "'w Net \<Rightarrow> UPID option \<Rightarrow> MasterInfo \<Rightarrow> MesosSchedulerDriver \<Rightarrow> 'w \<Rightarrow> 'w handled" where
  "frameworkReregistered net from info d w =
     (if drv_status d = DRIVER_ABORTED then drv_ignored d w
      else if connected d then drv_ignored d w
      else if \<not> upid_Equal (masterPid d) from then drv_ignored d w
      else
        let (c, w1) = new_uuid net w in
        call_back (CbReregistered info) (d\<lparr>connected := True, failover := False, drv_connection := c\<rparr>) w1)"

fun cache_offers :: "(string \<Rightarrow> bool) \<Rightarrow> Offer list \<Rightarrow> string list \<Rightarrow> MesosSchedulerDriver \<Rightarrow> MesosSchedulerDriver" where
  "cache_offers res (offer # offers) (p # ps) d =
     cache_offers res offers ps (case upid_Parse res p of None \<Rightarrow> d | Some pid \<Rightarrow> putOffer offer pid d)"
| "cache_offers res offers ps d = d"

definition resourcesOffered :: "'w Net \<Rightarrow> Offer list \<Rightarrow> string list \<Rightarrow> MesosSchedulerDriver \<Rightarrow> 'w \<Rightarrow> 'w handled" where
  "resourcesOffered net offers pids d w =
     (if drv_status d = DRIVER_ABORTED then drv_ignored d w
      else if \<not> connected d then drv_ignored d w
      else if length pids \<noteq> length offers then drv_ignored d w
      else call_back (CbResourceOffers offers) (cache_offers (resolves net) offers pids d) w)"

definition resourceOfferRescinded :: "string \<Rightarrow> MesosSchedulerDriver \<Rightarrow> 'w \<Rightarrow> 'w handled" where
  "resourceOfferRescinded offerId d w =
     (if drv_status d = DRIVER_ABORTED then drv_ignored d w
      else if \<not> connected d then drv_ignored d w
      else call_back (CbOfferRescinded offerId) (removeOffer offerId d) w)"

text \<open>An update is acknowledged if it has an identifier and comes from a slave, not from this driver.\<close>

definition statusUpdated ::
    "'w Net \<Rightarrow> UPID option \<Rightarrow> StatusUpdateInfo \<Rightarrow> string \<Rightarrow> MesosSchedulerDriver \<Rightarrow> 'w \<Rightarrow> 'w handled" where
  "statusUpdated net from u pid d w =
     (if drv_status d \<noteq> DRIVER_RUNNING then drv_ignored d w
      else if \<not> upid_Equal from (selfPid d) \<and> \<not> connected d then drv_ignored d w
      else if \<not> upid_Equal from (selfPid d) \<and> \<not> upid_Equal (masterPid d) from then drv_ignored d w
      else
        case selfPid d of
          None \<Rightarrow> (Panics, w)
        | Some me \<Rightarrow>
            (let own = (upid_Equal from (selfPid d) \<or> pid = upid_String me);
                 uuid = (if su_uuid u = [] \<or> own then None else Some (su_uuid u)) in
             if su_uuid u \<noteq> [] \<and> \<not> own then
               (case drv_send net (masterPid d)
                       (StatusUpdateAcknowledgement (su_slave u) (fi_Id (frameworkInfo d)) (task_id (su_status u)) (su_uuid u)) w of
                  (Panics, w1) \<Rightarrow> (Panics, w1)
                | (Returns (_, es), w1) \<Rightarrow>
(Returns (d, es @ withScheduler (CbStatusUpdate (su_status u) uuid) d), w1))
             else call_back (CbStatusUpdate (su_status u) uuid) d w))"

definition exitedExecutor ::
    "string \<Rightarrow> string \<Rightarrow> int \<Rightarrow> MesosSchedulerDriver \<Rightarrow> 'w \<Rightarrow> 'w handled" where
  "exitedExecutor executor slave code d w =
     (if drv_status d = DRIVER_ABORTED then drv_ignored d w
      else if \<not> connected d then drv_ignored d w
      else call_back (CbExecutorLost executor slave code) d w)"

definition slaveLost :: "string \<Rightarrow> MesosSchedulerDriver \<Rightarrow> 'w \<Rightarrow> 'w handled" where
  "slaveLost slave d w =
     (if drv_status d = DRIVER_ABORTED then drv_ignored d w
      else if \<not> connected d then drv_ignored d w
      else call_back (CbSlaveLost slave) (removeSlavePid slave d) w)"

definition frameworkMessageRcvd ::
    "string \<Rightarrow> string \<Rightarrow> string \<Rightarrow> MesosSchedulerDriver \<Rightarrow> 'w \<Rightarrow> 'w handled" where
  "frameworkMessageRcvd executor slave data d w =
     (if drv_status d = DRIVER_ABORTED then drv_ignored d w
      else call_back (CbFrameworkMessage executor slave data) d w)"

section \<open>Starting and stopping\<close>

text \<open>A method returns a status and perhaps an error, with the driver and the effects.\<close>

type_synonym 'w called = "((drv_status \<times> string option) \<times> MesosSchedulerDriver \<times> drv_effect list) outcome \<times> 'w"

definition drv_refused :: "string \<Rightarrow> MesosSchedulerDriver \<Rightarrow> 'w \<Rightarrow> 'w called" where
  "drv_refused e d w = (Returns ((drv_status d, Some e), d, []), w)"

definition drv_Start :: "'w Net \<Rightarrow> MesosSchedulerDriver \<Rightarrow> 'w \<Rightarrow> 'w called" where
  "drv_Start net d w =
     (if drv_started d then drv_refused ''Unable to Start: driver has already been started once.'' d w
      else if drv_status d \<noteq> DRIVER_NOT_STARTED then
        drv_refused (''Unable to Start, expecting driver status DRIVER_NOT_STARTED, but is '' @ status_name (drv_status d) @ '':'') d w
      else
        case net_start net w of
          (Inl e, w1) \<Rightarrow> drv_refused e d w1
        | (Inr pid, w1) \<Rightarrow>
            (Returns ((DRIVER_RUNNING, None),
               d\<lparr>selfPid := Some pid, drv_status := DRIVER_RUNNING, drv_started := True\<rparr>, [DDetect]), w1))"

text \<open>
  \<open>_stop\<close>: the channel is closed once, and a goroutine then reports the cause, if any, to the scheduler.
\<close>

definition stop_messenger ::
    "'w Net \<Rightarrow> string option \<Rightarrow> drv_status \<Rightarrow> MesosSchedulerDriver \<Rightarrow> 'w \<Rightarrow> 'w called" where
  "stop_messenger net cause stopStatus d w =
     (let d1 = d\<lparr>drv_status := stopStatus, connected := False, drv_connection := []\<rparr>;
          (err, w1) = net_stop net w in
      (Returns ((stopStatus, err), d1\<lparr>stopClosed := True\<rparr>, if stopClosed d then [] else [DStopped cause]), w1))"

definition drv_Stop :: "'w Net \<Rightarrow> string option \<Rightarrow> bool \<Rightarrow> MesosSchedulerDriver \<Rightarrow> 'w \<Rightarrow> 'w called" where
  "drv_Stop net cause failingOver d w =
     (if drv_status d \<noteq> DRIVER_RUNNING then
        drv_refused (''Unable to Stop, expected driver status DRIVER_RUNNING, but is '' @ status_name (drv_status d)) d w
      else if connected d \<and> \<not> failingOver then
        (case drv_send net (masterPid d) (UnregisterFramework (fi_Id (frameworkInfo d))) w of
           (Panics, w1) \<Rightarrow> (Panics, w1)
         | (Returns (err, es), w1) \<Rightarrow>
             (case (if err = None then stop_messenger net cause DRIVER_STOPPED d w1
                    else stop_messenger net (if cause = None then Some ''driver-aborted'' else cause) DRIVER_ABORTED d w1) of
                (Panics, w2) \<Rightarrow> (Panics, w2)
              | (Returns (r, d1, es1), w2) \<Rightarrow> (Returns (r, d1, es @ es1), w2)))
      else stop_messenger net cause DRIVER_STOPPED d w)"

text \<open>The goroutine started by \<open>_stop\<close>.\<close>

definition report_stop :: "string option \<Rightarrow> MesosSchedulerDriver \<Rightarrow> 'w \<Rightarrow> 'w handled" where
  "report_stop cause d w = call_back (case cause of Some e \<Rightarrow> CbError e | None \<Rightarrow> CbNoop) d w"

definition drv_Abort :: "'w Net \<Rightarrow> string option \<Rightarrow> MesosSchedulerDriver \<Rightarrow> 'w \<Rightarrow> 'w called" where
  "drv_Abort net cause d w =
     (case (if connected d then drv_Stop net cause True d w else stop_messenger net cause DRIVER_ABORTED d w) of
        (Panics, w1) \<Rightarrow> (Panics, w1)
      | (Returns ((_, err), d1, es), w1) \<Rightarrow>
          (Returns ((DRIVER_ABORTED, if connected d then err else None),
             d1\<lparr>drv_status := DRIVER_ABORTED\<rparr>, es @ [DCancelDetector]), w1))"

text \<open>The errors of \<open>ErrDriverAborted\<close>.\<close>

definition aborted_text :: "string \<Rightarrow> string" where
  "aborted_text reason = (if reason \<noteq> [] then reason else ''driver-aborted'')"

definition drv_fatal :: "'w Net \<Rightarrow> string \<Rightarrow> MesosSchedulerDriver \<Rightarrow> 'w \<Rightarrow> 'w handled" where
  "drv_fatal net err d w =
     (if drv_status d = DRIVER_ABORTED then drv_ignored d w
      else
        case drv_Abort net (Some (aborted_text err)) d w of
          (Panics, w1) \<Rightarrow> (Panics, w1)
        | (Returns (_, d1, es), w1) \<Rightarrow> (Returns (d1, es), w1))"

definition frameworkErrorRcvd :: "'w Net \<Rightarrow> string \<Rightarrow> MesosSchedulerDriver \<Rightarrow> 'w \<Rightarrow> 'w handled" where
  "frameworkErrorRcvd net msg d w = drv_fatal net msg d w"

text \<open>\<open>drv_Join\<close> waits until no more events are processed; it is refused unless the driver runs.\<close>

definition drv_Join :: "MesosSchedulerDriver \<Rightarrow> 'w \<Rightarrow> 'w called option" where
  "drv_Join d w =
     (if drv_status d \<noteq> DRIVER_RUNNING then
        Some (drv_refused (''Unable to Join, expecting driver status DRIVER_RUNNING, but is '' @ status_name (drv_status d)) d w)
      else None)"

text \<open>\<open>run\<close> until it waits in \<open>drv_Join\<close> (\<open>None\<close>).\<close>

definition drv_run :: "'w Net \<Rightarrow> MesosSchedulerDriver \<Rightarrow> 'w \<Rightarrow> 'w called + (MesosSchedulerDriver \<times> drv_effect list) \<times> 'w" where
  "drv_run net d w =
     (case drv_Start net d w of
        (Panics, w1) \<Rightarrow> Inl (Panics, w1)
      | (Returns ((_, Some e), d1, _), w1) \<Rightarrow> Inl (drv_Stop net (Some e) False d1 w1)
      | (Returns ((_, None), d1, es), w1) \<Rightarrow> Inr ((d1, es), w1))"

section \<open>Registration\<close>

definition register_message :: "MesosSchedulerDriver \<Rightarrow> drv_message" where
  "register_message d =
     (let info = frameworkInfo d in
      if (case fi_Id info of None \<Rightarrow> False | Some i \<Rightarrow> length i > 0) then ReregisterFramework info (failover d)
      else RegisterFramework info)"

text \<open>
  The first component says whether to try again later.  The lock is not held when the message is
  sent, and a failure to send it stops the driver.
\<close>

definition registerOnce :: "'w Net \<Rightarrow> MesosSchedulerDriver \<Rightarrow> 'w \<Rightarrow> (bool \<times> drv_effect list) outcome \<times> 'w" where
  "registerOnce net d w =
     (if drv_stopped d \<or> connected d \<or> masterPid d = None \<or> has_credential d \<and> \<not> authenticated d then
        (Returns (False, []), w)
      else
        case drv_send net (masterPid d) (register_message d) w of
          (Panics, w1) \<Rightarrow> (Panics, w1)
        | (Returns (None, es), w1) \<Rightarrow> (Returns (True, es), w1)
        | (Returns (Some _, es), w1) \<Rightarrow> (Returns (True, es @ [DStop (failover d)]), w1))"

text \<open>The bound of the next pause of \<open>doReliableRegistration\<close> in nanoseconds; it doubles with every round.\<close>

definition bound_backoff :: "MesosSchedulerDriver \<Rightarrow> real \<Rightarrow> real" where
  "bound_backoff d maxBackoff =
     (let b = min maxBackoff 60000000000 in
      if failoverTimeout d > 0 then min b (failoverTimeout d / 10) else b)"

definition registrationBackoffFactor :: real where
  "registrationBackoffFactor = 2000000000"

text \<open>
  One round of the loop of \<open>doReliableRegistration\<close>: \<open>None\<close> when it returns, otherwise the bound for
  the next round; the pause in between is at most half of it.
\<close>

definition registration_round ::
    "'w Net \<Rightarrow> real \<Rightarrow> MesosSchedulerDriver \<Rightarrow> 'w \<Rightarrow> (real option \<times> drv_effect list) outcome \<times> 'w" where
  "registration_round net maxBackoff d w =
     (case registerOnce net d w of
        (Panics, w1) \<Rightarrow> (Panics, w1)
      | (Returns (again, es), w1) \<Rightarrow>
          (Returns (if again then Some (2 * bound_backoff d maxBackoff) else None, es), w1))"

fun backoff_after :: "MesosSchedulerDriver \<Rightarrow> nat \<Rightarrow> real" where
  "backoff_after d 0 = bound_backoff d registrationBackoffFactor"
| "backoff_after d (Suc n) = bound_backoff d (2 * backoff_after d n)"

section \<open>Methods for the scheduler\<close>

abbreviation ErrDisconnected :: string where
  "ErrDisconnected \<equiv> ''disconnected from mesos master''"

definition not_running :: "string \<Rightarrow> MesosSchedulerDriver \<Rightarrow> string" where
  "not_running method d =
     ''Unable to '' @ method @ '', expecting driver status DRIVER_RUNNING, but got '' @ status_name (drv_status d)"

text \<open>The methods that send one message to the master.\<close>

definition call_master :: "'w Net \<Rightarrow> string \<Rightarrow> drv_message \<Rightarrow> MesosSchedulerDriver \<Rightarrow> 'w \<Rightarrow> 'w called" where
  "call_master net method msg d w =
     (if drv_status d \<noteq> DRIVER_RUNNING then drv_refused (not_running method d) d w
      else if \<not> connected d then drv_refused ErrDisconnected d w
      else
        case drv_send net (masterPid d) msg w of
          (Panics, w1) \<Rightarrow> (Panics, w1)
        | (Returns (err, es), w1) \<Rightarrow> (Returns ((drv_status d, err), d, es), w1))"

definition drv_KillTask :: "'w Net \<Rightarrow> string \<Rightarrow> MesosSchedulerDriver \<Rightarrow> 'w \<Rightarrow> 'w called" where
  "drv_KillTask net taskId d w = call_master net ''KillTask'' (KillTaskMessage (fi_Id (frameworkInfo d)) taskId) d w"

definition drv_RequestResources :: "'w Net \<Rightarrow> MesosSchedulerDriver \<Rightarrow> 'w \<Rightarrow> 'w called" where
  "drv_RequestResources net d w = call_master net ''RequestResources'' (ResourceRequestMessage (fi_Id (frameworkInfo d))) d w"

definition drv_ReviveOffers :: "'w Net \<Rightarrow> MesosSchedulerDriver \<Rightarrow> 'w \<Rightarrow> 'w called" where
  "drv_ReviveOffers net d w = call_master net ''ReviveOffers'' (ReviveOffersMessage (fi_Id (frameworkInfo d))) d w"

definition msd_ReconcileTasks :: "'w Net \<Rightarrow> TaskStatus list \<Rightarrow> MesosSchedulerDriver \<Rightarrow> 'w \<Rightarrow> 'w called" where
  "msd_ReconcileTasks net statuses d w =
     call_master net ''ReconcileTasks'' (ReconcileTasksMessage (fi_Id (frameworkInfo d)) statuses) d w"

definition drv_SendFrameworkMessage :: "'w Net \<Rightarrow> string \<Rightarrow> string \<Rightarrow> string \<Rightarrow> MesosSchedulerDriver \<Rightarrow> 'w \<Rightarrow> 'w called" where
  "drv_SendFrameworkMessage net executorId slaveId data d w =
     (if drv_status d \<noteq> DRIVER_RUNNING then drv_refused (not_running ''SendFrameworkMessage'' d) d w
      else if \<not> connected d then drv_refused ErrDisconnected d w
      else
        let message = FrameworkToExecutorMessage slaveId (fi_Id (frameworkInfo d)) executorId data;
            target = (if containsSlavePid slaveId d then getSlavePid slaveId d else masterPid d) in
        if containsSlavePid slaveId d \<and> upid_Equal (getSlavePid slaveId d) (selfPid d) then (Returns ((drv_status d, None), d, []), w)
        else
          case drv_send net target message w of
            (Panics, w1) \<Rightarrow> (Panics, w1)
          | (Returns (err, es), w1) \<Rightarrow> (Returns ((drv_status d, err), d, es), w1))"

text \<open>The slaves that tasks are launched on are remembered, the offers that are used are forgotten.\<close>

definition note_slave :: "string \<Rightarrow> TaskInfo \<Rightarrow> MesosSchedulerDriver \<Rightarrow> MesosSchedulerDriver" where
  "note_slave offerId t d =
     (case getOffer offerId d of
        None \<Rightarrow> d
      | Some co \<Rightarrow> if slave_id (co_offer co) = task_slave t then putSlavePid (task_slave t) (co_slavePid co) d else d)"

definition use_offer :: "TaskInfo list \<Rightarrow> string \<Rightarrow> MesosSchedulerDriver \<Rightarrow> MesosSchedulerDriver" where
  "use_offer ts offerId d = removeOffer offerId (fold (note_slave offerId) ts d)"

text \<open>
  The framework identifier of the executors of the tasks is part of the message here.  Tasks that
  could not be sent are reported as lost by a goroutine (\<open>DLost\<close>).
\<close>

definition msd_LaunchTasks ::
    "'w Net \<Rightarrow> string list \<Rightarrow> TaskInfo list \<Rightarrow> real \<Rightarrow> MesosSchedulerDriver \<Rightarrow> 'w \<Rightarrow> 'w called" where
  "msd_LaunchTasks net offerIds ts filters d w =
     (if drv_status d \<noteq> DRIVER_RUNNING then
        drv_refused (''Unable to LaunchTasks, expected driver status DRIVER_RUNNING, but got '' @ status_name (drv_status d)) d w
      else if \<not> connected d then (Returns ((drv_status d, Some ErrDisconnected), d, [DLost ts]), w)
      else
        let d1 = fold (use_offer ts) offerIds d in
        case drv_send net (masterPid d1) (LaunchTasksMessage (fi_Id (frameworkInfo d1)) offerIds ts filters) w of
          (Panics, w1) \<Rightarrow> (Panics, w1)
        | (Returns (None, es), w1) \<Rightarrow> (Returns ((drv_status d1, None), d1, es), w1)
        | (Returns (Some e, es), w1) \<Rightarrow> (Returns ((drv_status d1, Some e), d1, es @ [DLost ts]), w1))"

definition msd_DeclineOffer :: "'w Net \<Rightarrow> string \<Rightarrow> real \<Rightarrow> MesosSchedulerDriver \<Rightarrow> 'w \<Rightarrow> 'w called" where
  "msd_DeclineOffer net offerId filters d w = msd_LaunchTasks net [offerId] [] filters d w"

text \<open>
  \<open>AcceptOffers\<close>: for every offer that is known, every operation, with the resources it may have, is
  appended to the operations of the message.
\<close>

definition ok_operation :: "Offer_Operation \<Rightarrow> Offer_Operation" where
  "ok_operation operation =
     (let reserved = filter op_Reservation;
          volumes = filter (\<lambda>r. op_Reservation r \<and> op_Disk r \<and> res_name r = ''disk'') in
      case operation of
        OpLaunch ts \<Rightarrow> OpLaunch ts
      | OpReserve rs \<Rightarrow> OpReserve (reserved rs)
      | OpUnreserve rs \<Rightarrow> OpUnreserve (reserved rs)
      | OpCreate rs \<Rightarrow> OpCreate (volumes rs)
      | OpDestroy rs \<Rightarrow> OpDestroy (volumes rs))"

definition operation_tasks :: "Offer_Operation \<Rightarrow> TaskInfo list" where
  "operation_tasks operation = (case operation of OpLaunch ts \<Rightarrow> ts | _ \<Rightarrow> [])"

definition accept_operation ::
    "string \<Rightarrow> Offer_Operation \<Rightarrow> Offer_Operation list \<times> MesosSchedulerDriver \<Rightarrow> Offer_Operation list \<times> MesosSchedulerDriver" where
  "accept_operation offerId operation acc =
     (let (okOperations, d) = acc in
      if \<not> containsOffer offerId d then (okOperations, d)
      else (okOperations @ [ok_operation operation], fold (note_slave offerId) (operation_tasks operation) d))"

definition accept_offer ::
    "Offer_Operation list \<Rightarrow> string \<Rightarrow> Offer_Operation list \<times> MesosSchedulerDriver \<Rightarrow> Offer_Operation list \<times> MesosSchedulerDriver" where
  "accept_offer operations offerId acc =
     (let (okOperations, d) = fold (accept_operation offerId) operations acc in (okOperations, removeOffer offerId d))"

fun lost_operations :: "Offer_Operation list \<Rightarrow> drv_effect list" where
  "lost_operations [] = []"
| "lost_operations (OpLaunch ts # ops) = DLost ts # lost_operations ops"
| "lost_operations (_ # ops) = lost_operations ops"

definition AcceptOffers ::
    "'w Net \<Rightarrow> string list \<Rightarrow> Offer_Operation list \<Rightarrow> real \<Rightarrow> MesosSchedulerDriver \<Rightarrow> 'w \<Rightarrow> 'w called" where
  "AcceptOffers net offerIds operations filters d w =
     (if drv_status d \<noteq> DRIVER_RUNNING then
        drv_refused (''Unable to AcceptOffers, expected driver status DRIVER_RUNNING, but got '' @ status_name (drv_status d)) d w
      else if \<not> connected d then (Returns ((drv_status d, Some ErrDisconnected), d, lost_operations operations), w)
      else
        let (okOperations, d1) = fold (accept_offer operations) offerIds ([], d) in
        case drv_send net (masterPid d1) (AcceptMessage (fi_Id (frameworkInfo d1)) offerIds okOperations filters) w of
          (Panics, w1) \<Rightarrow> (Panics, w1)
        | (Returns (None, es), w1) \<Rightarrow> (Returns ((drv_status d1, None), d1, es), w1)
        | (Returns (Some e, es), w1) \<Rightarrow> (Returns ((drv_status d1, Some e), d1, es @ lost_operations operations), w1))"

definition lost_update :: "TaskInfo \<Rightarrow> StatusUpdateInfo" where
  "lost_update t =
     \<lparr>su_status = \<lparr>task_id = task_info_id t, status_slave = [], task_state = TASK_LOST\<rparr>, su_slave = task_slave t, su_uuid = []\<rparr>"

definition pushLostTask :: "'w Net \<Rightarrow> TaskInfo \<Rightarrow> MesosSchedulerDriver \<Rightarrow> 'w \<Rightarrow> 'w handled" where
  "pushLostTask net t d w =
     (case selfPid d of
        None \<Rightarrow> (Panics, w)
      | Some me \<Rightarrow> statusUpdated net (selfPid d) (lost_update t) (upid_String me) d w)"

end
