(* ===== verification/Exec_Driver.thy ===== *)
theory Exec_Driver
  imports Go_World Mesos Upid Transition
begin

text \<open>
  The executor driver of mesos-go (\<open>executor/executor.go\<close> of the vendored package), through which the
  executor of etcd-mesos talks to the Mesos slave.  Handlers and methods run under the lock of the
  driver and are one definition each; callbacks run in goroutines of their own, one at a time, in any
  order.  The keys of the maps \<open>updates\<close> and \<open>tasks\<close> are the texts of the identifiers.
\<close>

section \<open>Messages and state\<close>

record ExecUpdate =
  eu_framework :: string
  eu_executor :: string
  eu_slave :: string
  eu_status :: TaskStatus
  eu_uuid :: string

datatype exec_message =
    RegisterExecutor string string
  | ReregisterExecutor string string "ExecUpdate list" "TaskInfo list"
  | ExecStatusUpdate ExecUpdate string
  | ExecutorToFramework string string string string

datatype exec_callback =
    XcRegistered
  | XcReregistered
  | XcDisconnected
  | XcLaunchTask TaskInfo
  | XcKillTask string
  | XcFrameworkMessage string
  | XcShutdown
  | XcError string

datatype xd_effect = XdSend UPID exec_message | XdCallback exec_callback

type_synonym 'w XNet = "(exec_message, 'w) Messenger"

text \<open>
  \<open>xd_stopClosed\<close> and \<open>xd_started\<close> say whether the signal channels are closed; \<open>recoveryTimer\<close> is the
  connection for which a timer runs.
\<close>

record MesosExecutorDriver =
  xd_self :: "UPID option"
  xd_stopClosed :: bool
  xd_status :: drv_status
  slaveUPID :: "UPID option"
  xd_slaveID :: string
  xd_frameworkID :: string
  xd_executorID :: string
  workDir :: string
  xd_connected :: bool
  xd_connection :: string
  xd_local :: bool
  xd_checkpoint :: bool
  recoveryTimer :: "string option"
  xd_updates :: "(string, ExecUpdate) gomap"
  xd_tasks :: "(string, TaskInfo) gomap"
  xd_started :: bool

text \<open>The environment is an argument; \<open>None\<close> is an error.\<close>

definition parseEnviroments ::
    "(string \<Rightarrow> string) \<Rightarrow> (string \<Rightarrow> bool) \<Rightarrow> MesosExecutorDriver \<Rightarrow> MesosExecutorDriver option" where
  "parseEnviroments getenv accepts d =
     (if getenv ''MESOS_SLAVE_PID'' = [] then None
      else
        case upid_Parse accepts (getenv ''MESOS_SLAVE_PID'') of
          None \<Rightarrow> None
        | Some pid \<Rightarrow>
            Some (d\<lparr>xd_local := (xd_local d \<or> getenv ''MESOS_LOCAL'' \<noteq> []), slaveUPID := Some pid, xd_slaveID := getenv ''MESOS_SLAVE_ID'',
              xd_frameworkID := getenv ''MESOS_FRAMEWORK_ID'', xd_executorID := getenv ''MESOS_EXECUTOR_ID'',
              workDir := (if getenv ''MESOS_DIRECTORY'' \<noteq> [] then getenv ''MESOS_DIRECTORY'' else workDir d),
              xd_checkpoint := (xd_checkpoint d \<or> getenv ''MESOS_CHECKPOINT'' = ''1'')\<rparr>))"

definition NewMesosExecutorDriver ::
    "(string \<Rightarrow> string) \<Rightarrow> (string \<Rightarrow> bool) \<Rightarrow> bool \<Rightarrow> bool \<Rightarrow> MesosExecutorDriver option" where
  "NewMesosExecutorDriver getenv accepts hasExecutor messengerOk =
     (if \<not> hasExecutor then None
      else if \<not> messengerOk then None
      else parseEnviroments getenv accepts
        \<lparr>xd_self = None, xd_stopClosed = False, xd_status = DRIVER_NOT_STARTED, slaveUPID = None, xd_slaveID = [],
         xd_frameworkID = [], xd_executorID = [], workDir = ''.'', xd_connected = False, xd_connection = [],
         xd_local = False, xd_checkpoint = False, recoveryTimer = None, xd_updates = [], xd_tasks = [], xd_started = False\<rparr>)"

type_synonym 'w xd_handled = "(MesosExecutorDriver \<times> xd_effect list) outcome \<times> 'w"

type_synonym 'w xd_called = "((drv_status \<times> string option) \<times> MesosExecutorDriver \<times> xd_effect list) outcome \<times> 'w"

definition xd_ignored :: "MesosExecutorDriver \<Rightarrow> 'w \<Rightarrow> 'w xd_handled" where
  "xd_ignored d w = (Returns (d, []), w)"

definition xd_refused :: "string \<Rightarrow> drv_status \<Rightarrow> MesosExecutorDriver \<Rightarrow> 'w \<Rightarrow> 'w xd_called" where
  "xd_refused what expected d w =
     (Returns ((xd_status d, Some (''Unable to '' @ what @ '' '' @ status_name expected @
        '', but got '' @ status_name (xd_status d))), d, []), w)"

definition xd_stopped :: "MesosExecutorDriver \<Rightarrow> bool" where
  "xd_stopped d \<longleftrightarrow> xd_status d \<noteq> DRIVER_RUNNING"

text \<open>The messenger panics on a nil address.\<close>

definition xd_send :: "'w XNet \<Rightarrow> UPID option \<Rightarrow> exec_message \<Rightarrow> 'w \<Rightarrow> (string option \<times> xd_effect list) outcome \<times> 'w" where
  "xd_send net pid msg w =
     (case pid of
        None \<Rightarrow> (Panics, w)
      | Some p \<Rightarrow> (let (err, w1) = net_send net p msg w in (Returns (err, [XdSend p msg]), w1)))"

section \<open>Stopping\<close>

definition xd_stop_messenger :: "'w XNet \<Rightarrow> drv_status \<Rightarrow> MesosExecutorDriver \<Rightarrow> 'w \<Rightarrow> (string option \<times> MesosExecutorDriver) \<times> 'w" where
  "xd_stop_messenger net stopStatus d w =
     (let (err, w1) = net_stop net w in ((err, d\<lparr>xd_status := stopStatus, xd_stopClosed := True\<rparr>), w1))"

definition xd_Stop :: "'w XNet \<Rightarrow> MesosExecutorDriver \<Rightarrow> 'w \<Rightarrow> 'w xd_called" where
  "xd_Stop net d w =
     (if xd_status d \<noteq> DRIVER_RUNNING then xd_refused ''Stop, expecting status'' DRIVER_RUNNING d w
      else let ((err, d1), w1) = xd_stop_messenger net DRIVER_STOPPED d w in (Returns ((DRIVER_STOPPED, err), d1, []), w1))"

definition xd_Abort :: "'w XNet \<Rightarrow> MesosExecutorDriver \<Rightarrow> 'w \<Rightarrow> 'w xd_called" where
  "xd_Abort net d w =
     (if xd_status d \<noteq> DRIVER_RUNNING then xd_refused ''Stop, expecting status'' DRIVER_RUNNING d w
      else let ((err, d1), w1) = xd_stop_messenger net DRIVER_ABORTED d w in (Returns ((DRIVER_ABORTED, err), d1, []), w1))"

text \<open>A callback and then a stop, whose result is dropped.\<close>

definition call_and :: "exec_callback \<Rightarrow> 'w xd_called \<Rightarrow> 'w xd_handled" where
  "call_and cb r =
     (case r of
        (Panics, w) \<Rightarrow> (Panics, w)
      | (Returns (_, d, es), w) \<Rightarrow> (Returns (d, XdCallback cb # es), w))"

section \<open>Messages from the slave\<close>

text \<open>
  The session of a network error is the connection at the time the message was sent.  A new timer
  replaces one that still runs.
\<close>

definition xd_networkError :: "'w XNet \<Rightarrow> string \<Rightarrow> MesosExecutorDriver \<Rightarrow> 'w \<Rightarrow> 'w xd_handled" where
  "xd_networkError net session d w =
     (if xd_status d = DRIVER_ABORTED then xd_ignored d w
      else
        let d1 = d\<lparr>xd_connected := False\<rparr> in
        if xd_connected d \<and> session \<noteq> xd_connection d then (Returns (d1, []), w)
        else if xd_connected d \<and> xd_checkpoint d then (Returns (d1\<lparr>recoveryTimer := Some session\<rparr>, [XdCallback XcDisconnected]), w)
        else call_and XcShutdown (xd_Abort net d1 w))"

definition xd_shutdown :: "'w XNet \<Rightarrow> MesosExecutorDriver \<Rightarrow> 'w \<Rightarrow> 'w xd_handled" where
  "xd_shutdown net d w =
     (if xd_status d = DRIVER_ABORTED then xd_ignored d w
      else if xd_stopped d then xd_ignored d w
      else call_and XcShutdown (xd_Stop net d w))"

definition recoveryTimedOut :: "'w XNet \<Rightarrow> string \<Rightarrow> MesosExecutorDriver \<Rightarrow> 'w \<Rightarrow> 'w xd_handled" where
  "recoveryTimedOut net session d w =
     (if xd_connected d then xd_ignored d w
      else if session = xd_connection d then xd_shutdown net d w
      else xd_ignored d w)"

definition xd_registered :: "'w XNet \<Rightarrow> MesosExecutorDriver \<Rightarrow> 'w \<Rightarrow> 'w xd_handled" where
  "xd_registered net d w =
     (if xd_status d = DRIVER_ABORTED then xd_ignored d w
      else if xd_stopped d then xd_ignored d w
      else let (c, w1) = new_uuid net w in (Returns (d\<lparr>xd_connected := True, xd_connection := c\<rparr>, [XdCallback XcRegistered]), w1))"

definition xd_reregistered :: "'w XNet \<Rightarrow> MesosExecutorDriver \<Rightarrow> 'w \<Rightarrow> 'w xd_handled" where
  "xd_reregistered net d w =
     (if xd_status d = DRIVER_ABORTED then xd_ignored d w
      else if xd_stopped d then xd_ignored d w
      else let (c, w1) = new_uuid net w in (Returns (d\<lparr>xd_connected := True, xd_connection := c\<rparr>, [XdCallback XcReregistered]), w1))"

text \<open>The unacknowledged updates and tasks, in the order of the maps; an error is only logged.\<close>

definition xd_reconnect :: "'w World \<Rightarrow> 'w XNet \<Rightarrow> UPID option \<Rightarrow> MesosExecutorDriver \<Rightarrow> 'w \<Rightarrow> 'w xd_handled" where
  "xd_reconnect io net from d w =
     (if xd_status d = DRIVER_ABORTED then xd_ignored d w
      else if xd_stopped d then xd_ignored d w
      else
        let d1 = d\<lparr>slaveUPID := from\<rparr>;
            (us, w1) = go_range io (xd_updates d1) w;
            (ts, w2) = go_range io (xd_tasks d1) w1 in
        case xd_send net (slaveUPID d1) (ReregisterExecutor (xd_executorID d1) (xd_frameworkID d1) (map snd us) (map snd ts)) w2 of
          (Panics, w3) \<Rightarrow> (Panics, w3)
        | (Returns (_, es), w3) \<Rightarrow> (Returns (d1, es), w3))"

text \<open>A duplicate task ends the process.\<close>

definition xd_runTask :: "TaskInfo \<Rightarrow> MesosExecutorDriver \<Rightarrow> 'w \<Rightarrow> 'w xd_handled" where
  "xd_runTask t d w =
     (if xd_status d = DRIVER_ABORTED then xd_ignored d w
      else if xd_stopped d then xd_ignored d w
      else if gm_has (xd_tasks d) (task_info_id t) then (Panics, w)
      else (Returns (d\<lparr>xd_tasks := gm_put (task_info_id t) t (xd_tasks d)\<rparr>, [XdCallback (XcLaunchTask t)]), w))"

definition xd_killTask :: "string \<Rightarrow> MesosExecutorDriver \<Rightarrow> 'w \<Rightarrow> 'w xd_handled" where
  "xd_killTask taskId d w =
     (if xd_status d = DRIVER_ABORTED then xd_ignored d w
      else if xd_stopped d then xd_ignored d w
      else (Returns (d, [XdCallback (XcKillTask taskId)]), w))"

text \<open>A stopped driver logs that it ignores the acknowledgement, and handles it.\<close>

definition statusUpdateAcknowledgement :: "string \<Rightarrow> string \<Rightarrow> MesosExecutorDriver \<Rightarrow> 'w \<Rightarrow> 'w xd_handled" where
  "statusUpdateAcknowledgement taskId uuid d w =
     (if xd_status d = DRIVER_ABORTED then xd_ignored d w
      else (Returns (d\<lparr>xd_updates := gm_del uuid (xd_updates d), xd_tasks := gm_del taskId (xd_tasks d)\<rparr>, []), w))"

definition xd_frameworkMessage :: "string \<Rightarrow> MesosExecutorDriver \<Rightarrow> 'w \<Rightarrow> 'w xd_handled" where
  "xd_frameworkMessage data d w =
     (if xd_status d = DRIVER_ABORTED then xd_ignored d w
      else if xd_stopped d then xd_ignored d w
      else (Returns (d, [XdCallback (XcFrameworkMessage data)]), w))"

definition xd_frameworkError :: "string \<Rightarrow> MesosExecutorDriver \<Rightarrow> 'w \<Rightarrow> 'w xd_handled" where
  "xd_frameworkError msg d w =
     (if xd_status d = DRIVER_ABORTED then xd_ignored d w
      else (Returns (d, [XdCallback (XcError msg)]), w))"

section \<open>Methods\<close>

text \<open>
  A failure to register stops the messenger, but leaves the status.  Closing \<open>started\<close> again would
  panic.
\<close>

definition xd_Start :: "'w XNet \<Rightarrow> MesosExecutorDriver \<Rightarrow> 'w \<Rightarrow> 'w xd_called" where
  "xd_Start net d w =
     (if xd_status d \<noteq> DRIVER_NOT_STARTED then xd_refused ''Start, expecting status'' DRIVER_NOT_STARTED d w
      else
        case net_start net w of
          (Inl e, w1) \<Rightarrow> (Returns ((xd_status d, Some e), d, []), w1)
        | (Inr pid, w1) \<Rightarrow>
            (let d1 = d\<lparr>xd_self := Some pid\<rparr> in
             case xd_send net (slaveUPID d1) (RegisterExecutor (xd_frameworkID d1) (xd_executorID d1)) w1 of
               (Panics, w2) \<Rightarrow> (Panics, w2)
             | (Returns (Some e, es), w2) \<Rightarrow>
                 (let ((err0, d2), w3) = xd_stop_messenger net (xd_status d1) d1 w2 in
                  (Returns ((xd_status d2, Some (case err0 of None \<Rightarrow> e | Some e0 \<Rightarrow> e0)), d2, es), w3))
             | (Returns (None, es), w2) \<Rightarrow>
                 (if xd_started d1 then (Panics, w2)
                  else (Returns ((DRIVER_RUNNING, None), d1\<lparr>xd_status := DRIVER_RUNNING, xd_started := True\<rparr>, es), w2))))"

text \<open>\<open>join\<close> is refused unless the driver runs (\<open>Some\<close>); otherwise it waits for the stop signal.\<close>

definition xd_Join :: "MesosExecutorDriver \<Rightarrow> 'w \<Rightarrow> 'w xd_called option" where
  "xd_Join d w =
     (if xd_status d \<noteq> DRIVER_RUNNING then Some (xd_refused ''Join, expecting status'' DRIVER_RUNNING d w) else None)"

definition xd_woken :: "MesosExecutorDriver \<Rightarrow> (drv_status \<times> string option) option" where
  "xd_woken d = (if xd_stopClosed d then Some (xd_status d, None) else None)"

text \<open>\<open>run\<close> until it returns (\<open>Inl\<close>) or waits in \<open>join\<close> (\<open>Inr\<close>).\<close>

definition xd_run :: "'w XNet \<Rightarrow> MesosExecutorDriver \<Rightarrow> 'w \<Rightarrow> 'w xd_called + (MesosExecutorDriver \<times> xd_effect list) \<times> 'w" where
  "xd_run net d w =
     (case xd_Start net d w of
        (Panics, w1) \<Rightarrow> Inl (Panics, w1)
      | (Returns ((_, Some _), d1, _), w1) \<Rightarrow> Inl (xd_Stop net d1 w1)
      | (Returns ((_, None), d1, es), w1) \<Rightarrow>
          (case xd_Join d1 w1 of Some r \<Rightarrow> Inl r | None \<Rightarrow> Inr ((d1, es), w1)))"

definition makeStatusUpdate :: "'w XNet \<Rightarrow> TaskStatus \<Rightarrow> MesosExecutorDriver \<Rightarrow> 'w \<Rightarrow> ExecUpdate \<times> 'w" where
  "makeStatusUpdate net s d w =
     (let (c, w1) = new_uuid net w in
      (\<lparr>eu_framework = xd_frameworkID d, eu_executor = xd_executorID d, eu_slave = xd_slaveID d,
        eu_status = s\<lparr>status_slave := xd_slaveID d\<rparr>, eu_uuid = c\<rparr>, w1))"

definition sendStatusUpdate :: "'w XNet \<Rightarrow> TaskStatus \<Rightarrow> MesosExecutorDriver \<Rightarrow> 'w \<Rightarrow> 'w xd_called" where
  "sendStatusUpdate net s d w =
     (if xd_status d \<noteq> DRIVER_RUNNING then xd_refused ''SendStatusUpdate, expecting driver.status'' DRIVER_RUNNING d w
      else if task_state s = TASK_STAGING then
        (let ((_, d1), w1) = xd_stop_messenger net DRIVER_ABORTED d w in
         (Returns ((xd_status d1, Some ''Executor is not allowed to send TASK_STAGING status update. Aborting!''), d1, []), w1))
      else
        let (u, w1) = makeStatusUpdate net s d w;
            d1 = d\<lparr>xd_updates := gm_put (eu_uuid u) u (xd_updates d)\<rparr> in
        case xd_self d1 of
          None \<Rightarrow> (Panics, w1)
        | Some me \<Rightarrow>
            (case xd_send net (slaveUPID d1) (ExecStatusUpdate u (upid_String me)) w1 of
               (Panics, w2) \<Rightarrow> (Panics, w2)
             | (Returns (err, es), w2) \<Rightarrow> (Returns ((xd_status d1, err), d1, es), w2)))"

definition sendFrameworkMessage :: "'w XNet \<Rightarrow> string \<Rightarrow> MesosExecutorDriver \<Rightarrow> 'w \<Rightarrow> 'w xd_called" where
  "sendFrameworkMessage net data d w =
     (if xd_status d \<noteq> DRIVER_RUNNING then xd_refused ''SendFrameworkMessage, expecting status'' DRIVER_RUNNING d w
      else
        case xd_send net (slaveUPID d) (ExecutorToFramework (xd_slaveID d) (xd_frameworkID d) (xd_executorID d) data) w of
          (Panics, w1) \<Rightarrow> (Panics, w1)
        | (Returns (err, es), w1) \<Rightarrow> (Returns ((xd_status d, err), d, es), w1))"

section \<open>The driver as a transition system\<close>

datatype exec_inbound =
    XmRegistered | XmReregistered | XmReconnect
  | XmRunTask TaskInfo
  | XmKillTask string
  | XmAcknowledgement string string
  | XmFrameworkMessage string
  | XmShutdown
  | XmFrameworkError string
  | XmNetworkError string

fun xd_handle :: "'w World \<Rightarrow> 'w XNet \<Rightarrow> UPID option \<Rightarrow> exec_inbound \<Rightarrow> MesosExecutorDriver \<Rightarrow> 'w \<Rightarrow> 'w xd_handled" where
  "xd_handle io net from XmRegistered d w = xd_registered net d w"
| "xd_handle io net from XmReregistered d w = xd_reregistered net d w"
| "xd_handle io net from XmReconnect d w = xd_reconnect io net from d w"
| "xd_handle io net from (XmRunTask t) d w = xd_runTask t d w"
| "xd_handle io net from (XmKillTask t) d w = xd_killTask t d w"
| "xd_handle io net from (XmAcknowledgement t uuid) d w = statusUpdateAcknowledgement t uuid d w"
| "xd_handle io net from (XmFrameworkMessage data) d w = xd_frameworkMessage data d w"
| "xd_handle io net from XmShutdown d w = xd_shutdown net d w"
| "xd_handle io net from (XmFrameworkError msg) d w = xd_frameworkError msg d w"
| "xd_handle io net from (XmNetworkError session) d w = xd_networkError net session d w"

datatype xd_request = XrStart | XrStop | XrAbort | XrSendStatusUpdate TaskStatus | XrSendFrameworkMessage string

fun xd_perform :: "'w XNet \<Rightarrow> xd_request \<Rightarrow> MesosExecutorDriver \<Rightarrow> 'w \<Rightarrow> 'w xd_called" where
  "xd_perform net XrStart d w = xd_Start net d w"
| "xd_perform net XrStop d w = xd_Stop net d w"
| "xd_perform net XrAbort d w = xd_Abort net d w"
| "xd_perform net (XrSendStatusUpdate s) d w = sendStatusUpdate net s d w"
| "xd_perform net (XrSendFrameworkMessage data) d w = sendFrameworkMessage net data d w"

text \<open>
  The driver, the callbacks that wait for the lock of the executor, the timers that expired and wait
  for the lock of the driver, and the history.  A callback of the executor and a call of a method are
  steps on their own, so that any program may use the driver.
\<close>

datatype xd_event = XIn exec_inbound | XOut xd_effect

record 'w xd_sys =
  xdrv :: MesosExecutorDriver
  xd_calls :: "exec_callback list"
  xd_expired :: "string list"
  xd_log :: "xd_event list"
  xd_dead :: bool
  xd_world :: 'w

definition xd_callbacks :: "xd_effect list \<Rightarrow> exec_callback list" where
  "xd_callbacks es = List.map_filter (\<lambda>e. case e of XdCallback cb \<Rightarrow> Some cb | XdSend p m \<Rightarrow> None) es"

definition xd_proceed :: "xd_event list \<Rightarrow> MesosExecutorDriver \<Rightarrow> xd_effect list \<Rightarrow> 'w \<Rightarrow> 'w xd_sys \<Rightarrow> 'w xd_sys" where
  "xd_proceed evs d es w st =
     st\<lparr>xdrv := d, xd_calls := xd_calls st @ xd_callbacks es, xd_log := xd_log st @ evs @ map XOut es, xd_world := w\<rparr>"

inductive xd_step :: "'w World \<Rightarrow> 'w XNet \<Rightarrow> 'w xd_sys \<Rightarrow> 'w xd_sys \<Rightarrow> bool" for io net where
  message: "\<not> xd_dead st \<Longrightarrow> xd_self (xdrv st) \<noteq> None \<Longrightarrow>
    xd_handle io net (Some sender) msg (xdrv st) (xd_world st) = (Returns (d, es), w1) \<Longrightarrow>
    xd_step io net st (xd_proceed [XIn msg] d es w1 st)"
| message_ends: "\<not> xd_dead st \<Longrightarrow> xd_self (xdrv st) \<noteq> None \<Longrightarrow>
    xd_handle io net (Some sender) msg (xdrv st) (xd_world st) = (Panics, w1) \<Longrightarrow>
    xd_step io net st (st\<lparr>xd_log := xd_log st @ [XIn msg], xd_dead := True, xd_world := w1\<rparr>)"
| call_method: "\<not> xd_dead st \<Longrightarrow> xd_perform net req (xdrv st) (xd_world st) = (Returns (r, d, es), w1) \<Longrightarrow>
    xd_step io net st (xd_proceed [] d es w1 st)"
| call_panics: "\<not> xd_dead st \<Longrightarrow> xd_perform net req (xdrv st) (xd_world st) = (Panics, w1) \<Longrightarrow>
    xd_step io net st (st\<lparr>xd_dead := True, xd_world := w1\<rparr>)"
| callback: "\<not> xd_dead st \<Longrightarrow> xd_calls st = as @ cb # bs \<Longrightarrow> xd_step io net st (st\<lparr>xd_calls := as @ bs\<rparr>)"
| expires: "\<not> xd_dead st \<Longrightarrow> recoveryTimer (xdrv st) = Some session \<Longrightarrow>
    xd_step io net st (st\<lparr>xdrv := (xdrv st)\<lparr>recoveryTimer := None\<rparr>, xd_expired := xd_expired st @ [session]\<rparr>)"
| timeout: "\<not> xd_dead st \<Longrightarrow> xd_expired st = as @ session # bs \<Longrightarrow>
    recoveryTimedOut net session (xdrv st) (xd_world st) = (Returns (d, es), w1) \<Longrightarrow>
    xd_step io net st (xd_proceed [] d es w1 (st\<lparr>xd_expired := as @ bs\<rparr>))"
| timeout_panics: "\<not> xd_dead st \<Longrightarrow> xd_expired st = as @ session # bs \<Longrightarrow>
    recoveryTimedOut net session (xdrv st) (xd_world st) = (Panics, w1) \<Longrightarrow>
    xd_step io net st (st\<lparr>xd_dead := True, xd_world := w1\<rparr>)"

definition xd_start :: "MesosExecutorDriver \<Rightarrow> 'w \<Rightarrow> 'w xd_sys" where
  "xd_start d w = \<lparr>xdrv = d, xd_calls = [], xd_expired = [], xd_log = [], xd_dead = False, xd_world = w\<rparr>"

definition xd_init :: "(string \<Rightarrow> string) \<Rightarrow> (string \<Rightarrow> bool) \<Rightarrow> 'w xd_sys \<Rightarrow> bool" where
  "xd_init getenv accepts st \<longleftrightarrow> (\<exists>d w. NewMesosExecutorDriver getenv accepts True True = Some d \<and> st = xd_start d w)"

interpretation xd_ts: transition_system "xd_init getenv accepts" "xd_step io net" for getenv accepts io net .

definition xd_reachable ::
    "'w World \<Rightarrow> 'w XNet \<Rightarrow> (string \<Rightarrow> string) \<Rightarrow> (string \<Rightarrow> bool) \<Rightarrow> 'w xd_sys \<Rightarrow> bool" where
  "xd_reachable io net getenv accepts st \<longleftrightarrow> (\<exists>st0. xd_init getenv accepts st0 \<and> (xd_step io net)\<^sup>*\<^sup>* st0 st)"

lemma xd_reachable_reach: "xd_reachable io net getenv accepts st = xd_ts.reach getenv accepts io net st"
  by (simp add: xd_reachable_def xd_ts.reach_def)

section \<open>The contract: updates and tasks are kept until they are acknowledged\<close>

text \<open>
  What the slave may rely on, from the history alone: the updates sent and the tasks launched that no
  later message acknowledged, in order.
\<close>

fun unacknowledged_update :: "ExecUpdate list \<Rightarrow> xd_event \<Rightarrow> ExecUpdate list" where
  "unacknowledged_update us (XOut (XdSend p (ExecStatusUpdate u pid))) = us @ [u]"
| "unacknowledged_update us (XIn (XmAcknowledgement t uuid)) = filter (\<lambda>u. eu_uuid u \<noteq> uuid) us"
| "unacknowledged_update us ev = us"

fun unacknowledged_task :: "TaskInfo list \<Rightarrow> xd_event \<Rightarrow> TaskInfo list" where
  "unacknowledged_task ts (XOut (XdCallback (XcLaunchTask t))) = ts @ [t]"
| "unacknowledged_task ts (XIn (XmAcknowledgement tid uuid)) = filter (\<lambda>t. task_info_id t \<noteq> tid) ts"
| "unacknowledged_task ts ev = ts"

definition unacknowledged_updates :: "xd_event list \<Rightarrow> ExecUpdate list" where
  "unacknowledged_updates hist = foldl unacknowledged_update [] hist"

definition unacknowledged_tasks :: "xd_event list \<Rightarrow> TaskInfo list" where
  "unacknowledged_tasks hist = foldl unacknowledged_task [] hist"

fun sent_update :: "xd_event \<Rightarrow> ExecUpdate list" where
  "sent_update (XOut (XdSend p (ExecStatusUpdate u pid))) = [u]"
| "sent_update ev = []"

definition sent_updates :: "xd_event list \<Rightarrow> ExecUpdate list" where
  "sent_updates hist = concat (map sent_update hist)"

lemma sent_updates_append: "sent_updates (l1 @ l2) = sent_updates l1 @ sent_updates l2"
  by (simp add: sent_updates_def)

lemma unacknowledged_update_sent: "set (unacknowledged_update us ev) \<subseteq> set us \<union> set (sent_update ev)"
  by (induction us ev rule: unacknowledged_update.induct) auto

lemma unacknowledged_updates_sent: "set (unacknowledged_updates hist) \<subseteq> set (sent_updates hist)"
proof (induction hist rule: rev_induct)
  case Nil
  then show ?case by (simp add: unacknowledged_updates_def)
next
  case (snoc ev hist)
  then show ?case
    using unacknowledged_update_sent [of "unacknowledged_updates hist" ev]
    by (auto simp: unacknowledged_updates_def sent_updates_def)
qed

section \<open>The invariant\<close>

text \<open>Keys agree with what they lead to, and the status with the channels.\<close>

definition keyed_by :: "('v \<Rightarrow> string) \<Rightarrow> (string, 'v) gomap \<Rightarrow> bool" where
  "keyed_by key m \<longleftrightarrow> gm_ok m \<and> map fst m = map (key \<circ> snd) m"

definition xd_wf :: "MesosExecutorDriver \<Rightarrow> bool" where
  "xd_wf d \<longleftrightarrow>
     slaveUPID d \<noteq> None \<and> keyed_by eu_uuid (xd_updates d) \<and> keyed_by task_info_id (xd_tasks d) \<and>
     (xd_started d \<longleftrightarrow> xd_status d \<noteq> DRIVER_NOT_STARTED) \<and>
     (xd_status d \<noteq> DRIVER_NOT_STARTED \<longrightarrow> xd_self d \<noteq> None) \<and>
     (xd_status d \<in> {DRIVER_STOPPED, DRIVER_ABORTED} \<longrightarrow> xd_stopClosed d) \<and>
     (xd_connected d \<longrightarrow> xd_status d \<noteq> DRIVER_NOT_STARTED) \<and>
     (recoveryTimer d \<noteq> None \<longrightarrow> xd_checkpoint d)"

definition xd_inv :: "xd_event list \<Rightarrow> MesosExecutorDriver \<Rightarrow> bool" where
  "xd_inv hist d \<longleftrightarrow>
     xd_wf d \<and>
     (xd_status d \<noteq> DRIVER_ABORTED \<longrightarrow>
        map snd (xd_tasks d) = unacknowledged_tasks hist \<and>
        (distinct (map eu_uuid (sent_updates hist)) \<longrightarrow> map snd (xd_updates d) = unacknowledged_updates hist))"

lemma keyed_by_Nil [simp]: "keyed_by key []"
  by (simp add: keyed_by_def gm_ok_def)

lemma keyed_by_put: "keyed_by key m \<Longrightarrow> key v = k \<Longrightarrow> keyed_by key (gm_put k v m)"
proof -
  assume m: "keyed_by key m" "key v = k"
  have "map fst (AList.update k v m) = map (key \<circ> snd) (AList.update k v m)" if "map fst m = map (key \<circ> snd) m"
    using that m(2) by (induction m) auto
  with m show ?thesis by (auto simp: keyed_by_def gm_put_def distinct_update gm_ok_def)
qed

lemma keyed_by_del: "keyed_by key m \<Longrightarrow> keyed_by key (gm_del k m)"
  by (auto simp: keyed_by_def gm_ok_del) (auto simp: gm_del_def AList.delete_eq)

lemma keyed_by_values_del: "keyed_by key m \<Longrightarrow> map snd (gm_del k m) = filter (\<lambda>v. key v \<noteq> k) (map snd m)"
proof -
  assume "keyed_by key m"
  then have "\<forall>p \<in> set m. fst p = key (snd p)" by (auto simp: keyed_by_def)
  then show ?thesis unfolding gm_del_def AList.delete_eq by (induction m) auto
qed

lemma keyed_by_has: "keyed_by key m \<Longrightarrow> gm_has m k \<longleftrightarrow> k \<in> key ` set (map snd m)"
  by (auto simp: gm_has_iff gm_keys_def keyed_by_def image_image)

definition quiet :: "xd_event \<Rightarrow> bool" where
  "quiet ev \<longleftrightarrow> sent_update ev = [] \<and> (\<forall>us. unacknowledged_update us ev = us) \<and> (\<forall>ts. unacknowledged_task ts ev = ts)"

lemma quiet_unacknowledged:
  assumes "list_all quiet evs"
  shows "unacknowledged_updates (hist @ evs) = unacknowledged_updates hist"
    and "unacknowledged_tasks (hist @ evs) = unacknowledged_tasks hist"
    and "sent_updates (hist @ evs) = sent_updates hist"
proof -
  have "foldl unacknowledged_update us evs = us" "foldl unacknowledged_task ts evs = ts" "sent_updates evs = []" for us ts
    using assms by (induction evs) (auto simp: quiet_def sent_updates_def)
  then show "unacknowledged_updates (hist @ evs) = unacknowledged_updates hist"
    "unacknowledged_tasks (hist @ evs) = unacknowledged_tasks hist" "sent_updates (hist @ evs) = sent_updates hist"
    by (simp_all add: unacknowledged_updates_def unacknowledged_tasks_def sent_updates_append)
qed

lemma xd_inv_quiet:
  assumes "xd_inv hist d" "list_all quiet evs" "xd_wf d \<Longrightarrow> xd_wf d'"
    "xd_updates d' = xd_updates d" "xd_tasks d' = xd_tasks d" "xd_status d = DRIVER_ABORTED \<Longrightarrow> xd_status d' = DRIVER_ABORTED"
  shows "xd_inv (hist @ evs) d'"
  using assms by (auto simp: xd_inv_def quiet_unacknowledged)

section \<open>Every operation keeps the invariant\<close>

text \<open>Operations that neither capture nor acknowledge anything.\<close>

definition unchanged :: "MesosExecutorDriver \<Rightarrow> MesosExecutorDriver \<Rightarrow> bool" where
  "unchanged d d' \<longleftrightarrow>
     (xd_wf d \<longrightarrow> xd_wf d') \<and> xd_updates d' = xd_updates d \<and> xd_tasks d' = xd_tasks d \<and>
     (xd_status d = DRIVER_ABORTED \<longrightarrow> xd_status d' = DRIVER_ABORTED)"

definition silent :: "xd_effect list \<Rightarrow> bool" where
  "silent es \<longleftrightarrow> list_all quiet (map XOut es)"

lemma quiet_callback: "quiet (XOut (XdCallback cb)) \<longleftrightarrow> (\<forall>t. cb \<noteq> XcLaunchTask t)"
  by (cases cb) (simp_all add: quiet_def)

lemma quiet_send: "quiet (XOut (XdSend p m)) \<longleftrightarrow> (\<forall>u pid. m \<noteq> ExecStatusUpdate u pid)"
  by (cases m) (simp_all add: quiet_def)

lemma silent_simps [simp]:
  "silent []"
  "silent (XdCallback cb # es) \<longleftrightarrow> (\<forall>t. cb \<noteq> XcLaunchTask t) \<and> silent es"
  "silent (XdSend p m # es) \<longleftrightarrow> (\<forall>u pid. m \<noteq> ExecStatusUpdate u pid) \<and> silent es"
  by (simp_all add: silent_def quiet_callback quiet_send)

lemma unchanged_refl [simp]: "unchanged d d"
  by (simp add: unchanged_def)

lemma Stop_unchanged: "xd_Stop net d w = (Returns (r, d', es), w') \<Longrightarrow> unchanged d d' \<and> silent es"
  by (auto simp: xd_Stop_def xd_refused_def xd_stop_messenger_def unchanged_def xd_wf_def split: if_splits prod.splits)

lemma Abort_unchanged: "xd_Abort net d w = (Returns (r, d', es), w') \<Longrightarrow> unchanged d d' \<and> silent es"
  by (auto simp: xd_Abort_def xd_refused_def xd_stop_messenger_def unchanged_def xd_wf_def split: if_splits prod.splits)

lemma shutdown_unchanged: "xd_shutdown net d w = (Returns (d', es), w') \<Longrightarrow> unchanged d d' \<and> silent es"
  by (auto simp: xd_shutdown_def xd_ignored_def call_and_def split: if_splits outcome.splits prod.splits
      dest!: Stop_unchanged)

lemma timedOut_unchanged: "recoveryTimedOut net s d w = (Returns (d', es), w') \<Longrightarrow> unchanged d d' \<and> silent es"
  by (auto simp: recoveryTimedOut_def xd_ignored_def split: if_splits dest!: shutdown_unchanged)

lemma disconnect_unchanged: "unchanged (d\<lparr>xd_connected := False\<rparr>) d' \<Longrightarrow> unchanged d d'"
  by (auto simp: unchanged_def xd_wf_def)

lemma networkError_unchanged:
  assumes "xd_networkError net s d w = (Returns (d', es), w')"
  shows "unchanged d d' \<and> silent es"
proof (cases "xd_status d \<noteq> DRIVER_ABORTED \<and> (\<not> xd_connected d \<or> s = xd_connection d \<and> \<not> xd_checkpoint d)")
  case True
  then have "call_and XcShutdown (xd_Abort net (d\<lparr>xd_connected := False\<rparr>) w) = (Returns (d', es), w')"
    using assms by (auto simp: xd_networkError_def Let_def)
  then show ?thesis
    by (auto simp: call_and_def split: outcome.splits prod.splits dest!: Abort_unchanged intro: disconnect_unchanged)
next
  case False
  then show ?thesis
    using assms by (auto simp: xd_networkError_def xd_ignored_def Let_def unchanged_def xd_wf_def split: if_splits)
qed

lemma registered_unchanged:
  "xd_registered net d w = (Returns (d', es), w') \<Longrightarrow> unchanged d d' \<and> silent es"
  "xd_reregistered net d w = (Returns (d', es), w') \<Longrightarrow> unchanged d d' \<and> silent es"
  by (auto simp: xd_registered_def xd_reregistered_def xd_ignored_def xd_stopped_def unchanged_def xd_wf_def
      split: if_splits prod.splits)

lemma reconnect_unchanged:
  "xd_reconnect io net (Some p) d w = (Returns (d', es), w') \<Longrightarrow> unchanged d d' \<and> silent es"
  by (auto simp: xd_reconnect_def xd_ignored_def xd_send_def unchanged_def xd_wf_def split: if_splits prod.splits)

lemma handle_unchanged:
  assumes "xd_handle io net (Some p) msg d w = (Returns (d', es), w')"
    "\<And>t. msg \<noteq> XmRunTask t" "\<And>t uuid. msg \<noteq> XmAcknowledgement t uuid"
  shows "unchanged d d' \<and> silent es"
  using assms
  by (cases msg)
     (auto simp: xd_killTask_def xd_frameworkMessage_def xd_frameworkError_def xd_ignored_def split: if_splits
        dest!: registered_unchanged reconnect_unchanged shutdown_unchanged networkError_unchanged)

lemma Start_unchanged: "xd_Start net d w = (Returns (r, d', es), w') \<Longrightarrow> unchanged d d' \<and> silent es"
  unfolding xd_Start_def
  by (clarsimp simp: xd_refused_def xd_send_def xd_stop_messenger_def Let_def
        split: if_splits sum.splits prod.splits option.splits outcome.splits; auto simp: unchanged_def xd_wf_def)

lemma unchanged_inv:
  assumes "xd_inv hist d" "unchanged d d'" "silent es" "list_all quiet evs"
  shows "xd_inv (hist @ evs @ map XOut es) d'"
  using assms xd_inv_quiet [of hist d "evs @ map XOut es" d'] by (auto simp: unchanged_def silent_def)

lemma runTask_inv:
  assumes inv: "xd_inv hist d" and run: "xd_runTask t d w = (Returns (d', es), w')"
  shows "xd_inv (hist @ [XIn (XmRunTask t)] @ map XOut es) d'"
proof (cases "xd_status d = DRIVER_RUNNING")
  case False
  with run have "d' = d" "es = []" by (auto simp: xd_runTask_def xd_ignored_def xd_stopped_def split: if_splits)
  then show ?thesis using unchanged_inv [OF inv, of d "[]" "[XIn (XmRunTask t)]"] by (simp add: quiet_def)
next
  case True
  with run have new: "\<not> gm_has (xd_tasks d) (task_info_id t)" and d': "d' = d\<lparr>xd_tasks := gm_put (task_info_id t) t (xd_tasks d)\<rparr>"
    and es: "es = [XdCallback (XcLaunchTask t)]"
    by (auto simp: xd_runTask_def xd_ignored_def xd_stopped_def split: if_splits)
  show ?thesis
    using inv keyed_by_put [of task_info_id "xd_tasks d" t "task_info_id t"]
    by (auto simp: xd_inv_def xd_wf_def d' es True gm_put_set_new [OF new] unacknowledged_tasks_def
        unacknowledged_updates_def sent_updates_def)
qed

lemma acknowledgement_inv:
  assumes inv: "xd_inv hist d" and ack: "statusUpdateAcknowledgement tid uuid d w = (Returns (d', es), w')"
  shows "xd_inv (hist @ [XIn (XmAcknowledgement tid uuid)] @ map XOut es) d'"
proof (cases "xd_status d = DRIVER_ABORTED")
  case True
  with inv ack show ?thesis by (auto simp: statusUpdateAcknowledgement_def xd_ignored_def xd_inv_def)
next
  case False
  with ack have d': "d' = d\<lparr>xd_updates := gm_del uuid (xd_updates d), xd_tasks := gm_del tid (xd_tasks d)\<rparr>" and es: "es = []"
    by (auto simp: statusUpdateAcknowledgement_def)
  have k: "keyed_by eu_uuid (xd_updates d)" "keyed_by task_info_id (xd_tasks d)"
    using inv by (auto simp: xd_inv_def xd_wf_def)
  show ?thesis
    using inv by (auto simp: xd_inv_def xd_wf_def d' es False keyed_by_del keyed_by_values_del [OF k(1)] keyed_by_values_del [OF k(2)]
        unacknowledged_tasks_def unacknowledged_updates_def sent_updates_def)
qed

lemma handle_inv:
  assumes "xd_inv hist d" "xd_handle io net (Some p) msg d w = (Returns (d', es), w')"
  shows "xd_inv (hist @ [XIn msg] @ map XOut es) d'"
proof (cases "(\<exists>t. msg = XmRunTask t) \<or> (\<exists>t uuid. msg = XmAcknowledgement t uuid)")
  case True
  then show ?thesis using assms runTask_inv acknowledgement_inv by auto
next
  case False
  then have "quiet (XIn msg)" by (cases msg) (auto simp: quiet_def)
  with False show ?thesis using handle_unchanged [OF assms(2)] unchanged_inv [OF assms(1), of d' es "[XIn msg]"] by auto
qed

lemma sendStatusUpdate_cases:
  assumes "sendStatusUpdate net s d w = (Returns (r, d', es), w')"
  obtains "unchanged d d'" "es = []"
  | p me u where "xd_status d = DRIVER_RUNNING" "d' = d\<lparr>xd_updates := gm_put (eu_uuid u) u (xd_updates d)\<rparr>"
      "es = [XdSend p (ExecStatusUpdate u me)]"
proof (cases "xd_status d = DRIVER_RUNNING \<and> task_state s \<noteq> TASK_STAGING")
  case True
  then show ?thesis
    using assms that(2) by (auto simp: sendStatusUpdate_def xd_send_def Let_def split: prod.splits option.splits outcome.splits)
next
  case False
  then show ?thesis
    using assms that(1)
    by (auto simp: sendStatusUpdate_def xd_refused_def xd_stop_messenger_def unchanged_def xd_wf_def split: if_splits prod.splits)
qed

lemma sendStatusUpdate_inv:
  assumes inv: "xd_inv hist d" and send: "sendStatusUpdate net s d w = (Returns (r, d', es), w')"
  shows "xd_inv (hist @ map XOut es) d'"
  using send
proof (cases rule: sendStatusUpdate_cases)
  case 1
  then show ?thesis using unchanged_inv [OF inv, of d' "[]" "[]"] by simp
next
  case (2 p me u)
  have k: "keyed_by eu_uuid (xd_updates d)" using inv by (simp add: xd_inv_def xd_wf_def)
  have new: "\<not> gm_has (xd_updates d) (eu_uuid u)" if "distinct (map eu_uuid (sent_updates (hist @ map XOut es)))"
  proof -
    from that have "eu_uuid u \<notin> eu_uuid ` set (sent_updates hist)" "distinct (map eu_uuid (sent_updates hist))"
      by (auto simp: 2 sent_updates_def)
    moreover from this have "map snd (xd_updates d) = unacknowledged_updates hist" using inv 2(1) by (simp add: xd_inv_def)
    ultimately show ?thesis using unacknowledged_updates_sent [of hist] by (auto simp: keyed_by_has [OF k])
  qed
  show ?thesis
    using inv new keyed_by_put [OF k, of u "eu_uuid u"]
    by (auto simp: xd_inv_def xd_wf_def 2 gm_put_set_new unacknowledged_tasks_def unacknowledged_updates_def sent_updates_def)
qed

lemma perform_inv:
  assumes "xd_inv hist d" "xd_perform net req d w = (Returns (r, d', es), w')"
  shows "xd_inv (hist @ map XOut es) d'"
proof (cases "\<exists>s. req = XrSendStatusUpdate s")
  case True
  then obtain s where "req = XrSendStatusUpdate s" by blast
  then show ?thesis using assms(2) sendStatusUpdate_inv [OF assms(1), of net s w r d' es w'] by simp
next
  case False
  then have "unchanged d d' \<and> silent es"
    using assms(2)
    by (cases req) (auto simp: sendFrameworkMessage_def xd_refused_def xd_send_def
        split: if_splits prod.splits option.splits outcome.splits dest!: Start_unchanged Stop_unchanged Abort_unchanged)
  then show ?thesis using unchanged_inv [OF assms(1), of d' es "[]"] by simp
qed

section \<open>Panics\<close>

lemma Stop_returns: "fst (xd_Stop net d w) \<noteq> Panics" "fst (xd_Abort net d w) \<noteq> Panics"
  by (auto simp: xd_Stop_def xd_Abort_def xd_refused_def split: prod.splits)

lemma shutdown_returns: "fst (xd_shutdown net d w) \<noteq> Panics"
  using Stop_returns(1) [of net d w] by (auto simp: xd_shutdown_def xd_ignored_def call_and_def split: outcome.splits prod.splits)

lemma timedOut_returns: "fst (recoveryTimedOut net s d w) \<noteq> Panics"
  using shutdown_returns [of net d w] by (simp add: recoveryTimedOut_def xd_ignored_def)

lemma networkError_returns: "xd_networkError net s d w \<noteq> (Panics, w')"
  using Stop_returns(2) [of net "d\<lparr>xd_connected := False\<rparr>" w]
  by (auto simp: xd_networkError_def xd_ignored_def Let_def call_and_def split: outcome.splits prod.splits)

lemma perform_returns: "xd_wf d \<Longrightarrow> fst (xd_perform net req d w) \<noteq> Panics"
  using Stop_returns [of net d w]
  by (cases req)
     (auto simp: xd_Start_def sendStatusUpdate_def sendFrameworkMessage_def xd_refused_def xd_send_def xd_wf_def Let_def
        split: prod.splits option.splits sum.splits)

lemma handle_panics:
  assumes "xd_handle io net (Some p) msg d w = (Panics, w')"
  obtains t where "msg = XmRunTask t" "xd_status d = DRIVER_RUNNING" "gm_has (xd_tasks d) (task_info_id t)"
  using assms shutdown_returns [of net d w]
  by (cases msg)
     (auto simp: networkError_returns xd_registered_def xd_reregistered_def xd_reconnect_def xd_runTask_def xd_killTask_def xd_stopped_def
        statusUpdateAcknowledgement_def xd_frameworkMessage_def xd_frameworkError_def xd_ignored_def xd_send_def
        split: prod.splits if_splits)

definition duplicate_task :: "xd_event list \<Rightarrow> bool" where
  "duplicate_task hist \<longleftrightarrow>
     (\<exists>before t. hist = before @ [XIn (XmRunTask t)] \<and> task_info_id t \<in> task_info_id ` set (unacknowledged_tasks before))"

definition xd_sys_inv :: "'w xd_sys \<Rightarrow> bool" where
  "xd_sys_inv st \<longleftrightarrow> xd_inv (xd_log st) (xdrv st) \<and> (xd_dead st \<longrightarrow> duplicate_task (xd_log st))"

lemma xd_step_inv:
  assumes step: "xd_step io net st st'" and inv: "xd_sys_inv st"
  shows "xd_sys_inv st'"
proof -
  from inv have i: "xd_inv (xd_log st) (xdrv st)" by (simp add: xd_sys_inv_def)
  then have wf: "xd_wf (xdrv st)" by (simp add: xd_inv_def)
  from step show ?thesis
  proof cases
    case (message sender msg d es w1)
    then show ?thesis using handle_inv [OF i message(4)] by (simp add: xd_sys_inv_def xd_proceed_def)
  next
    case (message_ends sender msg w1)
    obtain t where t: "msg = XmRunTask t" "xd_status (xdrv st) = DRIVER_RUNNING" "gm_has (xd_tasks (xdrv st)) (task_info_id t)"
      using handle_panics [OF message_ends(4)] by blast
    with i have "task_info_id t \<in> task_info_id ` set (unacknowledged_tasks (xd_log st))"
      by (auto simp: xd_inv_def xd_wf_def keyed_by_has)
    moreover have "quiet (XIn (XmRunTask t))" by (simp add: quiet_def)
    ultimately show ?thesis
      using message_ends t(1) xd_inv_quiet [OF i, of "[XIn msg]" "xdrv st"] by (auto simp: xd_sys_inv_def duplicate_task_def)
  next
    case (call_method req r d es w1)
    then show ?thesis using perform_inv [OF i call_method(3)] by (simp add: xd_sys_inv_def xd_proceed_def)
  next
    case (call_panics req w1)
    then show ?thesis using perform_returns [OF wf, of net req "xd_world st"] by simp
  next
    case (callback as cb bs)
    then show ?thesis using inv by (simp add: xd_sys_inv_def)
  next
    case (expires session)
    then show ?thesis using inv by (simp add: xd_sys_inv_def xd_inv_def xd_wf_def)
  next
    case (timeout as session bs d es w1)
    then show ?thesis using timedOut_unchanged [OF timeout(4)] unchanged_inv [OF i, of d es "[]"]
      by (simp add: xd_sys_inv_def xd_proceed_def)
  next
    case (timeout_panics as session bs w1)
    then show ?thesis using timedOut_returns [of net session "xdrv st" "xd_world st"] by simp
  qed
qed

lemma xd_init_inv: "xd_init getenv accepts st \<Longrightarrow> xd_sys_inv st"
  by (auto simp: xd_init_def xd_start_def NewMesosExecutorDriver_def parseEnviroments_def xd_sys_inv_def xd_inv_def
      xd_wf_def unacknowledged_tasks_def unacknowledged_updates_def split: if_splits option.splits)

lemma xd_reachable_inv:
  assumes "xd_reachable io net getenv accepts st"
  shows "xd_sys_inv st"
proof -
  from assms have "xd_ts.reach getenv accepts io net st" by (simp add: xd_reachable_reach)
  then show ?thesis
    by (induction rule: xd_ts.reach_induct) (auto intro: xd_init_inv xd_step_inv)
qed

end
