(* ===== verification/Commands.thy ===== *)
theory Commands
  imports Scheduler_System Executor Sched_Driver Exec_Driver
begin

text \<open>
  The three programs under \<open>cmd/\<close>: the start of the scheduler up to the configuration of its driver,
  the proxy up to the \<open>exec\<close> of etcd, and the executor up to the wait for its driver.  The flags of a program are a record,
  with the values after \<open>flag.Parse\<close>.  A program may end by \<open>log.Fatal\<close>, return from \<open>main\<close>, panic, or go on.
  The drivers that run afterwards are in the theories \<open>Driver_System\<close> and \<open>Exec_Driver\<close>.
\<close>

section \<open>Outcomes and the host\<close>

datatype 'a start = Fatal go_error | Stops | Crashes | Started 'a

definition and_then :: "'a start \<times> 'w \<Rightarrow> ('a \<Rightarrow> 'w \<Rightarrow> 'b start \<times> 'w) \<Rightarrow> 'b start \<times> 'w" where
  "and_then r f =
     (case r of
        (Started x, w) \<Rightarrow> f x w
      | (Fatal e, w) \<Rightarrow> (Fatal e, w)
      | (Stops, w) \<Rightarrow> (Stops, w)
      | (Crashes, w) \<Rightarrow> (Crashes, w))"

record 'w Host_Env =
  os_Hostname :: "'w \<Rightarrow> string option \<times> 'w"
  os_Stat :: "string \<Rightarrow> bool"
  ReadFile :: "string \<Rightarrow> 'w \<Rightarrow> string option \<times> 'w"
  LookupIP :: "string \<Rightarrow> 'w \<Rightarrow> string list option \<times> 'w"
  TempDir :: "string \<Rightarrow> 'w \<Rightarrow> string option \<times> 'w"
  Getenv :: "string \<Rightarrow> string"
  net_ParseIP :: "string \<Rightarrow> string option"

section \<open>The scheduler\<close>

record Scheduler_Flags =
  framework_name :: string
  fl_master :: string
  zk_framework_persist :: string
  cluster_size :: int
  admin_port :: int
  reseed_timeout :: int
  auto_reseed :: bool
  artifact_port :: int
  sandbox_disk_limit :: real
  sandbox_cpu_limit :: real
  sandbox_mem_limit :: real
  executor_bin :: string
  etcd_bin :: string
  etcdctl_bin :: string
  address :: string
  advertise_address :: string
  driver_port :: int
  auth_principal :: string
  auth_secret_file :: string
  offer_refuse_seconds :: real
  single_instance_per_slave :: bool
  failover_timeout_seconds :: real
  framework_weburi :: string

definition parseIP :: "'w Host_Env \<Rightarrow> string \<Rightarrow> 'w \<Rightarrow> string start \<times> 'w" where
  "parseIP env addr w =
     (case LookupIP env addr w of
        (None, w1) \<Rightarrow> (Fatal (ErrText ''lookup''), w1)
      | (Some [], w1) \<Rightarrow> (Fatal (ErrFmt (''failed to parse IP from address '' @ [CHR 0x27] @ ''%v'' @ [CHR 0x27]) [addr]), w1)
      | (Some (ip # _), w1) \<Rightarrow> (Started ip, w1))"

definition defaultAddresses :: "'w Host_Env \<Rightarrow> string \<Rightarrow> string \<Rightarrow> 'w \<Rightarrow> (string \<times> string \<times> bool) \<times> 'w" where
  "defaultAddresses env addr advertise w =
     (let (a, w1) =
            (if addr = [] then
               (case os_Hostname env w of
                  (Some h, w1) \<Rightarrow> (h, w1)
                | (None, w1) \<Rightarrow> (''127.0.0.1'', w1))
             else (addr, w))
      in ((a, if advertise = [] then a else advertise, advertise \<noteq> []), w1))"

text \<open>The three artifacts, in order; a missing one ends the program, a repeated name panics.\<close>

fun serve_artifacts ::
    "'w Host_Env \<Rightarrow> string \<Rightarrow> int \<Rightarrow> string list \<Rightarrow> string list \<times> (string, string) gomap \<Rightarrow> 'w \<Rightarrow>
     (string list \<times> (string, string) gomap) start \<times> 'w" where
  "serve_artifacts env advertise port [] acc w = (Started acc, w)"
| "serve_artifacts env advertise port (path # paths) (uris, mux) w =
     (case ServeExecutorArtifact (os_Stat env) mux path advertise port of
        Panics \<Rightarrow> (Crashes, w)
      | Returns None \<Rightarrow> (Stops, w)
      | Returns (Some (uri, mux1)) \<Rightarrow> serve_artifacts env advertise port paths (uris @ [uri], mux1) w)"

definition credential :: "'w Host_Env \<Rightarrow> Scheduler_Flags \<Rightarrow> 'w \<Rightarrow> (string \<times> string option) option start \<times> 'w" where
  "credential env fl w =
     (if auth_principal fl = [] then (Started None, w)
      else if auth_secret_file fl = [] then (Started (Some (auth_principal fl, None)), w)
      else if \<not> os_Stat env (auth_secret_file fl) then (Fatal (ErrText ''missing secret file''), w)
      else
        case ReadFile env (auth_secret_file fl) w of
          (None, w1) \<Rightarrow> (Fatal (ErrText ''failed to read secret file''), w1)
        | (Some secret, w1) \<Rightarrow> (Started (Some (auth_principal fl, Some secret)), w1))"

text \<open>The framework identifier of a previous run; none is stored before the first run.\<close>

definition previous_id :: "'w World \<Rightarrow> string list \<Rightarrow> string \<Rightarrow> string \<Rightarrow> 'w \<Rightarrow> string option start \<times> 'w" where
  "previous_id io zkServers zkChroot name w =
     (case GetPreviousFrameworkID io zkServers zkChroot name w of
        (Inr previous, w1) \<Rightarrow> (Started (Some previous), w1)
      | (Inl (Some ZkNoNode), w1) \<Rightarrow> (Started None, w1)
      | (Inl (Some e), w1) \<Rightarrow> (Fatal e, w1)
      | (Inl None, w1) \<Rightarrow> (Started (Some []), w1))"

definition published_address :: "'w Host_Env \<Rightarrow> bool \<Rightarrow> string \<Rightarrow> 'w \<Rightarrow> string option start \<times> 'w" where
  "published_address env explicitAdvertise advertise w =
     (if explicitAdvertise then and_then (parseIP env advertise w) (\<lambda>ip w. (Started (Some ip), w))
      else (Started None, w))"

text \<open>A negative cluster size panics when the channel of the offer cache is made.\<close>

definition new_scheduler :: "'w World \<Rightarrow> Scheduler_Flags \<Rightarrow> string list \<Rightarrow> 'w \<Rightarrow> EtcdScheduler start \<times> 'w" where
  "new_scheduler io fl uris w =
     (case NewEtcdScheduler io (cluster_size fl) 10 (reseed_timeout fl) (auto_reseed fl) uris
             (single_instance_per_slave fl) (sandbox_disk_limit fl) (sandbox_cpu_limit fl) (sandbox_mem_limit fl)
             (offer_refuse_seconds fl) w of
        (None, w1) \<Rightarrow> (Crashes, w1)
      | (Some s, w1) \<Rightarrow>
          (Started (s\<lparr>ExecutorPath := executor_bin fl, Master := fl_master fl, FrameworkName := framework_name fl,
             ZkConnect := zk_framework_persist fl\<rparr>), w1))"

definition framework_info :: "Scheduler_Flags \<Rightarrow> string \<Rightarrow> string option \<Rightarrow> FrameworkInfo" where
  "framework_info fl addr fwid =
     \<lparr>fi_User = [], fi_Name = framework_name fl, fi_Id = fwid, fi_FailoverTimeout = Some (failover_timeout_seconds fl),
      fi_Checkpoint = True, fi_Hostname = [],
      fi_WebuiUrl =
        (if framework_weburi fl = [] then ''http://'' @ addr @ '':'' @ fmt_int (admin_port fl) @ ''/''
         else framework_weburi fl),
      fi_Principal = (if auth_principal fl = [] then None else Some (auth_principal fl))\<rparr>"

text \<open>The last part of \<open>main\<close> before the driver is made: ZooKeeper and the configuration of the driver.\<close>

definition driver_config ::
    "'w World \<Rightarrow> 'w Host_Env \<Rightarrow> Scheduler_Flags \<Rightarrow> string \<times> string \<times> bool \<Rightarrow> string \<Rightarrow> (string \<times> string option) option \<Rightarrow>
     EtcdScheduler \<Rightarrow> 'w \<Rightarrow> (EtcdScheduler \<times> DriverConfig) start \<times> 'w" where
  "driver_config io env fl addrs bindingAddress cred s w =
     (let (addr, advertise, explicitAdvertise) = addrs in
      case ParseZKURI (zk_framework_persist fl) of
        Inl e \<Rightarrow> (Fatal e, w)
      | Inr (zkServers, zkChroot) \<Rightarrow>
          and_then (previous_id io zkServers zkChroot (FrameworkName s) w)
          (\<lambda>fwid w1. and_then (published_address env explicitAdvertise advertise w1)
          (\<lambda>published w2.
             (Started (s\<lparr>ZkServers := zkServers, ZkChroot := zkChroot\<rparr>,
               \<lparr>dc_Framework = framework_info fl addr fwid, dc_Master = Master s, dc_Credential = cred,
                dc_BindingAddress = bindingAddress, dc_BindingPort = of_int (driver_port fl),
                dc_PublishedAddress = published\<rparr>), w2))))"

definition scheduler_main ::
    "'w World \<Rightarrow> 'w Host_Env \<Rightarrow> Scheduler_Flags \<Rightarrow> 'w \<Rightarrow>
     (EtcdScheduler \<times> DriverConfig \<times> (string, string) gomap) start \<times> 'w" where
  "scheduler_main io env fl w =
     (if zk_framework_persist fl = [] then (Fatal (ErrText ''No value provided for -zk-framework-persist !''), w)
      else
        let (addrs, w1) = defaultAddresses env (address fl) (advertise_address fl) w in
        and_then (serve_artifacts env (fst (snd addrs)) (artifact_port fl) [executor_bin fl, etcd_bin fl, etcdctl_bin fl] ([], []) w1)
        (\<lambda>(uris, mux) w2. and_then (parseIP env (fst addrs) w2)
        (\<lambda>bindingAddress w3. and_then (new_scheduler io fl uris w3)
        (\<lambda>s w4. and_then (credential env fl w4)
        (\<lambda>cred w5. and_then (driver_config io env fl addrs bindingAddress cred s w5)
        (\<lambda>(s1, cfg) w6. (Started (s1, cfg, mux), w6)))))))"

text \<open>
  The driver that \<open>main\<close> makes and runs.  An error is only logged, and then \<open>Run\<close> is called on a nil
  driver, which panics.
\<close>

definition main_driver ::
    "string option \<Rightarrow> string \<Rightarrow> string option \<Rightarrow> string option \<Rightarrow> DriverConfig \<Rightarrow> MesosSchedulerDriver start" where
  "main_driver user hostName detectorErr messengerErr cfg =
     (case NewMesosSchedulerDriver user hostName detectorErr messengerErr cfg of
        Inl e \<Rightarrow> Crashes
      | Inr d \<Rightarrow> Started d)"

section \<open>The proxy\<close>

record Proxy_Flags =
  px_master :: string
  px_etcd_bin :: string
  px_framework_name :: string
  px_data_dir :: string
  px_listen_client_urls :: string

record proxyArgs =
  Bin :: string
  InitialCluster :: string
  DataDir :: string
  ListenAddrs :: string
  AdvertiseAddrs :: string

definition proxy_cmd :: "proxyArgs \<Rightarrow> string" where
  "proxy_cmd a =
     Bin a @ '' --proxy=on --data-dir='' @ DataDir a @ '' --listen-client-urls='' @ ListenAddrs a @
     '' --advertise-client-urls='' @ AdvertiseAddrs a @ '' --initial-cluster='' @ InitialCluster a"

definition proxy_master ::
    "'w World \<Rightarrow> bool \<Rightarrow> decoder \<Rightarrow> string \<Rightarrow> 'w \<Rightarrow> string start \<times> 'w" where
  "proxy_master io little proto_Unmarshal m w =
     (if HasPrefix m ''zk://'' then
        (case GetMasterFromZK io little proto_Unmarshal m w of
           (Panics, w1) \<Rightarrow> (Crashes, w1)
         | (Returns (Inl e), w1) \<Rightarrow> (Fatal e, w1)
         | (Returns (Inr addr), w1) \<Rightarrow> (Started addr, w1))
      else (Started m, w))"

text \<open>
  The program and the arguments for \<open>exec\<close>; \<open>None\<close>: the loop of \<open>GetState\<close> does not end.  The flag
  \<open>-data-dir\<close> is not read.  The error of \<open>GetState\<close> may be nil (\<open>Inl None\<close>) only without any attempt.
\<close>

definition proxy_main ::
    "'w World \<Rightarrow> 'w Host_Env \<Rightarrow> bool \<Rightarrow> decoder \<Rightarrow> Proxy_Flags \<Rightarrow> 'w \<Rightarrow> ((string \<times> string list) start \<times> 'w) option" where
  "proxy_main io env little proto_Unmarshal fl w =
     (case TempDir env ''etcd-mesos-proxy'' w of
        (None, w1) \<Rightarrow> Some (Fatal (ErrText ''TempDir''), w1)
      | (Some path, w1) \<Rightarrow>
          (case proxy_master io little proto_Unmarshal (px_master fl) w1 of
             (Fatal e, w2) \<Rightarrow> Some (Fatal e, w2)
           | (Stops, w2) \<Rightarrow> Some (Stops, w2)
           | (Crashes, w2) \<Rightarrow> Some (Crashes, w2)
           | (Started m, w2) \<Rightarrow>
               (case GetState io (''http://'' @ m) w2 of
                  None \<Rightarrow> None
                | Some (Inl (Some e), w3) \<Rightarrow> Some (Fatal e, w3)
                | Some (Inl None, w3) \<Rightarrow> Some (Crashes, w3)
                | Some (Inr st, w3) \<Rightarrow>
                    (case GetPeersFromState st (px_framework_name fl) of
                       Inl e \<Rightarrow> Some (Fatal e, w3)
                     | Inr peers \<Rightarrow>
                         (let args = \<lparr>Bin = px_etcd_bin fl, InitialCluster = Join peers '','', DataDir = path,
                                ListenAddrs = px_listen_client_urls fl, AdvertiseAddrs = px_listen_client_urls fl\<rparr>
                          in Some (Started (px_etcd_bin fl, Fields (proxy_cmd args)), w3))))))"

section \<open>The executor\<close>

record Executor_Flags =
  launch_timeout :: "64 word"
  ex_driver_port :: "64 word"

record Executor_Config =
  ec_BindingAddress :: "string option"
  ec_BindingPort :: "16 word"
  ec_Executor :: Executor

definition executor_main :: "'w Host_Env \<Rightarrow> Executor_Flags \<Rightarrow> Executor_Config start" where
  "executor_main env fl =
     (if ex_driver_port fl = 0 then
        Fatal (ErrText ''missing or incorrectly specified driver-port flag, must be > 0'')
      else
        let ip = Getenv env ''LIBPROCESS_IP'' in
        Started \<lparr>ec_BindingAddress = (if ip \<noteq> [] then net_ParseIP env ip else None),
                 ec_BindingPort = ucast (ex_driver_port fl),
                 ec_Executor = new_Executor (wrap64 (sint (launch_timeout fl) * 1000000000))\<rparr>)"

text \<open>
  The rest of \<open>main\<close> up to \<open>Join\<close>: an error of the constructor is only logged, and \<open>Start\<close> is then
  called on a nil driver, which panics.
\<close>

definition executor_start ::
    "'w Host_Env \<Rightarrow> 'v XNet \<Rightarrow> bool \<Rightarrow> 'v \<Rightarrow> (MesosExecutorDriver \<times> xd_effect list) start \<times> 'v" where
  "executor_start env net messengerOk v =
     (case NewMesosExecutorDriver (Getenv env) (resolves net) True messengerOk of
        None \<Rightarrow> (Crashes, v)
      | Some d \<Rightarrow>
          (case xd_Start net d v of
             (Panics, v1) \<Rightarrow> (Crashes, v1)
           | (Returns ((_, Some e), d1, es), v1) \<Rightarrow> (Stops, v1)
           | (Returns ((_, None), d1, es), v1) \<Rightarrow> (Started (d1, es), v1)))"

section \<open>Lemmas\<close>

lemma and_then_Started:
  "and_then r f = (Started y, w') \<longleftrightarrow> (\<exists>x w. r = (Started x, w) \<and> f x w = (Started y, w'))"
  by (auto simp: and_then_def split: prod.splits start.splits)

lemma and_then_go [simp]: "and_then (Started x, w) f = f x w"
  by (simp add: and_then_def)

text \<open>An artifact and the address it is offered under.\<close>

definition artifact_uri :: "string \<Rightarrow> int \<Rightarrow> string \<Rightarrow> string" where
  "artifact_uri advertise port path = ''http://'' @ advertise @ '':'' @ fmt_int port @ ''/'' @ path_base path"

lemma serve_artifacts_Started:
  assumes "serve_artifacts env advertise port paths (uris, mux) w = (Started (uris', mux'), w')"
  shows "uris' = uris @ map (artifact_uri advertise port) paths \<and> list_all (os_Stat env) paths \<and>
    (\<forall>p. gm_has mux p \<longrightarrow> gm_get mux' p = gm_get mux p) \<and>
    (\<forall>path \<in> set paths. gm_get mux' (''/'' @ path_base path) = Some path)"
  using assms
proof (induction env advertise port paths "(uris, mux)" w arbitrary: uris mux rule: serve_artifacts.induct)
  case (2 env advertise port path paths uris mux w)
  then have new: "os_Stat env path" "\<not> gm_has mux (''/'' @ path_base path)"
    by (auto simp: ServeExecutorArtifact_def Let_def split: if_splits)
  let ?mux = "gm_put (''/'' @ path_base path) path mux"
  from 2(2) new have "serve_artifacts env advertise port paths (uris @ [artifact_uri advertise port path], ?mux) w = (Started (uris', mux'), w')"
    by (simp add: ServeExecutorArtifact_def Let_def artifact_uri_def)
  from 2(1) [OF _ _ _ this] new show ?case
    by (auto simp: ServeExecutorArtifact_def Let_def artifact_uri_def go_map)
qed simp

lemma retry_loop_error:
  assumes "retry_loop io n b (\<lambda>err w. case request w of (Inr r, w1) \<Rightarrow> (Inl r, w1) | (Inl e, w1) \<Rightarrow> (Inr (Some e), w1)) a w = (Inr err, w')"
    and "0 < n \<or> a \<noteq> None"
  shows "err \<noteq> None"
  using assms
proof (induction n arbitrary: b a w)
  case (Suc n)
  then show ?case by (auto split: prod.splits sum.splits)
qed simp

lemma retry_request_error: "retry_request io request w = (Inl err, w') \<Longrightarrow> err \<noteq> None"
  unfolding retry_request_def by (auto dest: retry_loop_error split: prod.splits sum.splits)

lemma GetPreviousFrameworkID_error:
  assumes "GetPreviousFrameworkID io zkServers zkChroot name w = (Inl err, w')"
  shows "err \<noteq> None"
  using assms unfolding GetPreviousFrameworkID_def by (rule retry_request_error)

lemma previous_id_Started:
  assumes "previous_id io zkServers zkChroot name w = (Started fwid, w')"
  shows "(\<exists>previous. GetPreviousFrameworkID io zkServers zkChroot name w = (Inr previous, w') \<and> fwid = Some previous) \<or>
    GetPreviousFrameworkID io zkServers zkChroot name w = (Inl (Some ZkNoNode), w') \<and> fwid = None"
proof -
  obtain r w1 where r: "GetPreviousFrameworkID io zkServers zkChroot name w = (r, w1)" by fastforce
  show ?thesis
  proof (cases r)
    case (Inl err)
    then obtain e where "err = Some e" using GetPreviousFrameworkID_error [of io] r by blast
    with Inl r assms show ?thesis by (cases e) (simp_all add: previous_id_def)
  qed (use r assms in \<open>simp add: previous_id_def\<close>)
qed

lemma new_scheduler_Started:
  assumes "new_scheduler io fl uris w = (Started s, w')"
  obtains s0 where
    "NewEtcdScheduler io (cluster_size fl) 10 (reseed_timeout fl) (auto_reseed fl) uris (single_instance_per_slave fl)
       (sandbox_disk_limit fl) (sandbox_cpu_limit fl) (sandbox_mem_limit fl) (offer_refuse_seconds fl) w = (Some s0, w')"
    "s = s0\<lparr>ExecutorPath := executor_bin fl, Master := fl_master fl, FrameworkName := framework_name fl,
       ZkConnect := zk_framework_persist fl\<rparr>"
  using assms by (auto simp: new_scheduler_def split: prod.splits option.splits)

lemma driver_config_Started:
  assumes "driver_config io env fl addrs b cred s w = (Started (s', cfg), w')"
  shows "ParseZKURI (zk_framework_persist fl) = Inr (ZkServers s', ZkChroot s') \<and>
    s' = s\<lparr>ZkServers := ZkServers s', ZkChroot := ZkChroot s'\<rparr> \<and> dc_Master cfg = Master s \<and> dc_Credential cfg = cred \<and>
    (\<exists>addr. dc_Framework cfg = framework_info fl addr (fi_Id (dc_Framework cfg))) \<and>
    (\<exists>w1. previous_id io (ZkServers s') (ZkChroot s') (FrameworkName s) w = (Started (fi_Id (dc_Framework cfg)), w1))"
proof -
  obtain addr advertise ex where a: "addrs = (addr, advertise, ex)" by (cases addrs)
  obtain zkServers zkChroot where z: "ParseZKURI (zk_framework_persist fl) = Inr (zkServers, zkChroot)"
    using assms a by (auto simp: driver_config_def split: sum.splits)
  with assms a show ?thesis by (auto simp: driver_config_def and_then_Started framework_info_def)
qed

lemma scheduler_main_Started:
  assumes "scheduler_main io env fl w = (Started (s, cfg, mux), w')"
  obtains addrs w1 uris w2 b w3 s0 w4 cred w5 where
    "serve_artifacts env (fst (snd addrs)) (artifact_port fl) [executor_bin fl, etcd_bin fl, etcdctl_bin fl] ([], []) w1 =
       (Started (uris, mux), w2)"
    "new_scheduler io fl uris w3 = (Started s0, w4)"
    "driver_config io env fl addrs b cred s0 w5 = (Started (s, cfg), w')"
proof -
  obtain addrs w1 where d: "defaultAddresses env (address fl) (advertise_address fl) w = (addrs, w1)" by fastforce
  have "zk_framework_persist fl \<noteq> []" using assms by (auto simp: scheduler_main_def)
  with assms d show thesis
    unfolding scheduler_main_def by (auto simp: and_then_Started intro: that)
qed

text \<open>The state of the process when \<open>main\<close> starts its goroutines.\<close>

definition started_sys :: "EtcdScheduler \<Rightarrow> 'w \<Rightarrow> 'w sys" where
  "started_sys s w = \<lparr>sched = s, launcher = LIdle, syncs = [], timers = [], arriving = [], inserting = [],
     reseeds = 0, reseedsLocked = 0, seen = {}, trace = [], alive = True, world = w\<rparr>"

lemma started_sys_init:
  fixes io :: "'w World" and w2 :: 'w
  assumes "new_scheduler io fl uris w = (Started s0, w1)"
  shows "sys_init (started_sys (s0\<lparr>ZkServers := zs, ZkChroot := zr\<rparr>) w2)"
proof -
  from assms obtain s where s:
      "NewEtcdScheduler io (cluster_size fl) 10 (reseed_timeout fl) (auto_reseed fl) uris (single_instance_per_slave fl)
         (sandbox_disk_limit fl) (sandbox_cpu_limit fl) (sandbox_mem_limit fl) (offer_refuse_seconds fl) w = (Some s, w1)"
      "s0 = s\<lparr>ExecutorPath := executor_bin fl, Master := fl_master fl, FrameworkName := framework_name fl,
         ZkConnect := zk_framework_persist fl\<rparr>"
    by (rule new_scheduler_Started)
  have st: "sched (started_sys (s0\<lparr>ZkServers := zs, ZkChroot := zr\<rparr>) w2) =
      s\<lparr>Master := fl_master fl, ExecutorPath := executor_bin fl, FrameworkName := framework_name fl,
        ZkConnect := zk_framework_persist fl, ZkChroot := zr, ZkServers := zs\<rparr>"
    by (simp add: started_sys_def s(2))
  show ?thesis unfolding sys_init_def
  proof (intro conjI exI)
    show "sched (started_sys (s0\<lparr>ZkServers := zs, ZkChroot := zr\<rparr>) w2) =
      s\<lparr>Master := fl_master fl, ExecutorPath := executor_bin fl, FrameworkName := framework_name fl,
        ZkConnect := zk_framework_persist fl, ZkChroot := zr, ZkServers := zs\<rparr>" by (rule st)
  qed (rule s(1), simp_all add: started_sys_def)
qed

lemma new_scheduler_uris:
  assumes "new_scheduler io fl uris w = (Started s, w')"
  shows "executorUris s = uris \<and> FrameworkName s = framework_name fl \<and> Master s = fl_master fl"
  using assms by (auto simp: new_scheduler_def NewEtcdScheduler_def split: prod.splits option.splits)

lemma scheduler_main_init:
  assumes "scheduler_main io env fl w = (Started (s, cfg, mux), w')"
  shows "sys_init (started_sys s w')"
  using assms
proof (rule scheduler_main_Started)
  fix addrs uris w3 s0 w4 b cred w5
  assume n: "new_scheduler io fl uris w3 = (Started s0, w4)"
    and "driver_config io env fl addrs b cred s0 w5 = (Started (s, cfg), w')"
  from driver_config_Started [OF this(2)] started_sys_init [OF n] show ?thesis by metis
qed

definition proxy_args :: "string \<Rightarrow> string \<Rightarrow> string \<Rightarrow> string \<Rightarrow> string list" where
  "proxy_args bin path urls cluster =
     [bin, ''--proxy=on'', ''--data-dir='' @ path, ''--listen-client-urls='' @ urls,
      ''--advertise-client-urls='' @ urls, ''--initial-cluster='' @ cluster]"

lemma Fields_proxy_cmd:
  assumes "bin \<noteq> []" "no_space bin" "no_space path" "no_space urls" "no_space cluster"
  shows "Fields (proxy_cmd \<lparr>Bin = bin, InitialCluster = cluster, DataDir = path, ListenAddrs = urls, AdvertiseAddrs = urls\<rparr>) =
    proxy_args bin path urls cluster"
proof -
  have "list_all (\<lambda>w. no_space w \<and> w \<noteq> []) (proxy_args bin path urls cluster)"
    using assms by (simp add: proxy_args_def) (simp add: is_space_def)
  from Fields_Join [OF this] show ?thesis by (simp add: proxy_cmd_def proxy_args_def)
qed

lemma proxy_main_Started:
  assumes "proxy_main io env little pu fl w = Some (Started (bin, argv), w')"
    and "TempDir env ''etcd-mesos-proxy'' w = (Some path, w1)"
  obtains m w2 state w3 peers where "GetState io (''http://'' @ m) w2 = Some (Inr state, w3)"
    "GetPeersFromState state (px_framework_name fl) = Inr peers" "bin = px_etcd_bin fl"
    "argv = Fields (proxy_cmd \<lparr>Bin = px_etcd_bin fl, InitialCluster = Join peers '','', DataDir = path,
       ListenAddrs = px_listen_client_urls fl, AdvertiseAddrs = px_listen_client_urls fl\<rparr>)"
proof -
  obtain m w2 where m: "proxy_master io little pu (px_master fl) w1 = (Started m, w2)"
    using assms by (cases "proxy_master io little pu (px_master fl) w1"; cases "fst (proxy_master io little pu (px_master fl) w1)")
      (auto simp: proxy_main_def)
  obtain r w3 where "GetState io (''http://'' @ m) w2 = Some (r, w3)"
    using assms m by (cases "GetState io (''http://'' @ m) w2") (auto simp: proxy_main_def)
  moreover from this obtain state where "r = Inr state"
    using assms m by (cases r) (auto simp: proxy_main_def split: option.splits)
  moreover from calculation obtain peers where "GetPeersFromState state (px_framework_name fl) = Inr peers"
    using assms m by (cases "GetPeersFromState state (px_framework_name fl)") (auto simp: proxy_main_def)
  ultimately show thesis using assms m by (intro that) (auto simp: proxy_main_def)
qed

lemma those_node_ok: "those (map (\<lambda>t. parse_node (g t)) ts) = Some ns \<Longrightarrow> list_all node_ok ns"
proof (induction ts arbitrary: ns)
  case (Cons t ts)
  then obtain n ms where "parse_node (g t) = Some n" "those (map (\<lambda>t. parse_node (g t)) ts) = Some ms" "ns = n # ms"
    by (auto split: option.splits)
  with Cons.IH show ?case by (auto simp: parse_node_def dest: Parse_node_ok split: sum.splits)
qed simp

lemma GetPeersFromState_nodes:
  assumes "GetPeersFromState ms name = Inr peers"
  obtains f ns where "f \<in> set (Frameworks ms)" "fw_Name f = name" "running_nodes f = Some ns"
    "peers = map peer_entry ns" "list_all node_ok ns"
proof -
  obtain f where f: "find (\<lambda>f. fw_Name f = name) (Frameworks ms) = Some f" "peers_loop (fw_Tasks f) [] = Inr peers"
    using assms by (auto simp: GetPeersFromState_def split: option.splits)
  from f(2) obtain ns where "running_nodes f = Some ns" "peers = map peer_entry ns"
    by (auto simp: peers_loop_those running_nodes_def split: option.splits)
  moreover from this(1) have "list_all node_ok ns" unfolding running_nodes_def comp_def by (rule those_node_ok)
  moreover have "f \<in> set (Frameworks ms)" "fw_Name f = name" using f(1) by (auto simp: find_Some_iff)
  ultimately show thesis by (intro that)
qed

section \<open>Properties\<close>

text \<open>
  A scheduler that starts does so in an initial state of the process model, with the
  servers and the path of its ZooKeeper address, under the framework identifier stored there by an
  earlier run or, if there is none, without one; and each of the three artifacts it names to the
  executors is an existing file, served under the name in its address.
\<close>

lemma scheduler_main_starts:
  assumes "scheduler_main io env fl w = (Started (s, cfg, mux), w')"
  shows "sys_init (started_sys s w') \<and>
    ParseZKURI (zk_framework_persist fl) = Inr (ZkServers s, ZkChroot s) \<and>
    (\<exists>w1. case fst (GetPreviousFrameworkID io (ZkServers s) (ZkChroot s) (framework_name fl) w1) of
       Inr previous \<Rightarrow> fi_Id (dc_Framework cfg) = Some previous
     | Inl err \<Rightarrow> err = Some ZkNoNode \<and> fi_Id (dc_Framework cfg) = None) \<and>
    (\<exists>advertise. executorUris s = map (artifact_uri advertise (artifact_port fl)) [executor_bin fl, etcd_bin fl, etcdctl_bin fl]) \<and>
    list_all (\<lambda>path. os_Stat env path \<and> gm_get mux (''/'' @ path_base path) = Some path)
      [executor_bin fl, etcd_bin fl, etcdctl_bin fl]"
proof -
  from assms obtain addrs w1 uris w2 b w3 s0 w4 cred w5 where m:
      "serve_artifacts env (fst (snd addrs)) (artifact_port fl) [executor_bin fl, etcd_bin fl, etcdctl_bin fl] ([], []) w1 =
         (Started (uris, mux), w2)"
      "new_scheduler io fl uris w3 = (Started s0, w4)"
      "driver_config io env fl addrs b cred s0 w5 = (Started (s, cfg), w')"
    by (rule scheduler_main_Started)
  from driver_config_Started [OF m(3)] obtain w6 where c:
      "ParseZKURI (zk_framework_persist fl) = Inr (ZkServers s, ZkChroot s)"
      "s = s0\<lparr>ZkServers := ZkServers s, ZkChroot := ZkChroot s\<rparr>"
      "previous_id io (ZkServers s) (ZkChroot s) (FrameworkName s0) w5 = (Started (fi_Id (dc_Framework cfg)), w6)"
    by blast
  have n: "executorUris s0 = uris" "FrameworkName s0 = framework_name fl" using new_scheduler_uris [OF m(2)] by simp_all
  have "sys_init (started_sys s w')" by (rule scheduler_main_init [OF assms])
  moreover have "case fst (GetPreviousFrameworkID io (ZkServers s) (ZkChroot s) (framework_name fl) w5) of
       Inr previous \<Rightarrow> fi_Id (dc_Framework cfg) = Some previous
     | Inl err \<Rightarrow> err = Some ZkNoNode \<and> fi_Id (dc_Framework cfg) = None"
    using previous_id_Started [OF c(3)] n by auto
  moreover have "executorUris s = uris" by (subst c(2)) (simp add: n(1))
  ultimately show ?thesis using c(1) serve_artifacts_Started [OF m(1)] by auto
qed

text \<open>
  C33 (functional): the proxy replaces itself by etcd in proxy mode with exactly the five options below:
  the temporary directory it made, the client addresses for listening and advertising, and as initial
  cluster the running servers of the framework in the state the master sent.
\<close>

theorem proxy_exec_arguments:
  assumes "proxy_main io env little pu fl w = Some (Started (bin, argv), w')"
    and "px_etcd_bin fl \<noteq> []" "no_space (px_etcd_bin fl)" "no_space (px_listen_client_urls fl)"
    and "TempDir env ''etcd-mesos-proxy'' w = (Some path, w1)" "no_space path"
  shows "bin = px_etcd_bin fl \<and>
    (\<exists>m w2 state w3 f ns. GetState io (''http://'' @ m) w2 = Some (Inr state, w3) \<and> f \<in> set (Frameworks state) \<and>
       fw_Name f = px_framework_name fl \<and> running_nodes f = Some ns \<and>
       argv = [bin, ''--proxy=on'', ''--data-dir='' @ path, ''--listen-client-urls='' @ px_listen_client_urls fl,
         ''--advertise-client-urls='' @ px_listen_client_urls fl, ''--initial-cluster='' @ Join (map peer_entry ns) '',''])"
proof -
  obtain m w2 state w3 peers where p: "GetState io (''http://'' @ m) w2 = Some (Inr state, w3)"
      "GetPeersFromState state (px_framework_name fl) = Inr peers" "bin = px_etcd_bin fl"
      "argv = Fields (proxy_cmd \<lparr>Bin = px_etcd_bin fl, InitialCluster = Join peers '','', DataDir = path,
         ListenAddrs = px_listen_client_urls fl, AdvertiseAddrs = px_listen_client_urls fl\<rparr>)"
    using assms(1,5) by (rule proxy_main_Started)
  from p(2) obtain f ns where f: "f \<in> set (Frameworks state)" "fw_Name f = px_framework_name fl" "running_nodes f = Some ns"
      "peers = map peer_entry ns" "list_all node_ok ns"
    by (rule GetPeersFromState_nodes)
  have "argv = proxy_args (px_etcd_bin fl) path (px_listen_client_urls fl) (Join peers '','')"
    unfolding p(4) by (rule Fields_proxy_cmd) (use assms f(4) no_space_peers [OF f(5)] in simp_all)
  with p(1,3) f show ?thesis unfolding proxy_args_def by blast
qed

section \<open>Witnesses\<close>

definition demo_env :: "'w Host_Env" where
  "demo_env = \<lparr>os_Hostname = Pair (Some ''h''), os_Stat = (\<lambda>_. True), ReadFile = (\<lambda>_. Pair None),
     LookupIP = (\<lambda>_. Pair (Some [''10.0.0.1''])), TempDir = (\<lambda>_. Pair (Some ''/tmp/etcd-mesos-proxy1'')),
     Getenv = (\<lambda>_. []), net_ParseIP = Some\<rparr>"

definition demo_flags :: Scheduler_Flags where
  "demo_flags = \<lparr>framework_name = ''etcd'', fl_master = ''m:5050'', zk_framework_persist = ''zk://z:2181/etcd'',
     cluster_size = 3, admin_port = 23400, reseed_timeout = 240, auto_reseed = True, artifact_port = 12300,
     sandbox_disk_limit = 1, sandbox_cpu_limit = 1, sandbox_mem_limit = 1,
     executor_bin = ''./bin/etcd-mesos-executor'', etcd_bin = ''./bin/etcd'', etcdctl_bin = ''./bin/etcdctl'',
     address = [], advertise_address = [], driver_port = 0, auth_principal = [], auth_secret_file = [],
     offer_refuse_seconds = 1, single_instance_per_slave = True, failover_timeout_seconds = 1, framework_weburi = []\<rparr>"

lemma demo_flags_simps:
  "zk_framework_persist demo_flags = ''zk://z:2181/etcd''" "address demo_flags = []" "advertise_address demo_flags = []"
  "auth_principal demo_flags = []" "artifact_port demo_flags = 12300"
  "executor_bin demo_flags = ''./bin/etcd-mesos-executor''" "etcd_bin demo_flags = ''./bin/etcd''" "etcdctl_bin demo_flags = ''./bin/etcdctl''"
  by (simp_all add: demo_flags_def)

lemma demo_artifacts:
  "path_base ''./bin/etcd-mesos-executor'' = ''etcd-mesos-executor''" "path_base ''./bin/etcd'' = ''etcd''"
  "path_base ''./bin/etcdctl'' = ''etcdctl''"
  by code_simp+

lemma demo_zk: "ParseZKURI ''zk://z:2181/etcd'' = Inr ([''z:2181''], ''/etcd'')"
  by code_simp

lemma demo_first_run: "previous_id zk_demo [''z:2181''] ''/etcd'' ''etcd'' [] = (Started None, [])"
  by code_simp

lemma demo_served:
  "\<exists>r. serve_artifacts demo_env a p [''./bin/etcd-mesos-executor'', ''./bin/etcd'', ''./bin/etcdctl''] ([], []) w = (Started r, w)"
  by (simp add: ServeExecutorArtifact_def Let_def demo_env_def demo_artifacts go_map) (simp add: gm_has_def)

lemma demo_main_in:
  assumes "previous_id zk_demo [''z:2181''] ''/etcd'' ''etcd'' w = (Started i, w)"
  shows "\<exists>s cfg mux. scheduler_main zk_demo demo_env demo_flags w = (Started (s, cfg, mux), w) \<and>
    fi_Id (dc_Framework cfg) = i \<and> dc_Credential cfg = None \<and> dc_Master cfg = ''m:5050''"
proof -
  obtain uris mux where "serve_artifacts demo_env ''h'' 12300 [''./bin/etcd-mesos-executor'', ''./bin/etcd'', ''./bin/etcdctl''] ([], []) w =
      (Started (uris, mux), w)"
    using demo_served [of "''h''" 12300 w] by auto
  moreover have "defaultAddresses demo_env [] [] w = ((''h'', ''h'', False), w)"
    by (simp add: defaultAddresses_def demo_env_def)
  moreover have "parseIP demo_env ''h'' w = (Started ''10.0.0.1'', w)"
    by (simp add: parseIP_def demo_env_def)
  moreover obtain s where n: "new_scheduler zk_demo demo_flags uris w = (Started s, w)"
    by (simp add: new_scheduler_def NewEtcdScheduler_def New_def demo_flags_def zk_demo_def)
  moreover have "FrameworkName s = ''etcd''" "Master s = ''m:5050''"
    using new_scheduler_uris [OF n] by (simp_all add: demo_flags_def)
  ultimately show ?thesis
    using assms
    by (simp add: scheduler_main_def demo_flags_simps credential_def driver_config_def demo_zk published_address_def framework_info_def
        del: serve_artifacts.simps)
qed

lemma demo_main: "\<exists>s cfg mux w'. scheduler_main zk_demo demo_env demo_flags [] = (Started (s, cfg, mux), w')"
  using demo_main_in [OF demo_first_run] by blast

text \<open>A master whose state has one framework with one running task.\<close>

definition demo_state :: json where
  "demo_state = JObj [(''frameworks'', JArr [JObj [(''name'', JStr ''etcd''),
     (''tasks'', JArr [JObj [(''id'', JStr ''etcd-1 h1 1 2 3''), (''state'', JStr ''TASK_RUNNING'')]])]])]"

definition demo_proxy :: Proxy_Flags where
  "demo_proxy = \<lparr>px_master = ''m:5050'', px_etcd_bin = ''./bin/etcd'', px_framework_name = ''etcd'',
     px_data_dir = [], px_listen_client_urls = ''http://localhost:2379''\<rparr>"

lemma demo_state_decodes:
  "unmarshal dec_MasterState (print_json demo_state) = Some \<lparr>Frameworks = [\<lparr>fw_ID = [], fw_Name = ''etcd'',
     fw_Tasks = [\<lparr>ExecutorID = [], FrameworkID = [], TaskID = ''etcd-1 h1 1 2 3'', TaskName = [], TaskSlaveID = [],
       State = ''TASK_RUNNING''\<rparr>]\<rparr>]\<rparr>"
proof -
  have "json_ok demo_state" by (simp add: demo_state_def)
  moreover have "dec_MasterState demo_state = Some \<lparr>Frameworks = [\<lparr>fw_ID = [], fw_Name = ''etcd'',
     fw_Tasks = [\<lparr>ExecutorID = [], FrameworkID = [], TaskID = ''etcd-1 h1 1 2 3'', TaskName = [], TaskSlaveID = [],
       State = ''TASK_RUNNING''\<rparr>]\<rparr>]\<rparr>" by code_simp
  ultimately show ?thesis by (simp add: unmarshal_print)
qed

lemma demo_GetState: "\<exists>w. GetState (demo_answer (print_json demo_state)) m 0 = Some (Inr \<lparr>Frameworks = [\<lparr>fw_ID = [], fw_Name = ''etcd'',
     fw_Tasks = [\<lparr>ExecutorID = [], FrameworkID = [], TaskID = ''etcd-1 h1 1 2 3'', TaskName = [], TaskSlaveID = [],
       State = ''TASK_RUNNING''\<rparr>]\<rparr>]\<rparr>, w)"
  by (simp add: GetState_def eval_nat_numeral state_loop.simps fetch_state_def get_blob_def http_get_def demo_answer_def
      demo_state_decodes)

lemma demo_peers: "GetPeersFromState \<lparr>Frameworks = [\<lparr>fw_ID = [], fw_Name = ''etcd'',
     fw_Tasks = [\<lparr>ExecutorID = [], FrameworkID = [], TaskID = ''etcd-1 h1 1 2 3'', TaskName = [], TaskSlaveID = [],
       State = ''TASK_RUNNING''\<rparr>]\<rparr>]\<rparr> ''etcd'' = Inr [peer_entry demo_node]"
proof -
  have "node_String demo_node = ''etcd-1 h1 1 2 3''" by code_simp
  then have "Parse ''etcd-1 h1 1 2 3'' = Inr (text_part demo_node)" using demo_node_Parse by simp
  then show ?thesis by (simp add: GetPeersFromState_def peer_entry_def)
qed

theorem proxy_exec_arguments_witness:
  "\<exists>argv w'. proxy_main (demo_answer (print_json demo_state)) demo_env True (\<lambda>_. None) demo_proxy 0 =
       Some (Started (''./bin/etcd'', argv), w') \<and> argv ! 2 = ''--data-dir=/tmp/etcd-mesos-proxy1''"
proof -
  let ?io = "demo_answer (print_json demo_state)"
  have t: "TempDir demo_env ''etcd-mesos-proxy'' 0 = (Some ''/tmp/etcd-mesos-proxy1'', 0 :: nat)" by (simp add: demo_env_def)
  have f: "px_master demo_proxy = ''m:5050''" "px_framework_name demo_proxy = ''etcd''" "px_etcd_bin demo_proxy = ''./bin/etcd''"
      "no_space (px_etcd_bin demo_proxy)" "no_space (px_listen_client_urls demo_proxy)" "no_space ''/tmp/etcd-mesos-proxy1''"
    by (simp_all add: demo_proxy_def is_space_def)
  obtain w where "GetState ?io ''http://m:5050'' 0 = Some (Inr \<lparr>Frameworks = [\<lparr>fw_ID = [], fw_Name = ''etcd'',
     fw_Tasks = [\<lparr>ExecutorID = [], FrameworkID = [], TaskID = ''etcd-1 h1 1 2 3'', TaskName = [], TaskSlaveID = [],
       State = ''TASK_RUNNING''\<rparr>]\<rparr>]\<rparr>, w)" using demo_GetState by blast
  then obtain argv where m: "proxy_main ?io demo_env True (\<lambda>_. None) demo_proxy 0 = Some (Started (''./bin/etcd'', argv), w)"
    using t f demo_peers by (simp add: proxy_main_def proxy_master_def HasPrefix_def)
  from proxy_exec_arguments [OF m _ f(4,5) t f(6)] f(3) have "argv ! 2 = ''--data-dir=/tmp/etcd-mesos-proxy1''" by auto
  with m show ?thesis by blast
qed

end
