(* ===== verification/Driver_System.thy ===== *)
theory Driver_System
  imports Sched_Driver
begin

text \<open>
  The scheduler driver with its goroutines and the messenger.  The messenger handles the messages
  from the network one after the other, in \<open>decodeLoop\<close>; a message the driver routes to itself (a
  change of the master, a network error, the result of an authentication) is handled by a goroutine
  of its own.  The event lock makes each handler one step up to its callback, which waits for the
  scheduler without the lock.
\<close>

section \<open>Messages and calls\<close>

datatype inbound =
    MFrameworkRegistered string MasterInfo
  | MFrameworkReregistered MasterInfo
  | MResourceOffers "Offer list" "string list"
  | MRescindOffer string
  | MStatusUpdate StatusUpdateInfo string
  | MLostSlave string
  | MFrameworkMessage string string string
  | MFrameworkError string
  | MExitedExecutor string string int
  | MMasterChanged "string option"
  | MNetworkError string string
  | MAuthenticationResult bool bool string

fun drv_handle :: "'w Net \<Rightarrow> UPID option \<Rightarrow> inbound \<Rightarrow> MesosSchedulerDriver \<Rightarrow> 'w \<Rightarrow> 'w handled" where
  "drv_handle net from (MFrameworkRegistered i info) d w = frameworkRegistered net from i info d w"
| "drv_handle net from (MFrameworkReregistered info) d w = frameworkReregistered net from info d w"
| "drv_handle net from (MResourceOffers offers pids) d w = resourcesOffered net offers pids d w"
| "drv_handle net from (MRescindOffer i) d w = resourceOfferRescinded i d w"
| "drv_handle net from (MStatusUpdate u pid) d w = statusUpdated net from u pid d w"
| "drv_handle net from (MLostSlave slave) d w = slaveLost slave d w"
| "drv_handle net from (MFrameworkMessage e slave data) d w = frameworkMessageRcvd e slave data d w"
| "drv_handle net from (MFrameworkError msg) d w = frameworkErrorRcvd net msg d w"
| "drv_handle net from (MExitedExecutor e slave code) d w = exitedExecutor e slave code d w"
| "drv_handle net from (MMasterChanged master) d w = handleMasterChanged net from master d w"
| "drv_handle net from (MNetworkError pid session) d w = handleNetworkError from pid session d w"
| "drv_handle net from (MAuthenticationResult completed success pid) d w =
     (handleAuthenticationResult from completed success pid d, w)"

text \<open>The calls of the scheduler and of the main program.\<close>

datatype drv_request =
    RStart | RStop bool | RAbort
  | RAcceptOffers "string list" "Offer_Operation list" real
  | RLaunchTasks "string list" "TaskInfo list" real
  | RDeclineOffer string real
  | RKillTask string
  | RRequestResources
  | RReviveOffers
  | RSendFrameworkMessage string string string
  | RReconcileTasks "TaskStatus list"

fun drv_perform :: "'w Net \<Rightarrow> drv_request \<Rightarrow> MesosSchedulerDriver \<Rightarrow> 'w \<Rightarrow> 'w called" where
  "drv_perform net RStart d w = drv_Start net d w"
| "drv_perform net (RStop failingOver) d w = drv_Stop net None failingOver d w"
| "drv_perform net RAbort d w = drv_Abort net None d w"
| "drv_perform net (RAcceptOffers offerIds operations filters) d w = AcceptOffers net offerIds operations filters d w"
| "drv_perform net (RLaunchTasks offerIds ts filters) d w = msd_LaunchTasks net offerIds ts filters d w"
| "drv_perform net (RDeclineOffer offerId filters) d w = msd_DeclineOffer net offerId filters d w"
| "drv_perform net (RKillTask t) d w = drv_KillTask net t d w"
| "drv_perform net RRequestResources d w = drv_RequestResources net d w"
| "drv_perform net RReviveOffers d w = drv_ReviveOffers net d w"
| "drv_perform net (RSendFrameworkMessage e slave data) d w = drv_SendFrameworkMessage net e slave data d w"
| "drv_perform net (RReconcileTasks statuses) d w = msd_ReconcileTasks net statuses d w"

section \<open>The step relation\<close>

text \<open>
  A callback that waits for the scheduler; \<open>in_loop\<close> if the handler was called by \<open>decodeLoop\<close>, which
  handles no other message meanwhile, and \<open>then_auth\<close> if the handler goes on with \<open>tryAuthentication\<close>.
\<close>

record waiting_callback =
  wc_callback :: sched_callback
  in_loop :: bool
  then_auth :: bool

text \<open>
  The driver with its goroutines: handlers with a waiting callback, handlers whose
  \<open>tryAuthentication\<close> is still to run, registration loops with their bound, running authentication
  attempts, the results they route, attempts whose channel is to be closed, tasks to be reported as
  lost (in some order), causes to be reported after a stop, and calls of \<open>Stop\<close>.  The callbacks the
  scheduler has taken and all effects are recorded.
\<close>

record 'w drv_sys =
  the_drv :: MesosSchedulerDriver
  waiting :: "waiting_callback list"
  authQ :: nat
  registering :: "real list"
  attempts :: "(nat \<times> UPID) list"
  auth_results :: "(bool \<times> bool \<times> string) list"
  closing :: "nat list"
  lostQ :: "TaskInfo list"
  stopQ :: "string option list"
  stopCalls :: "bool list"
  delivered :: "sched_callback list"
  drv_out :: "drv_effect list"
  crashed :: bool
  dworld :: 'w

fun spawn :: "bool \<Rightarrow> drv_effect list \<Rightarrow> 'w drv_sys \<Rightarrow> 'w drv_sys" where
  "spawn lp [] st = st"
| "spawn lp (DCallback cb # es) st =
     spawn lp es (st\<lparr>waiting := waiting st @ [\<lparr>wc_callback = cb, in_loop = lp, then_auth = False\<rparr>]\<rparr>)"
| "spawn lp (DCallbackAuth cb # es) st =
     spawn lp es (st\<lparr>waiting := waiting st @ [\<lparr>wc_callback = cb, in_loop = lp, then_auth = True\<rparr>]\<rparr>)"
| "spawn lp (DRegister # es) st = spawn lp es (st\<lparr>registering := registering st @ [registrationBackoffFactor]\<rparr>)"
| "spawn lp (DAuthenticate i pid # es) st = spawn lp es (st\<lparr>attempts := attempts st @ [(i, pid)]\<rparr>)"
| "spawn lp (DLost ts # es) st = spawn lp es (st\<lparr>lostQ := lostQ st @ ts\<rparr>)"
| "spawn lp (DStopped cause # es) st = spawn lp es (st\<lparr>stopQ := stopQ st @ [cause]\<rparr>)"
| "spawn lp (DStop failingOver # es) st = spawn lp es (st\<lparr>stopCalls := stopCalls st @ [failingOver]\<rparr>)"
| "spawn lp (DSend pid msg # es) st = spawn lp es st"
| "spawn lp (DDetect # es) st = spawn lp es st"
| "spawn lp (DCancelDetector # es) st = spawn lp es st"

definition proceed :: "bool \<Rightarrow> MesosSchedulerDriver \<Rightarrow> drv_effect list \<Rightarrow> 'w \<Rightarrow> 'w drv_sys \<Rightarrow> 'w drv_sys" where
  "proceed lp d es w st = spawn lp es (st\<lparr>the_drv := d, drv_out := drv_out st @ es, dworld := w\<rparr>)"

text \<open>The messages the driver routes to itself once it has started.\<close>

definition routed_message :: "inbound \<Rightarrow> bool" where
  "routed_message msg = (case msg of MMasterChanged m \<Rightarrow> True | MNetworkError pid session \<Rightarrow> True | _ \<Rightarrow> False)"

inductive drv_step :: "'w Net \<Rightarrow> 'w drv_sys \<Rightarrow> 'w drv_sys \<Rightarrow> bool" for net where
  message: "\<not> crashed st \<Longrightarrow> drv_started (the_drv st) \<Longrightarrow> \<not> list_ex in_loop (waiting st) \<Longrightarrow>
    drv_handle net (Some from) msg (the_drv st) (dworld st) = (Returns (d, es), w1) \<Longrightarrow>
    drv_step net st (proceed True d es w1 st)"
| message_panics: "\<not> crashed st \<Longrightarrow> drv_started (the_drv st) \<Longrightarrow> \<not> list_ex in_loop (waiting st) \<Longrightarrow>
    drv_handle net (Some from) msg (the_drv st) (dworld st) = (Panics, w1) \<Longrightarrow>
    drv_step net st (st\<lparr>crashed := True\<rparr>)"
| routed: "\<not> crashed st \<Longrightarrow> drv_started (the_drv st) \<Longrightarrow> routed_message msg \<Longrightarrow>
    drv_handle net (selfPid (the_drv st)) msg (the_drv st) (dworld st) = (Returns (d, es), w1) \<Longrightarrow>
    drv_step net st (proceed False d es w1 st)"
| routed_panics: "\<not> crashed st \<Longrightarrow> drv_started (the_drv st) \<Longrightarrow> routed_message msg \<Longrightarrow>
    drv_handle net (selfPid (the_drv st)) msg (the_drv st) (dworld st) = (Panics, w1) \<Longrightarrow>
    drv_step net st (st\<lparr>crashed := True\<rparr>)"
| call: "\<not> crashed st \<Longrightarrow> drv_perform net req (the_drv st) (dworld st) = (Returns (r, d, es), w1) \<Longrightarrow>
    drv_step net st (proceed False d es w1 st)"
| call_panics: "\<not> crashed st \<Longrightarrow> drv_perform net req (the_drv st) (dworld st) = (Panics, w1) \<Longrightarrow>
    drv_step net st (st\<lparr>crashed := True\<rparr>)"
| deliver: "\<not> crashed st \<Longrightarrow> waiting st = as @ c # bs \<Longrightarrow> trySend first final (wc_callback c) (the_drv st) = (True, d, cbs) \<Longrightarrow>
    drv_step net st
      (st\<lparr>the_drv := d, waiting := as @ bs, delivered := delivered st @ cbs, authQ := authQ st + (if then_auth c then 1 else 0)\<rparr>)"
| authenticate: "\<not> crashed st \<Longrightarrow> authQ st = Suc n \<Longrightarrow> tryAuthentication (the_drv st) = Returns (d, es) \<Longrightarrow>
    drv_step net st (proceed False d es (dworld st) (st\<lparr>authQ := n\<rparr>))"
| authenticate_panics: "\<not> crashed st \<Longrightarrow> authQ st = Suc n \<Longrightarrow> tryAuthentication (the_drv st) = Panics \<Longrightarrow>
    drv_step net st (st\<lparr>crashed := True\<rparr>)"
| attempt_ends: "\<not> crashed st \<Longrightarrow> attempts st = as @ (i, pid) # bs \<Longrightarrow> success \<longrightarrow> completed \<Longrightarrow>
    drv_step net st
      (st\<lparr>attempts := as @ bs, auth_results := auth_results st @ [(completed, success, upid_String pid)], closing := closing st @ [i]\<rparr>)"
| attempt_closes: "\<not> crashed st \<Longrightarrow> closing st = as @ i # bs \<Longrightarrow>
    drv_step net st (st\<lparr>closing := as @ bs, the_drv := cancel_attempt (Some i) (the_drv st)\<rparr>)"
| result: "\<not> crashed st \<Longrightarrow> auth_results st = as @ (completed, success, pid) # bs \<Longrightarrow>
    drv_handle net (selfPid (the_drv st)) (MAuthenticationResult completed success pid) (the_drv st) (dworld st) = (Returns (d, es), w1) \<Longrightarrow>
    drv_step net st (proceed False d es w1 (st\<lparr>auth_results := as @ bs\<rparr>))"
| result_panics: "\<not> crashed st \<Longrightarrow> auth_results st = as @ (completed, success, pid) # bs \<Longrightarrow>
    drv_handle net (selfPid (the_drv st)) (MAuthenticationResult completed success pid) (the_drv st) (dworld st) = (Panics, w1) \<Longrightarrow>
    drv_step net st (st\<lparr>crashed := True\<rparr>)"
| register: "\<not> crashed st \<Longrightarrow> registering st = as @ b # bs \<Longrightarrow>
    registration_round net b (the_drv st) (dworld st) = (Returns (next, es), w1) \<Longrightarrow>
    drv_step net st
      (proceed False (the_drv st) es w1 (st\<lparr>registering := as @ (case next of None \<Rightarrow> [] | Some b1 \<Rightarrow> [b1]) @ bs\<rparr>))"
| register_panics: "\<not> crashed st \<Longrightarrow> registering st = as @ b # bs \<Longrightarrow>
    registration_round net b (the_drv st) (dworld st) = (Panics, w1) \<Longrightarrow>
    drv_step net st (st\<lparr>crashed := True\<rparr>)"
| register_stops: "\<not> crashed st \<Longrightarrow> registering st = as @ b # bs \<Longrightarrow> stopClosed (the_drv st) \<Longrightarrow>
    drv_step net st (st\<lparr>registering := as @ bs\<rparr>)"
| stops: "\<not> crashed st \<Longrightarrow> stopCalls st = as @ f # bs \<Longrightarrow>
    drv_perform net (RStop f) (the_drv st) (dworld st) = (Returns (r, d, es), w1) \<Longrightarrow>
    drv_step net st (proceed False d es w1 (st\<lparr>stopCalls := as @ bs\<rparr>))"
| stops_panics: "\<not> crashed st \<Longrightarrow> stopCalls st = as @ f # bs \<Longrightarrow>
    drv_perform net (RStop f) (the_drv st) (dworld st) = (Panics, w1) \<Longrightarrow>
    drv_step net st (st\<lparr>crashed := True\<rparr>)"
| lost: "\<not> crashed st \<Longrightarrow> lostQ st = as @ t # bs \<Longrightarrow> pushLostTask net t (the_drv st) (dworld st) = (Returns (d, es), w1) \<Longrightarrow>
    drv_step net st (proceed False d es w1 (st\<lparr>lostQ := as @ bs\<rparr>))"
| lost_panics: "\<not> crashed st \<Longrightarrow> lostQ st = as @ t # bs \<Longrightarrow> pushLostTask net t (the_drv st) (dworld st) = (Panics, w1) \<Longrightarrow>
    drv_step net st (st\<lparr>crashed := True\<rparr>)"
| reports: "\<not> crashed st \<Longrightarrow> stopQ st = as @ cause # bs \<Longrightarrow> report_stop cause (the_drv st) (dworld st) = (Returns (d, es), w1) \<Longrightarrow>
    drv_step net st (proceed False d es w1 (st\<lparr>stopQ := as @ bs\<rparr>))"

definition drv_start :: "MesosSchedulerDriver \<Rightarrow> 'w \<Rightarrow> 'w drv_sys" where
  "drv_start d w = \<lparr>the_drv = d, waiting = [], authQ = 0, registering = [], attempts = [], auth_results = [], closing = [],
     lostQ = [], stopQ = [], stopCalls = [], delivered = [], drv_out = [], crashed = False, dworld = w\<rparr>"

definition drv_init :: "DriverConfig \<Rightarrow> 'w drv_sys \<Rightarrow> bool" where
  "drv_init config st \<longleftrightarrow>
     (\<exists>user hostName d w. NewMesosSchedulerDriver user hostName None None config = Inr d \<and> st = drv_start d w)"

interpretation drv_ts: transition_system "drv_init config" "drv_step net" for config net .

definition drv_reachable :: "'w Net \<Rightarrow> DriverConfig \<Rightarrow> 'w drv_sys \<Rightarrow> bool" where
  "drv_reachable net config st \<longleftrightarrow> (\<exists>st0. drv_init config st0 \<and> (drv_step net)\<^sup>*\<^sup>* st0 st)"

lemma drv_reachable_reach: "drv_reachable net config st = drv_ts.reach config net st"
  by (simp add: drv_reachable_def drv_ts.reach_def)

section \<open>The session the scheduler sees\<close>

text \<open>
  The contract of the callbacks: until the driver is stopped, the scheduler is registered and
  disconnected in turn, and hears of offers, executors and slaves only while it is registered.
\<close>

datatype session = Disconnected_Session | Connected_Session | Stopped_Session

definition session_callback :: "session \<Rightarrow> sched_callback \<Rightarrow> session option" where
  "session_callback s cb =
     (let connects = (if s = Connected_Session then None else Some Connected_Session);
          needs = (\<lambda>s1. if s = Connected_Session then Some s1 else None) in
      case cb of
        CbRegistered i info \<Rightarrow> connects
      | CbReregistered info \<Rightarrow> connects
      | CbDisconnected \<Rightarrow> needs Disconnected_Session
      | CbResourceOffers offers \<Rightarrow> needs s
      | CbOfferRescinded i \<Rightarrow> needs s
      | CbExecutorLost e slave code \<Rightarrow> needs s
      | CbSlaveLost slave \<Rightarrow> needs s
      | _ \<Rightarrow> Some s)"

definition session_event :: "session \<Rightarrow> drv_effect \<Rightarrow> session option" where
  "session_event s e =
     (if s = Stopped_Session then Some Stopped_Session
      else
        case e of
          DStopped cause \<Rightarrow> Some Stopped_Session
        | DCallback cb \<Rightarrow> session_callback s cb
        | DCallbackAuth cb \<Rightarrow> session_callback s cb
        | _ \<Rightarrow> Some s)"

fun session_run :: "session \<Rightarrow> drv_effect list \<Rightarrow> session option" where
  "session_run s [] = Some s"
| "session_run s (e # es) = (case session_event s e of None \<Rightarrow> None | Some s1 \<Rightarrow> session_run s1 es)"

definition drv_session :: "MesosSchedulerDriver \<Rightarrow> session" where
  "drv_session d = (if stopClosed d then Stopped_Session else if connected d then Connected_Session else Disconnected_Session)"

lemma session_run_append:
  "session_run s (es @ es') = (case session_run s es of None \<Rightarrow> None | Some s1 \<Rightarrow> session_run s1 es')"
  by (induction es arbitrary: s) (auto split: option.splits)

lemma session_run_Stopped [simp]: "session_run Stopped_Session es = Some Stopped_Session"
  by (induction es) (simp_all add: session_event_def)

section \<open>Lemmas: what every operation keeps\<close>

text \<open>
  A connected driver knows its master, a running one its own address, and only a stopped one has
  closed the queue.
\<close>

definition drv_inv :: "MesosSchedulerDriver \<Rightarrow> bool" where
  "drv_inv d \<longleftrightarrow>
     (connected d \<longrightarrow> masterPid d \<noteq> None) \<and> (drv_status d = DRIVER_RUNNING \<longrightarrow> selfPid d \<noteq> None) \<and>
     (drv_started d \<longrightarrow> selfPid d \<noteq> None) \<and> (queueClosed d \<longrightarrow> stopClosed d) \<and>
     (stopClosed d \<longrightarrow> drv_status d \<noteq> DRIVER_RUNNING \<and> drv_status d \<noteq> DRIVER_NOT_STARTED)"

abbreviation is_lost :: "drv_effect \<Rightarrow> bool" where
  "is_lost e \<equiv> \<exists>ts. e = DLost ts"

abbreviation is_stopped :: "drv_effect \<Rightarrow> bool" where
  "is_stopped e \<equiv> \<exists>cause. e = DStopped cause"

abbreviation is_registration :: "drv_effect \<Rightarrow> bool" where
  "is_registration e \<equiv> \<exists>i info. e = DCallback (CbRegistered i info) \<or> e = DCallback (CbReregistered info)"

abbreviation registers :: "drv_message \<Rightarrow> bool" where
  "registers msg \<equiv> \<exists>info f. msg = RegisterFramework info \<or> msg = ReregisterFramework info f"

text \<open>
  Besides the invariant: the address stays known and only a driver with an address reports lost
  tasks, the effects are steps of the session, a stop is reported, what the driver registers as
  changes only with a callback, and it is what it sends to the master.
\<close>

definition drv_keeps :: "MesosSchedulerDriver \<Rightarrow> MesosSchedulerDriver \<Rightarrow> drv_effect list \<Rightarrow> bool" where
  "drv_keeps d d' es \<longleftrightarrow>
     drv_inv d' \<and> (selfPid d \<noteq> None \<longrightarrow> selfPid d' \<noteq> None) \<and> (list_ex is_lost es \<longrightarrow> selfPid d' \<noteq> None) \<and>
     session_run (drv_session d) es = Some (drv_session d') \<and> queueClosed d' = queueClosed d \<and>
     (stopClosed d \<longrightarrow> stopClosed d') \<and> (stopClosed d' \<longrightarrow> stopClosed d \<or> list_ex is_stopped es) \<and>
     (stopClosed d \<or> list_ex is_registration es \<or> frameworkInfo d' = frameworkInfo d \<and> failover d' = failover d) \<and>
     list_all (\<lambda>e. \<forall>p msg. e = DSend p msg \<longrightarrow> registers msg \<longrightarrow> \<not> stopClosed d \<and> msg = register_message d) es"

lemmas drv_handler_defs = drv_ignored_def call_back_def withScheduler_def drv_send_def drv_stopped_def drv_refused_def Let_def
lemmas drv_state_defs = drv_inv_def drv_session_def

lemma drv_keepsI:
  assumes "drv_inv d'" "selfPid d \<noteq> None \<Longrightarrow> selfPid d' \<noteq> None" "list_ex is_lost es \<Longrightarrow> selfPid d' \<noteq> None"
    "session_run (drv_session d) es = Some (drv_session d')" "queueClosed d' = queueClosed d"
    "stopClosed d \<Longrightarrow> stopClosed d'" "stopClosed d' \<Longrightarrow> stopClosed d \<or> list_ex is_stopped es"
    "\<not> stopClosed d \<Longrightarrow> list_ex is_registration es \<or> frameworkInfo d' = frameworkInfo d \<and> failover d' = failover d"
    "list_all (\<lambda>e. \<forall>p msg. e = DSend p msg \<longrightarrow> registers msg \<longrightarrow> \<not> stopClosed d \<and> msg = register_message d) es"
  shows "drv_keeps d d' es"
  using assms unfolding drv_keeps_def by blast

lemma cancel_attempt_fields [simp]:
  "masterPid (cancel_attempt a d) = masterPid d" "connected (cancel_attempt a d) = connected d"
  "drv_status (cancel_attempt a d) = drv_status d" "selfPid (cancel_attempt a d) = selfPid d"
  "authenticated (cancel_attempt a d) = authenticated d" "has_credential (cancel_attempt a d) = has_credential d"
  "drv_started (cancel_attempt a d) = drv_started d" "queueClosed (cancel_attempt a d) = queueClosed d"
  "stopClosed (cancel_attempt a d) = stopClosed d" "frameworkInfo (cancel_attempt a d) = frameworkInfo d"
  "failover (cancel_attempt a d) = failover d"
  by (simp_all add: cancel_attempt_def split: option.splits)

text \<open>Caching and using offers changes no other part of the driver.\<close>

definition same_but_cache :: "MesosSchedulerDriver \<Rightarrow> MesosSchedulerDriver \<Rightarrow> bool" where
  "same_but_cache d d' \<longleftrightarrow> d' = d\<lparr>savedOffers := savedOffers d', savedSlavePids := savedSlavePids d'\<rparr>"

lemma same_but_cache_refl: "same_but_cache d d"
  by (simp add: same_but_cache_def)

lemma same_but_cache_trans: "same_but_cache d d1 \<Longrightarrow> same_but_cache d1 d2 \<Longrightarrow> same_but_cache d d2"
  unfolding same_but_cache_def by (cases d, cases d1, cases d2) simp

lemma same_but_cache_fields:
  assumes "same_but_cache d d'"
  shows "masterPid d' = masterPid d" "connected d' = connected d" "drv_status d' = drv_status d" "selfPid d' = selfPid d"
    "drv_started d' = drv_started d" "queueClosed d' = queueClosed d" "stopClosed d' = stopClosed d"
    "frameworkInfo d' = frameworkInfo d" "failover d' = failover d"
  using assms unfolding same_but_cache_def by (cases d; cases d'; simp)+

lemma same_but_cache_fold:
  assumes "\<And>x d. same_but_cache d (g x d)"
  shows "same_but_cache d (fold g xs d)"
  by (induction xs arbitrary: d) (auto intro: same_but_cache_refl same_but_cache_trans assms)

lemma note_slave_cache: "same_but_cache d (note_slave i t d)"
  by (simp add: same_but_cache_def note_slave_def putSlavePid_def split: option.splits)

lemma removeOffer_cache: "same_but_cache d (removeOffer i d)"
  by (simp add: same_but_cache_def removeOffer_def)

lemma removeSlavePid_cache: "same_but_cache d (removeSlavePid i d)"
  by (simp add: same_but_cache_def removeSlavePid_def)

lemma accept_operations_cache: "same_but_cache (snd acc) (snd (fold (accept_operation i) ops acc))"
proof (induction ops arbitrary: acc)
  case (Cons p ops)
  have "same_but_cache (snd acc) (snd (accept_operation i p acc))"
    by (auto simp: accept_operation_def same_but_cache_refl note_slave_cache intro: same_but_cache_fold split: prod.splits)
  with same_but_cache_trans [OF _ Cons.IH] show ?case by simp
qed (simp add: same_but_cache_refl)

lemma accept_offers_cache: "same_but_cache (snd acc) (snd (fold (accept_offer ops) is acc))"
proof (induction "is" arbitrary: acc)
  case (Cons i "is")
  have "same_but_cache (snd acc) (snd (accept_offer ops i acc))"
    using same_but_cache_trans [OF accept_operations_cache [of acc i ops] removeOffer_cache [of _ i]]
    by (auto simp: accept_offer_def split: prod.splits)
  with same_but_cache_trans [OF _ Cons.IH] show ?case by simp
qed (simp add: same_but_cache_refl)

lemma use_offers_cache: "same_but_cache d (fold (use_offer ts) is d)"
proof (rule same_but_cache_fold)
  fix i d
  show "same_but_cache d (use_offer ts i d)"
    unfolding use_offer_def
    by (rule same_but_cache_trans [OF same_but_cache_fold [OF note_slave_cache] removeOffer_cache])
qed

lemma cache_offers_cache: "same_but_cache d (cache_offers res offers ps d)"
proof (induction res offers ps d rule: cache_offers.induct)
  case (1 res offer offers p ps d)
  have "same_but_cache d (case upid_Parse res p of None \<Rightarrow> d | Some pid \<Rightarrow> putOffer offer pid d)"
    by (simp add: same_but_cache_def putOffer_def split: option.splits)
  with same_but_cache_trans [OF _ 1] show ?case by simp
qed (simp_all add: same_but_cache_refl)

lemmas cache_fields [simp] =
  same_but_cache_fields [OF use_offers_cache] same_but_cache_fields [OF cache_offers_cache]

lemmas session_defs = session_event_def session_callback_def

lemma session_event_simps [simp]:
  "session_event s (DSend p msg) = Some s" "session_event s DRegister = Some s" "session_event s (DAuthenticate i p) = Some s"
  "session_event s (DLost ts) = Some s" "session_event s (DStop f) = Some s" "session_event s DDetect = Some s"
  "session_event s DCancelDetector = Some s" "session_event s (DStopped cause) = Some Stopped_Session"
  by (simp_all add: session_event_def)

lemma drv_keeps_refl: "drv_inv d \<Longrightarrow> drv_keeps d d []"
  by (simp add: drv_keeps_def)

lemma drv_ignored_keeps: "drv_ignored d w = (Returns (d', es), w') \<Longrightarrow> drv_inv d \<Longrightarrow> drv_keeps d d' es"
  by (simp add: drv_ignored_def drv_keeps_refl)

lemma tryAuthentication_keeps:
  "tryAuthentication d = Returns (d', es) \<Longrightarrow> drv_inv d \<Longrightarrow> drv_keeps d d' es"
  by (clarsimp simp: tryAuthentication_def split: option.splits if_splits)
     (rule drv_keepsI; auto simp: drv_state_defs)+

lemma drv_keeps_same:
  assumes "drv_keeps d1 d' es" "selfPid d1 = selfPid d" "drv_session d1 = drv_session d" "queueClosed d1 = queueClosed d"
    "stopClosed d1 = stopClosed d" "frameworkInfo d1 = frameworkInfo d" "failover d1 = failover d"
  shows "drv_keeps d d' es"
proof -
  have "register_message d1 = register_message d" using assms(6,7) by (simp add: register_message_def Let_def)
  with assms show ?thesis by (simp add: drv_keeps_def)
qed

lemma handleAuthenticationResult_keeps:
  assumes "handleAuthenticationResult from c s pid d = Returns (d', es)" "drv_inv d"
  shows "drv_keeps d d' es"
proof -
  let ?d = "(cancel_attempt (authenticating d) d)\<lparr>reauthenticate := False\<rparr>"
  have same: "drv_keeps ?d x es' \<Longrightarrow> drv_keeps d x es'" for x es' by (erule drv_keeps_same) (simp_all add: drv_session_def)
  have inv: "drv_inv ?d" using assms(2) by (simp add: drv_inv_def)
  note retry = same [OF tryAuthentication_keeps [OF _ inv]]
  show ?thesis
    using assms
    by (clarsimp simp: handleAuthenticationResult_def drv_keeps_refl retry same [OF drv_keeps_refl [OF inv]]
        split: option.splits if_splits)
       (rule drv_keepsI; auto simp: drv_state_defs)+
qed

lemma stop_messenger_keeps:
  assumes "stop_messenger net cause st d w = (Returns (r, d', es), w')" "st = DRIVER_STOPPED \<or> st = DRIVER_ABORTED" "drv_inv d"
  shows "drv_keeps d d' es"
  using assms
  by (clarsimp simp: stop_messenger_def Let_def split: prod.splits)
     (intro conjI impI; rule drv_keepsI; auto simp: drv_state_defs)

lemma drv_keeps_send:
  "drv_keeps d d' es \<Longrightarrow> \<not> registers msg \<Longrightarrow> drv_keeps d d' (DSend p msg # es)"
  by (simp add: drv_keeps_def)

lemma drv_Stop_keeps:
  assumes "drv_Stop net cause f d w = (Returns (r, d', es), w')" "drv_inv d"
  shows "drv_keeps d d' es"
  using assms
  by (clarsimp simp: drv_Stop_def drv_send_def drv_refused_def drv_keeps_refl split: prod.splits option.splits outcome.splits if_splits)
     (auto intro: drv_keeps_send stop_messenger_keeps)

lemma drv_keeps_aborted:
  "drv_keeps d d' es \<Longrightarrow> drv_keeps d (d'\<lparr>drv_status := DRIVER_ABORTED\<rparr>) (es @ [DCancelDetector])"
  by (rule drv_keepsI; auto simp: drv_keeps_def drv_state_defs session_run_append)

lemma drv_Abort_keeps:
  assumes "drv_Abort net cause d w = (Returns (r, d', es), w')" "drv_inv d"
  shows "drv_keeps d d' es"
  using assms
  by (clarsimp simp: drv_Abort_def split: prod.splits outcome.splits)
     (auto intro!: drv_keeps_aborted intro: drv_Stop_keeps stop_messenger_keeps split: if_splits)

lemma drv_fatal_keeps:
  assumes "drv_fatal net e d w = (Returns (d', es), w')" "drv_inv d"
  shows "drv_keeps d d' es"
  using assms
  by (clarsimp simp: drv_fatal_def split: prod.splits outcome.splits if_splits)
     (auto intro: drv_Abort_keeps drv_ignored_keeps)

lemma handleMasterChanged_keeps:
  assumes "handleMasterChanged net from m d w = (Returns (d', es), w')" "drv_inv d"
  shows "drv_keeps d d' es"
proof (cases "drv_status d = DRIVER_ABORTED \<or> \<not> upid_Equal from (selfPid d)")
  case True
  with assms show ?thesis by (auto simp: handleMasterChanged_def intro: drv_ignored_keeps split: if_splits)
next
  case False
  let ?d1 = "d\<lparr>connected := False, authenticated := False, masterPid := (if connected d then None else masterPid d)\<rparr>"
  show ?thesis
  proof (cases m)
    case None
    with False assms show ?thesis
      by (clarsimp simp: handleMasterChanged_def drv_handler_defs split: if_splits)
         (rule drv_keepsI; auto simp: drv_state_defs session_defs)+
  next
    case (Some addr)
    with False assms obtain pid where pid: "upid_Parse (resolves net) addr = Some pid"
      by (auto simp: handleMasterChanged_def Let_def split: option.splits)
    let ?d2 = "?d1\<lparr>masterPid := Some pid\<rparr>"
    show ?thesis
    proof (cases "connected d \<and> \<not> queueClosed d")
      case True
      with False Some pid assms show ?thesis
        by (simp add: handleMasterChanged_def Let_def) (rule drv_keepsI; auto simp: drv_state_defs session_defs)
    next
      case no_callback: False
      then have sess: "drv_session ?d2 = drv_session d" "drv_inv ?d2"
        using assms(2) by (auto simp: drv_session_def drv_inv_def)
      moreover have "tryAuthentication ?d2 = Returns (d', es)"
        using False Some pid assms no_callback by (simp add: handleMasterChanged_def Let_def)
      ultimately show ?thesis using drv_keeps_same [of ?d2 d' es d] tryAuthentication_keeps [of ?d2 d' es] by simp
    qed
  qed
qed

lemma drv_keeps_status_update:
  "drv_inv d \<Longrightarrow> drv_keeps d d (withScheduler (CbStatusUpdate s u) d)"
  by (simp add: drv_keeps_def withScheduler_def session_defs)

lemma statusUpdated_keeps:
  assumes "statusUpdated net from u pid d w = (Returns (d', es), w')" "drv_inv d"
  shows "drv_keeps d d' es"
  using assms
  by (clarsimp simp: statusUpdated_def drv_send_def call_back_def drv_ignored_def drv_keeps_refl drv_keeps_status_update drv_keeps_send Let_def
      split: prod.splits option.splits outcome.splits if_splits)

text \<open>A callback that needs a connection, and one that makes it.\<close>

lemma drv_keeps_connected:
  assumes "drv_inv d" "connected d" "session_callback Connected_Session cb = Some Connected_Session" "same_but_cache d d'"
  shows "drv_keeps d d' (withScheduler cb d')"
  using assms(1-3) same_but_cache_fields [OF assms(4)]
  by (intro drv_keepsI) (auto simp: drv_state_defs withScheduler_def session_event_def)

lemma drv_keeps_registers:
  assumes "drv_inv d" "\<not> connected d" "session_callback Disconnected_Session cb = Some Connected_Session"
    "upid_Equal (masterPid d) (Some from)" "is_registration (DCallback cb)"
    "d' = d\<lparr>frameworkInfo := fi, connected := True, failover := False, drv_connection := c\<rparr>"
  shows "drv_keeps d d' (withScheduler cb d')"
  using assms(1-5) unfolding assms(6)
  by (intro drv_keepsI) (auto simp: drv_state_defs withScheduler_def session_event_def upid_Equal_def split: option.splits if_splits)

lemma drv_handle_keeps:
  assumes "drv_handle net from msg d w = (Returns (d', es), w')" "drv_inv d" "from \<noteq> None"
  shows "drv_keeps d d' es"
proof (cases msg)
  case (MMasterChanged master)
  with assms show ?thesis by (auto intro: handleMasterChanged_keeps)
next
  case (MStatusUpdate u pid)
  with assms show ?thesis by (auto intro: statusUpdated_keeps)
next
  case (MFrameworkError e)
  with assms show ?thesis by (auto simp: frameworkErrorRcvd_def intro: drv_fatal_keeps)
next
  case (MAuthenticationResult c s pid)
  with assms show ?thesis by (auto intro: handleAuthenticationResult_keeps)
next
  case (MFrameworkRegistered i info)
  with assms show ?thesis
    by (clarsimp simp: frameworkRegistered_def drv_ignored_def call_back_def drv_keeps_refl split: prod.splits if_splits)
       (rule drv_keeps_registers, simp_all add: session_callback_def)
next
  case (MFrameworkReregistered info)
  with assms show ?thesis
    by (clarsimp simp: frameworkReregistered_def drv_ignored_def call_back_def drv_keeps_refl split: prod.splits if_splits)
       (rule drv_keeps_registers [where fi = "frameworkInfo d"], simp_all add: session_callback_def)
next
  case (MNetworkError pid session)
  with assms show ?thesis
    by (clarsimp simp: handleNetworkError_def drv_ignored_def call_back_def drv_keeps_refl split: option.splits if_splits)
       (rule drv_keepsI; auto simp: drv_state_defs withScheduler_def session_defs split: if_splits)
next
  case (MFrameworkMessage e slave data)
  with assms show ?thesis
    by (clarsimp simp: frameworkMessageRcvd_def drv_ignored_def call_back_def drv_keeps_refl split: if_splits)
       (simp add: drv_keeps_def withScheduler_def session_defs)
qed (use assms in \<open>auto simp: resourcesOffered_def resourceOfferRescinded_def slaveLost_def exitedExecutor_def drv_ignored_def
      call_back_def session_callback_def same_but_cache_refl removeOffer_cache cache_offers_cache removeSlavePid_cache
      intro: drv_keeps_refl intro!: drv_keeps_connected split: if_splits\<close>)

lemma call_master_keeps:
  assumes "call_master net m msg d w = (Returns (r, d', es), w')" "drv_inv d" "\<not> registers msg"
  shows "drv_keeps d d' es"
  using assms
  by (clarsimp simp: call_master_def drv_send_def drv_refused_def drv_keeps_refl drv_keeps_send
      split: prod.splits option.splits outcome.splits if_splits)

text \<open>Methods that use offers report their tasks as lost if the message is not sent.\<close>

lemma drv_keeps_lost:
  assumes "drv_inv d" "drv_status d = DRIVER_RUNNING" "same_but_cache d d'" "list_all (\<lambda>e. is_lost e \<or> (\<exists>p msg. e = DSend p msg \<and> \<not> registers msg)) es"
  shows "drv_keeps d d' es"
proof -
  have "session_run s es = Some s" for s using assms(4) by (induction es) auto
  moreover have "list_all (\<lambda>e. \<forall>p msg. e = DSend p msg \<longrightarrow> registers msg \<longrightarrow> \<not> stopClosed d \<and> msg = register_message d) es"
    using assms(4) by (induction es) auto
  ultimately show ?thesis
    using assms(1,2) same_but_cache_fields [OF assms(3)] by (intro drv_keepsI) (auto simp: drv_state_defs)
qed

lemma lost_operations_lost: "list_all (\<lambda>e. is_lost e \<or> P e) (lost_operations ops)"
  by (induction ops rule: lost_operations.induct) auto

lemma msd_LaunchTasks_keeps:
  assumes "msd_LaunchTasks net ids ts f d w = (Returns (r, d', es), w')" "drv_inv d"
  shows "drv_keeps d d' es"
  using assms
  by (clarsimp simp: msd_LaunchTasks_def drv_send_def drv_refused_def drv_keeps_refl Let_def
      split: prod.splits option.splits outcome.splits if_splits)
     (auto intro!: drv_keeps_lost simp: same_but_cache_refl use_offers_cache)

lemma AcceptOffers_keeps:
  assumes "AcceptOffers net ids ops f d w = (Returns (r, d', es), w')" "drv_inv d"
  shows "drv_keeps d d' es"
proof -
  have "same_but_cache d (snd (fold (accept_offer ops) ids ([], d)))" using accept_offers_cache [of "([], d)" ops ids] by simp
  with assms show ?thesis
    by (clarsimp simp: AcceptOffers_def drv_send_def drv_refused_def drv_keeps_refl Let_def
        split: prod.splits option.splits outcome.splits if_splits)
       (auto intro!: drv_keeps_lost simp: same_but_cache_refl lost_operations_lost)
qed

lemma drv_perform_keeps:
  assumes "drv_perform net req d w = (Returns (r, d', es), w')" "drv_inv d"
  shows "drv_keeps d d' es"
proof (cases req)
  case RStart
  with assms show ?thesis
    by (clarsimp simp: drv_Start_def drv_refused_def drv_keeps_refl split: prod.splits sum.splits if_splits)
       (rule drv_keepsI; auto simp: drv_state_defs)+
next
  case (RSendFrameworkMessage e slave data)
  with assms show ?thesis
    by (clarsimp simp: drv_SendFrameworkMessage_def drv_send_def drv_refused_def Let_def drv_keeps_refl drv_keeps_send
        split: prod.splits option.splits outcome.splits if_splits)
qed (use assms in \<open>auto simp: drv_KillTask_def drv_RequestResources_def drv_ReviveOffers_def msd_ReconcileTasks_def msd_DeclineOffer_def
      intro: drv_Stop_keeps drv_Abort_keeps msd_LaunchTasks_keeps AcceptOffers_keeps call_master_keeps\<close>)

lemma registration_round_keeps:
  assumes "registration_round net b d w = (Returns (n, es), w')" "drv_inv d"
  shows "drv_keeps d d es"
  using assms
  by (clarsimp simp: registration_round_def registerOnce_def drv_send_def Let_def split: prod.splits outcome.splits option.splits if_splits)
     (auto simp: drv_keeps_def drv_inv_def drv_stopped_def)

lemma pushLostTask_keeps:
  "pushLostTask net t d w = (Returns (d', es), w') \<Longrightarrow> drv_inv d \<Longrightarrow> drv_keeps d d' es"
  by (auto simp: pushLostTask_def dest: statusUpdated_keeps split: option.splits)

lemma report_stop_keeps:
  assumes "report_stop c d w = (Returns (d', es), w')" "drv_inv d"
  shows "drv_keeps d d' es"
  using assms by (clarsimp simp: report_stop_def call_back_def) (auto simp: drv_keeps_def withScheduler_def session_defs split: option.splits)

section \<open>Lemmas: the invariant of the system\<close>

text \<open>The part about a stop: as long as the queue is open, somebody is left who will close it.\<close>

definition closes_queue :: "'w drv_sys \<Rightarrow> bool" where
  "closes_queue st \<longleftrightarrow> (stopClosed (the_drv st) \<longrightarrow> queueClosed (the_drv st) \<or> stopQ st \<noteq> [] \<or> waiting st \<noteq> [])"

lemma closes_queue_update [simp]:
  "closes_queue (st\<lparr>authQ := n\<rparr>) = closes_queue st" "closes_queue (st\<lparr>auth_results := rs\<rparr>) = closes_queue st"
  "closes_queue (st\<lparr>registering := bs\<rparr>) = closes_queue st" "closes_queue (st\<lparr>stopCalls := fs\<rparr>) = closes_queue st"
  "closes_queue (st\<lparr>lostQ := ts\<rparr>) = closes_queue st" "closes_queue (st\<lparr>crashed := b\<rparr>) = closes_queue st"
  "closes_queue (st\<lparr>attempts := xs, auth_results := rs, closing := ys\<rparr>) = closes_queue st"
  "closes_queue (st\<lparr>closing := ys, the_drv := cancel_attempt i (the_drv st)\<rparr>) = closes_queue st"
  by (simp_all add: closes_queue_def)

text \<open>Until the scheduler is registered, all that the driver sends to register is one message.\<close>

definition registers_as :: "drv_message \<Rightarrow> 'w drv_sys \<Rightarrow> bool" where
  "registers_as m st \<longleftrightarrow>
     list_ex is_registration (drv_out st) \<or>
     (stopClosed (the_drv st) \<or> register_message (the_drv st) = m) \<and>
     list_all (\<lambda>e. \<forall>p msg. e = DSend p msg \<longrightarrow> registers msg \<longrightarrow> msg = m) (drv_out st)"

lemma registers_as_update [simp]:
  "registers_as m (st\<lparr>authQ := n\<rparr>) = registers_as m st" "registers_as m (st\<lparr>auth_results := rs\<rparr>) = registers_as m st"
  "registers_as m (st\<lparr>registering := bs\<rparr>) = registers_as m st" "registers_as m (st\<lparr>stopCalls := fs\<rparr>) = registers_as m st"
  "registers_as m (st\<lparr>lostQ := ts\<rparr>) = registers_as m st" "registers_as m (st\<lparr>crashed := b\<rparr>) = registers_as m st"
  "registers_as m (st\<lparr>stopQ := cs\<rparr>) = registers_as m st"
  "registers_as m (st\<lparr>attempts := xs, auth_results := rs, closing := ys\<rparr>) = registers_as m st"
  "registers_as m (st\<lparr>closing := ys, the_drv := cancel_attempt i (the_drv st)\<rparr>) = registers_as m st"
  by (simp_all add: registers_as_def register_message_def Let_def)

definition drv_sys_inv :: "drv_message \<Rightarrow> 'w drv_sys \<Rightarrow> bool" where
  "drv_sys_inv m st \<longleftrightarrow>
     drv_inv (the_drv st) \<and> (lostQ st \<noteq> [] \<longrightarrow> selfPid (the_drv st) \<noteq> None) \<and>
     session_run Disconnected_Session (drv_out st) = Some (drv_session (the_drv st)) \<and> closes_queue st \<and> registers_as m st"

abbreviation is_callback :: "drv_effect \<Rightarrow> bool" where
  "is_callback e \<equiv> \<exists>cb. e = DCallback cb \<or> e = DCallbackAuth cb"

lemma spawn_fields [simp]:
  "the_drv (spawn lp es st) = the_drv st" "crashed (spawn lp es st) = crashed st" "authQ (spawn lp es st) = authQ st"
  "drv_out (spawn lp es st) = drv_out st" "dworld (spawn lp es st) = dworld st" "delivered (spawn lp es st) = delivered st"
  by (induction lp es st rule: spawn.induct) simp_all

lemma spawn_lostQ: "\<not> list_ex is_lost es \<Longrightarrow> lostQ (spawn lp es st) = lostQ st"
  by (induction lp es st rule: spawn.induct) simp_all

lemma spawn_stopQ: "stopQ (spawn lp es st) = [] \<longleftrightarrow> stopQ st = [] \<and> \<not> list_ex is_stopped es"
  by (induction lp es st rule: spawn.induct) auto

lemma spawn_waiting: "waiting (spawn lp es st) = [] \<longleftrightarrow> waiting st = [] \<and> \<not> list_ex is_callback es"
  by (induction lp es st rule: spawn.induct) auto

lemma proceed_fields [simp]:
  "the_drv (proceed lp d es w st) = d" "crashed (proceed lp d es w st) = crashed st" "authQ (proceed lp d es w st) = authQ st"
  "dworld (proceed lp d es w st) = w" "drv_out (proceed lp d es w st) = drv_out st @ es"
  "delivered (proceed lp d es w st) = delivered st"
  by (simp_all add: proceed_def)

lemma registers_as_append:
  assumes keeps: "drv_keeps (the_drv st) d es" and regs: "registers_as m st"
    and st': "the_drv st' = d" "drv_out st' = drv_out st @ es"
  shows "registers_as m st'"
proof (cases "list_ex is_registration (drv_out st @ es)")
  case False
  with regs have m: "stopClosed (the_drv st) \<or> register_message (the_drv st) = m"
    and old: "list_all (\<lambda>e. \<forall>p msg. e = DSend p msg \<longrightarrow> registers msg \<longrightarrow> msg = m) (drv_out st)"
    by (auto simp: registers_as_def)
  have "stopClosed d \<or> register_message d = m"
    using keeps m False by (auto simp: drv_keeps_def register_message_def Let_def)
  moreover have "list_all (\<lambda>e. \<forall>p msg. e = DSend p msg \<longrightarrow> registers msg \<longrightarrow> msg = m) es"
    using keeps m by (auto simp: drv_keeps_def list_all_iff)
  ultimately show ?thesis using old st' by (simp add: registers_as_def)
qed (simp add: registers_as_def st')

lemma proceed_inv:
  assumes keeps: "drv_keeps (the_drv st) d es"
    and sess: "session_run Disconnected_Session (drv_out st) = Some (drv_session (the_drv st))"
    and lost: "lostQ st \<noteq> [] \<longrightarrow> selfPid (the_drv st) \<noteq> None"
    and closes: "closes_queue st \<or> list_ex is_callback es" and regs: "registers_as m st"
  shows "drv_sys_inv m (proceed lp d es w st)"
proof -
  let ?st = "st\<lparr>the_drv := d, drv_out := drv_out st @ es, dworld := w\<rparr>"
  have "selfPid d \<noteq> None" if "lostQ (spawn lp es ?st) \<noteq> []"
    using that keeps lost spawn_lostQ [of es lp ?st] by (auto simp: drv_keeps_def)
  moreover have "closes_queue (spawn lp es ?st)"
    using keeps closes unfolding closes_queue_def drv_keeps_def by (simp add: spawn_stopQ spawn_waiting) blast
  moreover have "session_run Disconnected_Session (drv_out st @ es) = Some (drv_session d)"
    using sess keeps by (simp add: session_run_append drv_keeps_def)
  moreover have "registers_as m (spawn lp es ?st)" using registers_as_append [OF keeps regs, of "spawn lp es ?st"] by simp
  ultimately show ?thesis using keeps unfolding drv_sys_inv_def proceed_def by (simp add: drv_keeps_def)
qed

lemma trySend_inv:
  assumes "trySend first final cb d = (True, d', cbs)" "drv_inv d"
  shows "drv_inv d'" "drv_session d' = drv_session d" "selfPid d' = selfPid d" "stopClosed d' = stopClosed d"
    "stopClosed d \<longrightarrow> queueClosed d'" "register_message d' = register_message d"
  using assms by (auto simp: trySend_def drv_inv_def drv_session_def register_message_def Let_def split: if_splits)

lemma drv_step_inv:
  assumes step: "drv_step net st st'" and inv: "drv_sys_inv m st"
  shows "drv_sys_inv m st'"
proof -
  have d: "drv_inv (the_drv st)" and lost: "lostQ st \<noteq> [] \<longrightarrow> selfPid (the_drv st) \<noteq> None"
    and sess: "session_run Disconnected_Session (drv_out st) = Some (drv_session (the_drv st))"
    and closes: "closes_queue st" and regs: "registers_as m st"
    using inv by (auto simp: drv_sys_inv_def)
  have started: "drv_started (the_drv st) \<Longrightarrow> selfPid (the_drv st) \<noteq> None" using d by (simp add: drv_inv_def)
  show ?thesis
    using step
  proof cases
    case message
    then show ?thesis using d sess lost closes regs drv_handle_keeps [OF message(5) d] by (auto intro: proceed_inv)
  next
    case routed
    then show ?thesis using d sess lost closes regs drv_handle_keeps [OF routed(5) d started] by (auto intro: proceed_inv)
  next
    case call
    then show ?thesis using sess lost closes regs drv_perform_keeps [OF call(3) d] by (auto intro: proceed_inv)
  next
    case (deliver as c bs first final d' cbs)
    then show ?thesis using trySend_inv [OF deliver(4) d] sess lost regs by (auto simp: drv_sys_inv_def closes_queue_def registers_as_def)
  next
    case authenticate
    then show ?thesis using sess lost closes regs tryAuthentication_keeps [OF authenticate(4) d] by (auto intro!: proceed_inv)
  next
    case result
    then show ?thesis using sess lost closes regs handleAuthenticationResult_keeps [OF _ d] by (auto intro!: proceed_inv)
  next
    case register
    then show ?thesis using sess lost closes regs registration_round_keeps [OF register(4) d] by (auto intro!: proceed_inv)
  next
    case stops
    then show ?thesis using sess lost closes regs drv_perform_keeps [OF stops(4) d] by (auto intro!: proceed_inv)
  next
    case lost
    then show ?thesis using sess closes regs pushLostTask_keeps [OF lost(4) d] \<open>lostQ st \<noteq> [] \<longrightarrow> _\<close> by (auto intro!: proceed_inv)
  next
    case reports
    then show ?thesis using sess lost closes regs report_stop_keeps [OF reports(4) d]
      by (auto intro!: proceed_inv simp: closes_queue_def report_stop_def call_back_def withScheduler_def split: if_splits)
  qed (use d sess lost closes regs in \<open>auto simp: drv_sys_inv_def drv_inv_def drv_session_def\<close>)
qed

end
