(* ===== verification/Driver_Safety.thy ===== *)
theory Driver_Safety
  imports Driver_System
begin

text \<open>
  What holds of every run of the scheduler driver: the session contract of the callbacks, the only
  causes of a crash, that a stopped driver lets \<open>Join\<close> return, and the bounds of the registration loop.
\<close>

lemma drv_start_inv:
  assumes "NewMesosSchedulerDriver user hostName None None config = Inr d"
  shows "drv_sys_inv (register_message d) (drv_start d w)"
  using assms
  by (clarsimp simp: NewMesosSchedulerDriver_def Let_def drv_start_def split: if_splits)
     (simp_all add: drv_sys_inv_def drv_inv_def drv_session_def closes_queue_def registers_as_def)

lemma drv_inv_reachable:
  assumes "drv_reachable net config st"
  shows "\<exists>user hostName d. NewMesosSchedulerDriver user hostName None None config = Inr d \<and> drv_sys_inv (register_message d) st"
  using assms unfolding drv_reachable_reach
proof (induction rule: drv_ts.reach_induct)
  case (init st)
  then obtain user hostName d w where d: "NewMesosSchedulerDriver user hostName None None config = Inr d" "st = drv_start d w"
    by (auto simp: drv_init_def)
  from d(1) drv_start_inv [OF d(1), of w] show ?case unfolding d(2) by blast
next
  case (step st st')
  then obtain user hostName d where d: "NewMesosSchedulerDriver user hostName None None config = Inr d"
      "drv_sys_inv (register_message d) st" by blast
  from d(1) drv_step_inv [OF step(2) d(2)] show ?case by blast
qed

lemma drv_reachable_inv:
  assumes "drv_reachable net config st"
  obtains m where "drv_sys_inv m st"
  using drv_inv_reachable [OF assms] by blast

section \<open>Panics\<close>

lemma drv_Stop_returns: "drv_inv d \<Longrightarrow> fst (drv_Stop net cause f d w) \<noteq> Panics"
  by (auto simp: drv_Stop_def drv_send_def drv_refused_def stop_messenger_def drv_inv_def Let_def
      split: prod.splits option.splits outcome.splits)

lemma call_master_returns: "drv_inv d \<Longrightarrow> fst (call_master net m msg d w) \<noteq> Panics"
  by (auto simp: call_master_def drv_send_def drv_refused_def drv_inv_def split: prod.splits option.splits)

lemma drv_Abort_returns: "drv_inv d \<Longrightarrow> fst (drv_Abort net cause d w) \<noteq> Panics"
  using drv_Stop_returns [of d net cause True w]
  by (auto simp: drv_Abort_def stop_messenger_def Let_def split: prod.splits outcome.splits)

lemma msd_LaunchTasks_returns: "drv_inv d \<Longrightarrow> fst (msd_LaunchTasks net ids ts f d w) \<noteq> Panics"
  by (auto simp: msd_LaunchTasks_def drv_send_def drv_refused_def drv_inv_def Let_def split: prod.splits option.splits)

lemma AcceptOffers_returns:
  assumes "drv_inv d"
  shows "fst (AcceptOffers net ids ops f d w) \<noteq> Panics"
  using assms same_but_cache_fields(1) [OF accept_offers_cache [of "([], d)" ops ids]]
  by (auto simp: AcceptOffers_def drv_send_def drv_refused_def drv_inv_def Let_def split: prod.splits option.splits)

lemma drv_perform_returns:
  assumes "drv_inv d"
  shows "fst (drv_perform net req d w) \<noteq> Panics"
proof (cases req)
  case (RSendFrameworkMessage e slave data)
  with assms show ?thesis
    by (auto simp: drv_SendFrameworkMessage_def drv_send_def drv_refused_def Let_def drv_inv_def containsSlavePid_def
        getSlavePid_def gm_has_def split: prod.splits option.splits)
next
  case RStart
  then show ?thesis by (auto simp: drv_Start_def drv_refused_def split: prod.splits sum.splits)
qed (use assms in \<open>auto simp: drv_KillTask_def drv_RequestResources_def drv_ReviveOffers_def msd_ReconcileTasks_def
      msd_DeclineOffer_def call_master_returns drv_Stop_returns drv_Abort_returns msd_LaunchTasks_returns AcceptOffers_returns\<close>)

lemma registration_round_returns: "fst (registration_round net b d w) \<noteq> Panics"
  by (auto simp: registration_round_def registerOnce_def drv_send_def Let_def split: prod.splits option.splits outcome.splits)

lemma statusUpdated_returns: "drv_inv d \<Longrightarrow> from \<noteq> None \<Longrightarrow> fst (statusUpdated net from u pid d w) \<noteq> Panics"
  by (auto simp: statusUpdated_def drv_send_def drv_ignored_def call_back_def drv_inv_def Let_def upid_Equal_Some
      split: prod.splits option.splits outcome.splits)

lemma pushLostTask_returns: "drv_inv d \<Longrightarrow> selfPid d \<noteq> None \<Longrightarrow> fst (pushLostTask net t d w) \<noteq> Panics"
  by (auto simp: pushLostTask_def statusUpdated_returns split: option.splits)

lemma tryAuthentication_panics: "tryAuthentication d = Panics \<longleftrightarrow> authenticated d"
  by (auto simp: tryAuthentication_def split: option.splits)

lemma drv_handle_panics:
  assumes "drv_handle net from msg d w = (Panics, w')" "drv_inv d" "from \<noteq> None"
  shows "authenticated d \<or> (\<exists>addr. msg = MMasterChanged (Some addr) \<and> upid_Parse (resolves net) addr = None)"
proof (cases msg)
  case (MStatusUpdate u pid)
  with assms statusUpdated_returns [of d "from" net u pid w] show ?thesis by simp
next
  case (MMasterChanged m)
  with assms show ?thesis
    by (auto simp: handleMasterChanged_def drv_ignored_def call_back_def Let_def tryAuthentication_panics
        split: option.splits if_splits)
next
  case (MAuthenticationResult c s pid)
  with assms show ?thesis
    by (auto simp: handleAuthenticationResult_def tryAuthentication_panics split: option.splits if_splits)
next
  case (MFrameworkError e)
  with assms drv_Abort_returns [of d net "Some (aborted_text e)" w] show ?thesis
    by (auto simp: frameworkErrorRcvd_def drv_fatal_def drv_ignored_def split: prod.splits outcome.splits if_splits)
next
  case (MNetworkError pid session)
  with assms show ?thesis
    by (auto simp: handleNetworkError_def drv_ignored_def call_back_def drv_inv_def split: option.splits if_splits)
qed (use assms in \<open>auto simp: frameworkRegistered_def frameworkReregistered_def resourcesOffered_def resourceOfferRescinded_def
      slaveLost_def exitedExecutor_def frameworkMessageRcvd_def drv_ignored_def call_back_def split: prod.splits if_splits\<close>)

lemma drv_step_crash:
  assumes step: "drv_step net st st'" and inv: "drv_sys_inv m st" and "\<not> crashed st" "crashed st'"
  shows "authenticated (the_drv st) \<or>
    (\<exists>from addr w1. upid_Parse (resolves net) addr = None \<and>
      drv_handle net from (MMasterChanged (Some addr)) (the_drv st) (dworld st) = (Panics, w1))"
proof -
  have d: "drv_inv (the_drv st)" using inv by (simp add: drv_sys_inv_def)
  have started: "drv_started (the_drv st) \<Longrightarrow> selfPid (the_drv st) \<noteq> None" using d by (simp add: drv_inv_def)
  show ?thesis
    using step
  proof cases
    case message_panics
    with drv_handle_panics [OF message_panics(5) d] show ?thesis by blast
  next
    case routed_panics
    with drv_handle_panics [OF routed_panics(5) d] started show ?thesis by blast
  next
    case (call_panics req w1)
    with drv_perform_returns [OF d, of net req "dworld st"] show ?thesis by simp
  next
    case authenticate_panics
    then show ?thesis by (simp add: tryAuthentication_panics)
  next
    case result_panics
    then show ?thesis by (auto simp: handleAuthenticationResult_def tryAuthentication_panics split: option.splits if_splits)
  next
    case (register_panics as b bs w1)
    with registration_round_returns [of net b "the_drv st" "dworld st"] show ?thesis by simp
  next
    case (stops_panics as f bs w1)
    with drv_Stop_returns [OF d, of net None f "dworld st"] show ?thesis by simp
  next
    case (lost_panics as t bs w1)
    then have "selfPid (the_drv st) \<noteq> None" using inv by (simp add: drv_sys_inv_def)
    with lost_panics pushLostTask_returns [OF d, of net t "dworld st"] show ?thesis by simp
  qed (use assms in auto)
qed

section \<open>A race between two changes of the master\<close>

text \<open>
  While the callback of the first change waits, the second one authenticates; then the deferred call
  of the first one finds an authenticated driver.
\<close>

lemma drv_race:
  assumes "\<not> crashed st" "drv_started (the_drv st)" "drv_status (the_drv st) \<noteq> DRIVER_ABORTED" "connected (the_drv st)"
    "\<not> has_credential (the_drv st)" "\<not> inProgress (the_drv st)" "\<not> stopClosed (the_drv st)" "\<not> queueClosed (the_drv st)"
    and a: "upid_Parse (resolves net) a = Some p" and b: "upid_Parse (resolves net) b = Some q"
  shows "\<exists>st'. (drv_step net)\<^sup>*\<^sup>* st st' \<and> crashed st'"
proof -
  let ?d = "the_drv st"
  let ?d1 = "?d\<lparr>connected := False, authenticated := False, masterPid := Some p\<rparr>"
  let ?d2 = "?d1\<lparr>masterPid := Some q, authenticated := True\<rparr>"
  let ?c = "\<lparr>wc_callback = CbDisconnected, in_loop = False, then_auth = True\<rparr>"
  let ?s1 = "proceed False ?d1 [DCallbackAuth CbDisconnected] (dworld st) st"
  let ?s2 = "proceed False ?d2 [DRegister] (dworld st) ?s1"
  let ?s3 = "?s2\<lparr>the_drv := ?d2, waiting := waiting st @ [], delivered := delivered ?s2 @ [CbDisconnected],
     authQ := authQ ?s2 + (if then_auth ?c then 1 else 0)\<rparr>"
  have h1: "drv_handle net (selfPid ?d) (MMasterChanged (Some a)) ?d (dworld st) = (Returns (?d1, [DCallbackAuth CbDisconnected]), dworld st)"
    using assms by (simp add: handleMasterChanged_def upid_Equal_def Let_def split: option.splits)
  have s1: "drv_step net st ?s1"
    using assms(1,2) h1 by (intro drv_step.routed [where msg = "MMasterChanged (Some a)"]) (simp_all add: routed_message_def)
  have "drv_handle net (selfPid ?d1) (MMasterChanged (Some b)) ?d1 (dworld st) = (Returns (?d2, [DRegister]), dworld st)"
    using assms by (simp add: handleMasterChanged_def upid_Equal_def Let_def tryAuthentication_def inProgress_def split: option.splits)
  then have s2: "drv_step net ?s1 ?s2"
    using assms(1,2) by (intro drv_step.routed [where msg = "MMasterChanged (Some b)"]) (simp_all add: routed_message_def)
  have "waiting ?s2 = waiting st @ ?c # []" by (simp add: proceed_def)
  then have s3: "drv_step net ?s2 ?s3"
    using assms by (intro drv_step.deliver [where first = True and final = True]) (simp_all add: trySend_def)
  have "drv_step net ?s3 (?s3\<lparr>crashed := True\<rparr>)"
    using assms(1) by (intro drv_step.authenticate_panics [where n = "authQ st"]) (simp_all add: tryAuthentication_def)
  with s1 s2 s3 have "(drv_step net)\<^sup>*\<^sup>* st (?s3\<lparr>crashed := True\<rparr>)"
    by (meson converse_rtranclp_into_rtranclp rtranclp.rtrancl_refl)
  then show ?thesis by (intro exI [where x = "?s3\<lparr>crashed := True\<rparr>"]) simp
qed

section \<open>Stopping\<close>

lemma deliver_closes:
  assumes "\<not> crashed st" "stopClosed (the_drv st)" "waiting st = c # cs"
  shows "\<exists>st'. drv_step net st st' \<and> queueClosed (the_drv st')"
proof -
  obtain d cbs where s: "trySend True True (wc_callback c) (the_drv st) = (True, d, cbs)" "queueClosed d"
    using assms(2) by (cases "queueClosed (the_drv st)") (auto simp: trySend_def)
  show ?thesis
    using drv_step.deliver [of st "[]" c cs True True d cbs net] assms s
    by (intro exI [where x = "st\<lparr>the_drv := d, waiting := [] @ cs, delivered := delivered st @ cbs,
      authQ := authQ st + (if then_auth c then 1 else 0)\<rparr>"]) simp
qed

lemma stop_closes:
  assumes "\<not> crashed st" "stopClosed (the_drv st)" "closes_queue st"
  shows "\<exists>st'. (drv_step net)\<^sup>*\<^sup>* st st' \<and> queueClosed (the_drv st')"
proof (cases "queueClosed (the_drv st)")
  case True
  then show ?thesis by blast
next
  case open_queue: False
  show ?thesis
  proof (cases "waiting st")
    case (Cons c cs)
    with deliver_closes [OF assms(1,2), of c cs net] show ?thesis by (auto intro: r_into_rtranclp)
  next
    case Nil
    with assms open_queue obtain cause cs where q: "stopQ st = cause # cs" by (auto simp: closes_queue_def neq_Nil_conv)
    let ?cb = "case cause of Some e \<Rightarrow> CbError e | None \<Rightarrow> CbNoop"
    let ?s = "proceed False (the_drv st) [DCallback ?cb] (dworld st) (st\<lparr>stopQ := [] @ cs\<rparr>)"
    have "drv_step net st ?s"
      using assms(1) q open_queue by (intro drv_step.reports) (simp_all add: report_stop_def call_back_def withScheduler_def)
    moreover have "waiting ?s \<noteq> []" "stopClosed (the_drv ?s)" "\<not> crashed ?s" using assms by (simp_all add: proceed_def)
    then obtain st' where "drv_step net ?s st'" "queueClosed (the_drv st')"
      using deliver_closes [of ?s _ _ net] by (metis neq_Nil_conv)
    ultimately show ?thesis by (meson converse_rtranclp_into_rtranclp r_into_rtranclp)
  qed
qed

section \<open>The bounds of the registration loop\<close>

lemma bound_backoff_double:
  assumes "x \<ge> 0"
  shows "bound_backoff d (2 * bound_backoff d x) = bound_backoff d (2 * x)"
  using assms by (simp add: bound_backoff_def Let_def min_def field_simps)

lemma backoff_after_closed: "backoff_after d n = bound_backoff d (2 ^ n * registrationBackoffFactor)"
proof (induction n)
  case (Suc n)
  have "(0::real) \<le> 2 ^ n * registrationBackoffFactor" by (simp add: registrationBackoffFactor_def)
  with bound_backoff_double [OF this] Suc show ?case by (simp add: mult.assoc)
qed simp

section \<open>Accepting offers\<close>

lemma fold_keeps: "(\<And>x d. f (g x d) = f d) \<Longrightarrow> f (fold g xs d) = f d"
  by (induction xs arbitrary: d) simp_all

lemma accept_operations_known:
  assumes "containsOffer i d"
  shows "\<exists>d'. fold (accept_operation i) ops (acc, d) = (acc @ map ok_operation ops, d') \<and> savedOffers d' = savedOffers d"
  using assms
proof (induction ops arbitrary: acc d)
  case (Cons p ops)
  let ?d = "fold (note_slave i) (operation_tasks p) d"
  have saved: "savedOffers ?d = savedOffers d"
    by (rule fold_keeps) (simp add: note_slave_def putSlavePid_def split: option.splits)
  then have "containsOffer i ?d" using Cons.prems by (simp add: containsOffer_def)
  from Cons.IH [OF this, of "acc @ [ok_operation p]"] saved Cons.prems show ?case by (simp add: accept_operation_def)
qed simp

lemma accept_offers_known:
  assumes "distinct ids" "\<forall>i\<in>set ids. containsOffer i d"
  shows "fst (fold (accept_offer ops) ids (acc, d)) = acc @ concat (replicate (length ids) (map ok_operation ops))"
  using assms
proof (induction ids arbitrary: acc d)
  case (Cons i ids)
  obtain d' where d': "fold (accept_operation i) ops (acc, d) = (acc @ map ok_operation ops, d')" "savedOffers d' = savedOffers d"
    using accept_operations_known [of i d ops acc] Cons.prems by auto
  then have "\<forall>j\<in>set ids. containsOffer j (removeOffer i d')"
    using Cons.prems by (auto simp: containsOffer_def removeOffer_def go_map)
  with Cons.IH [of "removeOffer i d'"] Cons.prems d' show ?case by (simp add: accept_offer_def)
qed simp

section \<open>The first registration\<close>

lemma drv_reachable_step: "drv_reachable net config st \<Longrightarrow> drv_step net st st' \<Longrightarrow> drv_reachable net config st'"
  unfolding drv_reachable_def by (meson rtranclp.rtrancl_into_rtrancl)

text \<open>A driver without credentials that has just been made, then started, then told of a master.\<close>

lemma new_driver_fields:
  assumes "NewMesosSchedulerDriver user hostName None None config = Inr d"
  shows "drv_status d = DRIVER_NOT_STARTED" "\<not> drv_started d" "\<not> connected d" "\<not> authenticated d" "authenticating d = None"
    "\<not> stopClosed d" "\<not> queueClosed d" "has_credential d \<longleftrightarrow> dc_Credential config \<noteq> None"
  using assms by (auto simp: NewMesosSchedulerDriver_def Let_def split: if_splits)

lemma first_registration:
  fixes net :: "'w Net"
  assumes d: "NewMesosSchedulerDriver user hostName None None config = Inr d" and cred: "dc_Credential config = None"
    and start: "net_start net w = (Inr me, w1)" and addr: "upid_Parse (resolves net) addr = Some pid"
    and send: "net_send net pid (register_message d) w1 = (None, w2)"
  shows "\<exists>st. drv_reachable net config st \<and> drv_out st = [DDetect, DRegister, DSend pid (register_message d)]"
proof -
  note f = new_driver_fields [OF d]
  let ?d1 = "d\<lparr>selfPid := Some me, drv_status := DRIVER_RUNNING, drv_started := True\<rparr>"
  let ?d2 = "?d1\<lparr>connected := False, authenticated := True, masterPid := Some pid\<rparr>"
  let ?s1 = "proceed False ?d1 [DDetect] w1 (drv_start d w)"
  let ?s2 = "proceed False ?d2 [DRegister] w1 ?s1"
  let ?s3 = "proceed False (the_drv ?s2) [DSend pid (register_message d)] w2 (?s2\<lparr>registering := [] @ (case Some (2 * bound_backoff ?d2 registrationBackoffFactor)
      of None \<Rightarrow> [] | Some b1 \<Rightarrow> [b1]) @ []\<rparr>)"
  have "drv_reachable net config (drv_start d w)" using d unfolding drv_reachable_def drv_init_def by blast
  moreover have "drv_step net (drv_start d w) ?s1"
    using f start by (intro drv_step.call [where req = RStart and r = "(DRIVER_RUNNING, None)"]) (simp_all add: drv_start_def drv_Start_def)
  moreover have "drv_step net ?s1 ?s2"
    using f addr cred
    by (intro drv_step.routed [where msg = "MMasterChanged (Some addr)"])
       (simp_all add: drv_start_def routed_message_def handleMasterChanged_def Let_def upid_Equal_def tryAuthentication_def inProgress_def)
  moreover have "register_message ?d2 = register_message d" by (simp add: register_message_def Let_def)
  then have "drv_step net ?s2 ?s3"
    using f cred send
    by (intro drv_step.register [where b = registrationBackoffFactor])
       (simp_all add: drv_start_def proceed_def registration_round_def registerOnce_def drv_stopped_def drv_send_def)
  ultimately have "drv_reachable net config ?s3" by (meson drv_reachable_step)
  then show ?thesis by (intro exI [where x = ?s3]) (simp add: drv_start_def)
qed

section \<open>A concrete driver\<close>

definition demo_net :: "unit Net" where
  "demo_net = \<lparr>net_send = (\<lambda>p msg w. (None, w)), net_start = (\<lambda>w. (Inr \<lparr>upid_ID = ''s'', upid_Host = ''h'', upid_Port = ''1''\<rparr>, w)),
     net_stop = (\<lambda>w. (None, w)), new_uuid = (\<lambda>w. (''c'', w)), resolves = (\<lambda>a. True)\<rparr>"

definition demo_config :: DriverConfig where
  "demo_config = \<lparr>dc_Framework = \<lparr>fi_User = ''root'', fi_Name = ''etcd'', fi_Id = None, fi_FailoverTimeout = Some 60,
       fi_Checkpoint = True, fi_Hostname = ''h'', fi_WebuiUrl = [], fi_Principal = None\<rparr>,
     dc_Master = ''m'', dc_Credential = None, dc_BindingAddress = [], dc_BindingPort = 0, dc_PublishedAddress = None\<rparr>"

definition demo_master :: UPID where
  "demo_master = \<lparr>upid_ID = ''master'', upid_Host = ''h'', upid_Port = ''5''\<rparr>"

definition demo_driver :: MesosSchedulerDriver where
  "demo_driver =
     \<lparr>masterPid = None, frameworkInfo = dc_Framework demo_config, selfPid = None, stopClosed = False,
      drv_status = DRIVER_NOT_STARTED, connected = False, drv_connection = [], failoverTimeout = 60000000000, failover = False,
      savedOffers = [], savedSlavePids = [], has_credential = False, authenticated = False, authenticating = None,
      attemptsDone = [], nextAttempt = 0, reauthenticate = False, drv_started = False, queueClosed = False\<rparr>"

definition demo_running :: MesosSchedulerDriver where
  "demo_running = demo_driver\<lparr>selfPid := Some \<lparr>upid_ID = ''s'', upid_Host = ''h'', upid_Port = ''1''\<rparr>,
     drv_status := DRIVER_RUNNING, drv_started := True\<rparr>"

definition demo_detected :: MesosSchedulerDriver where
  "demo_detected = demo_running\<lparr>masterPid := Some demo_master, authenticated := True\<rparr>"

definition demo_registered :: MesosSchedulerDriver where
  "demo_registered = demo_detected\<lparr>frameworkInfo := (dc_Framework demo_config)\<lparr>fi_Id := Some ''f''\<rparr>,
     connected := True, failover := False, drv_connection := ''c''\<rparr>"

definition demo_info :: MasterInfo where
  "demo_info = \<lparr>mi_Ip = None, mi_Port = None, mi_Hostname = None, mi_Address = None\<rparr>"

lemmas demo_defs = demo_net_def demo_config_def demo_driver_def demo_running_def demo_detected_def demo_registered_def demo_master_def

definition demo_s1 :: "unit drv_sys" where
  "demo_s1 = proceed False demo_running [DDetect] () (drv_start demo_driver ())"

definition demo_s2 :: "unit drv_sys" where
  "demo_s2 = proceed False demo_detected [DRegister] () demo_s1"

definition demo_s3 :: "unit drv_sys" where
  "demo_s3 = proceed True demo_registered [DCallback (CbRegistered ''f'' demo_info)] () demo_s2"

lemma demo_s1_reachable: "drv_reachable demo_net demo_config demo_s1"
proof (rule drv_reachable_step)
  have "NewMesosSchedulerDriver (Some ''root'') ''h'' None None demo_config = Inr demo_driver"
    by (simp add: NewMesosSchedulerDriver_def demo_driver_def demo_config_def)
  then show "drv_reachable demo_net demo_config (drv_start demo_driver ())"
    unfolding drv_reachable_def drv_init_def by blast
  show "drv_step demo_net (drv_start demo_driver ()) demo_s1"
    unfolding demo_s1_def
    by (rule drv_step.call [where req = RStart and r = "(DRIVER_RUNNING, None)"])
       (simp_all add: drv_start_def drv_Start_def demo_running_def demo_driver_def demo_net_def)
qed

lemma demo_parse: "upid_Parse (\<lambda>a. True) ''master@h:5'' = Some demo_master"
  by code_simp

lemma demo_s2_reachable: "drv_reachable demo_net demo_config demo_s2"
proof (rule drv_reachable_step [OF demo_s1_reachable])
  have "upid_Parse (resolves demo_net) ''master@h:5'' = Some demo_master" by (simp add: demo_net_def demo_parse)
  then show "drv_step demo_net demo_s1 demo_s2"
    unfolding demo_s2_def
    by (intro drv_step.routed [where msg = "MMasterChanged (Some ''master@h:5'')"])
       (simp_all add: demo_s1_def drv_start_def routed_message_def handleMasterChanged_def Let_def upid_Equal_def tryAuthentication_def
         inProgress_def demo_detected_def demo_running_def demo_driver_def)
qed

lemma demo_s3_reachable: "drv_reachable demo_net demo_config demo_s3"
proof (rule drv_reachable_step [OF demo_s2_reachable])
  show "drv_step demo_net demo_s2 demo_s3"
    unfolding demo_s3_def
    by (intro drv_step.message [of demo_s2 demo_net demo_master "MFrameworkRegistered ''f'' demo_info"])
       (simp_all add: demo_s2_def demo_s1_def drv_start_def proceed_def frameworkRegistered_def drv_stopped_def Let_def upid_Equal_def
         call_back_def withScheduler_def demo_defs)
qed

section \<open>Properties\<close>







text \<open>
  C15 (liveness): a driver that was stopped or aborted lets \<open>Join\<close> return: from every reachable state
  after the stop there are steps that close the queue of callbacks.
\<close>

theorem stopped_driver_joins:
  assumes "drv_reachable net config st" "\<not> crashed st" "stopClosed (the_drv st)"
  shows "\<exists>st'. (drv_step net)\<^sup>*\<^sup>* st st' \<and> queueClosed (the_drv st')"
  using assms(1) by (rule drv_reachable_inv) (simp add: stop_closes [OF assms(2,3)] drv_sys_inv_def)

definition demo_s4 :: "unit drv_sys" where
  "demo_s4 = proceed False (demo_registered\<lparr>drv_status := DRIVER_STOPPED, connected := False, drv_connection := [], stopClosed := True\<rparr>)
     [DSend demo_master (UnregisterFramework (Some ''f'')), DStopped None] () demo_s3"

theorem stopped_driver_joins_witness: "\<exists>st'. (drv_step demo_net)\<^sup>*\<^sup>* demo_s4 st' \<and> queueClosed (the_drv st')"
proof (rule stopped_driver_joins [OF drv_reachable_step [OF demo_s3_reachable]])
  show "drv_step demo_net demo_s3 demo_s4"
    unfolding demo_s4_def
    by (rule drv_step.call [where req = "RStop False" and r = "(DRIVER_STOPPED, None)"])
       (simp_all add: demo_s3_def demo_s2_def demo_s1_def drv_start_def drv_Stop_def drv_send_def stop_messenger_def Let_def demo_defs)
qed (simp_all add: demo_s4_def demo_s3_def demo_s2_def demo_s1_def drv_start_def)

text \<open>
  The pause before the next attempt to register doubles from two seconds, is never more
  than a minute nor, if the framework has a failover timeout, more than a tenth of it.
\<close>

lemma registration_backoff:
  "backoff_after d n =
     (if failoverTimeout d > 0 then min (min (2 ^ n * 2000000000) 60000000000) (failoverTimeout d / 10)
      else min (2 ^ n * 2000000000) 60000000000)"
  by (simp add: backoff_after_closed bound_backoff_def registrationBackoffFactor_def)

text \<open>
  \<open>AcceptOffers\<close> on several known offers sends every operation once for each offer, so a
  task of a launch on two offers is launched twice.
\<close>

lemma AcceptOffers_repeats:
  assumes "drv_status d = DRIVER_RUNNING" "connected d" "masterPid d = Some m" "distinct offerIds"
    "\<forall>i\<in>set offerIds. containsOffer i d" "net_send net m (AcceptMessage (fi_Id (frameworkInfo d)) offerIds ops' filters) w = (None, w1)"
    "ops' = concat (replicate (length offerIds) (map ok_operation ops))"
  shows "\<exists>d1. AcceptOffers net offerIds ops filters d w =
    (Returns ((DRIVER_RUNNING, None), d1, [DSend m (AcceptMessage (fi_Id (frameworkInfo d)) offerIds ops' filters)]), w1)"
proof -
  obtain d1 where d1: "fold (accept_offer ops) offerIds ([], d) = (ops', d1)" "same_but_cache d d1"
    using accept_offers_known [OF assms(4,5), of ops "[]"] accept_offers_cache [of "([], d)" ops offerIds] assms(7)
    by (cases "fold (accept_offer ops) offerIds ([], d)") auto
  show ?thesis
    using assms(1-3,6) d1(1) same_but_cache_fields [OF d1(2)] by (auto simp: AcceptOffers_def drv_send_def)
qed

definition demo_offering :: MesosSchedulerDriver where
  "demo_offering =
     (let offer = (\<lambda>i. \<lparr>co_offer = \<lparr>offer_id = i, slave_id = ''s'', hostname = ''h'', resources = []\<rparr>, co_slavePid = demo_master\<rparr>) in
      demo_registered\<lparr>savedOffers := [(''o1'', offer ''o1''), (''o2'', offer ''o2'')]\<rparr>)"

end
