(* ===== verification/Mesos_Messenger.thy ===== *)
theory Mesos_Messenger
  imports Go_World Upid Transition
begin

text \<open>
  The messenger of mesos-go (\<open>messenger/messenger.go\<close> of the vendored package), through which both
  drivers send and receive: its operations, then the process as a step relation with the goroutines
  \<open>sendLoop\<close> and \<open>decodeLoop\<close> and the goroutine that watches the transport.  The transport, the
  encoding of messages and their names are a record of operations over a state of the outside; the
  theory \<open>Http_Transporter\<close> provides the transport.  The contexts of the drivers are never done; of a
  context only its session identifier is kept.
\<close>

section \<open>State\<close>

definition defaultQueueSize :: nat where
  "defaultQueueSize = 1024"

record 'm Message =
  msg_UPID :: UPID
  msg_Name :: string
  ProtoMessage :: 'm
  msg_Bytes :: string
  msg_session :: string

text \<open>
  The two maps of installed messages and handlers have the same keys.  \<open>mm_stop\<close> is \<open>None\<close> while the
  channel is nil, else it says whether it is closed.
\<close>

record 'm MesosMessenger =
  mm_upid :: UPID
  sendingQueue :: "'m Message list"
  installedMessages :: "string list"
  mm_stop :: "bool option"
  stopOnce :: bool

datatype tr_error =
    networkErr string
  | mesosErr nat
  | errNotStarted
  | errTerminal
  | errAlreadyRunning
  | discardOnStopError
  | otherErr string

text \<open>
  The interface of a transport; \<open>tr_New\<close> says that it was not started.  A receive fails at once (\<open>tr_Enter\<close>), or waits until there is a message
  (\<open>tr_Next\<close>) or the transport shuts down (\<open>tr_Quits\<close>).  \<open>tr_Own\<close> is what the transport does by itself:
  messages arrive, and its server may fail.
\<close>

record ('m, 'w) Transporter =
  tr_New :: "'w \<Rightarrow> bool"
  tr_Start :: "'w \<Rightarrow> (tr_error + UPID) \<times> 'w"
  tr_Send :: "'m Message \<Rightarrow> 'w \<Rightarrow> tr_error option \<times> 'w"
  tr_Enter :: "'w \<Rightarrow> tr_error option"
  tr_Next :: "'w \<Rightarrow> ((UPID \<times> string \<times> string) \<times> 'w) option"
  tr_Quits :: "'w \<Rightarrow> bool"
  tr_Stop :: "'w \<Rightarrow> tr_error option \<times> 'w"
  tr_Own :: "'w \<Rightarrow> 'w \<Rightarrow> bool"
  pb_Marshal :: "'m \<Rightarrow> string + string"
  pb_Unmarshal :: "string \<Rightarrow> string \<Rightarrow> 'm option"
  getMessageName :: "'m \<Rightarrow> string"

definition mm_New :: "'m MesosMessenger" where
  "mm_New =
     \<lparr>mm_upid = \<lparr>upid_ID = [], upid_Host = [], upid_Port = []\<rparr>, sendingQueue = [], installedMessages = [],
      mm_stop = None, stopOnce = False\<rparr>"

section \<open>Operations\<close>

definition mm_Install :: "string \<Rightarrow> 'm MesosMessenger \<Rightarrow> string option \<times> 'm MesosMessenger" where
  "mm_Install name m =
     (if name \<in> set (installedMessages m) then (Some (''Message '' @ name @ '' is already installed''), m)
      else (None, m\<lparr>installedMessages := name # installedMessages m\<rparr>))"

text \<open>A send on a full queue waits until the loop takes a message.\<close>

datatype 'm sent = SendPanics | SendError string | SendWaits | SendQueued "'m MesosMessenger" | Delivered UPID 'm

definition mm_Send :: "('m, 'w) Transporter \<Rightarrow> string \<Rightarrow> UPID option \<Rightarrow> 'm \<Rightarrow> 'm MesosMessenger \<Rightarrow> 'm sent" where
  "mm_Send tr session to msg m =
     (case to of
        None \<Rightarrow> SendPanics
      | Some pid \<Rightarrow>
          (if pid = mm_upid m then SendError ''Send the message to self''
           else
             case pb_Marshal tr msg of
               Inl e \<Rightarrow> SendError e
             | Inr b \<Rightarrow>
                 (if length (sendingQueue m) < defaultQueueSize then
                    SendQueued (m\<lparr>sendingQueue := sendingQueue m @
                      [\<lparr>msg_UPID = pid, msg_Name = getMessageName tr msg, ProtoMessage = msg, msg_Bytes = b, msg_session = session\<rparr>]\<rparr>)
                  else SendWaits)))"

definition mm_Route :: "('m, 'w) Transporter \<Rightarrow> string \<Rightarrow> UPID option \<Rightarrow> 'm \<Rightarrow> 'm MesosMessenger \<Rightarrow> 'm sent" where
  "mm_Route tr session to msg m =
     (case to of
        None \<Rightarrow> SendPanics
      | Some pid \<Rightarrow>
          (if pid \<noteq> mm_upid m then mm_Send tr session to msg m
           else if getMessageName tr msg \<notin> set (installedMessages m) then
             SendError (''failed to route message, no message binding for '' @ getMessageName tr msg)
           else Delivered pid msg))"

text \<open>The error of the transport is returned with the prefix \<open>failed to start messenger\<close>, which is left out.\<close>

definition mm_Start :: "('m, 'w) Transporter \<Rightarrow> 'm MesosMessenger \<Rightarrow> 'w \<Rightarrow> (tr_error option \<times> 'm MesosMessenger) \<times> 'w" where
  "mm_Start tr m w =
     (let m1 = m\<lparr>mm_stop := Some False\<rparr> in
      case tr_Start tr w of
        (Inl e, w1) \<Rightarrow> ((Some e, m1), w1)
      | (Inr pid, w1) \<Rightarrow> ((None, m1\<lparr>mm_upid := pid\<rparr>), w1))"

text \<open>Only the first call does something; mm_closing a nil channel panics, after the transport was stopped.\<close>

definition mm_Stop :: "('m, 'w) Transporter \<Rightarrow> 'm MesosMessenger \<Rightarrow> 'w \<Rightarrow> (tr_error option \<times> 'm MesosMessenger) outcome \<times> 'w" where
  "mm_Stop tr m w =
     (if stopOnce m then (Returns (None, m), w)
      else
        let (err, w1) = tr_Stop tr w in
        case mm_stop m of
          None \<Rightarrow> (Panics, w1)
        | Some _ \<Rightarrow> (Returns (if err = Some errTerminal then None else err, m\<lparr>mm_stop := Some True, stopOnce := True\<rparr>), w1))"

section \<open>The loops\<close>

text \<open>What a handler is called with: a message, or a network error with the address and the session.\<close>

datatype 'm handled_message = HMessage UPID 'm | HNetworkError string string

text \<open>
  A turn of \<open>sendLoop\<close>: a network error is routed to the own handler, where one is installed; every
  other error is logged, and the message is dropped.
\<close>

definition neterr_name :: string where
  "neterr_name = ''mesos.internal.InternalNetworkError''"

definition mm_dispatch ::
    "('m, 'w) Transporter \<Rightarrow> 'm Message \<Rightarrow> 'm MesosMessenger \<Rightarrow> 'w \<Rightarrow> 'm handled_message list \<times> 'w" where
  "mm_dispatch tr msg m w =
     (let (err, w1) = tr_Send tr msg w in
      case err of
        Some (networkErr e) \<Rightarrow>
          (if neterr_name \<in> set (installedMessages m) then [HNetworkError (upid_String (msg_UPID msg)) (msg_session msg)] else [], w1)
      | _ \<Rightarrow> ([], w1))"

text \<open>
  A turn of \<open>decodeLoop\<close>: at its head it looks at the stop channel and enters the receive, which may
  fail at once; a message received is dropped if no handler is installed or it does not decode.
\<close>

datatype decode_pc = AtHead | Receiving | Ended

datatype entered = EnterEnds | EnterPanics | EnterWaits

definition mm_enter :: "('m, 'w) Transporter \<Rightarrow> 'w \<Rightarrow> entered" where
  "mm_enter tr w =
     (case tr_Enter tr w of
        None \<Rightarrow> EnterWaits
      | Some e \<Rightarrow> (if e = discardOnStopError then EnterEnds else EnterPanics))"

definition mm_decode :: "('m, 'w) Transporter \<Rightarrow> UPID \<Rightarrow> string \<Rightarrow> string \<Rightarrow> 'm MesosMessenger \<Rightarrow> 'm handled_message list" where
  "mm_decode tr sender name bytes m =
     (if name \<notin> set (installedMessages m) then []
      else
        case pb_Unmarshal tr name bytes of
          None \<Rightarrow> []
        | Some msg \<Rightarrow> [HMessage sender msg])"

text \<open>
  The process: the messenger, where the loops are, whether the goroutine that watches the transport
  still runs, whether a \<open>Stop\<close> has stopped the transport and not yet closed the channel, the messages
  queued so far, those given to the transport, and those given to handlers.
\<close>

record ('m, 'w) mm_sys =
  mm :: "'m MesosMessenger"
  sending :: bool
  decoding :: decode_pc
  watching :: bool
  mm_closing :: bool
  accepted :: "'m Message list"
  transmitted :: "'m Message list"
  handled_messages :: "'m handled_message list"
  mm_dead :: bool
  mm_world :: 'w

definition mm_stopping :: "('m, 'w) Transporter \<Rightarrow> ('m, 'w) mm_sys \<Rightarrow> ('m, 'w) mm_sys" where
  "mm_stopping tr st =
     (if stopOnce (mm st) then st
      else st\<lparr>mm := (mm st)\<lparr>stopOnce := True\<rparr>, mm_closing := True, mm_world := snd (tr_Stop tr (mm_world st))\<rparr>)"

inductive mm_step :: "('m, 'w) Transporter \<Rightarrow> ('m, 'w) mm_sys \<Rightarrow> ('m, 'w) mm_sys \<Rightarrow> bool" for tr where
  send: "\<not> mm_dead st \<Longrightarrow> mm_Send tr session to msg (mm st) = SendQueued m \<Longrightarrow>
    mm_step tr st (st\<lparr>mm := m, accepted := accepted st @ [last (sendingQueue m)]\<rparr>)"
| send_panics: "\<not> mm_dead st \<Longrightarrow> mm_Send tr session to msg (mm st) = SendPanics \<Longrightarrow> mm_step tr st (st\<lparr>mm_dead := True\<rparr>)"
| route: "\<not> mm_dead st \<Longrightarrow> mm_Route tr session to msg (mm st) = Delivered pid body \<Longrightarrow>
    mm_step tr st (st\<lparr>handled_messages := handled_messages st @ [HMessage pid body]\<rparr>)"
| dispatch: "\<not> mm_dead st \<Longrightarrow> sending st \<Longrightarrow> sendingQueue (mm st) = msg # rest \<Longrightarrow> mm_dispatch tr msg (mm st) (mm_world st) = (hs, w1) \<Longrightarrow>
    mm_step tr st (st\<lparr>mm := (mm st)\<lparr>sendingQueue := rest\<rparr>, transmitted := transmitted st @ [msg],
      handled_messages := handled_messages st @ hs, mm_world := w1\<rparr>)"
| send_ends: "\<not> mm_dead st \<Longrightarrow> sending st \<Longrightarrow> mm_stop (mm st) = Some True \<Longrightarrow> mm_step tr st (st\<lparr>sending := False\<rparr>)"
| decode_ends: "\<not> mm_dead st \<Longrightarrow> decoding st = AtHead \<Longrightarrow> mm_stop (mm st) = Some True \<Longrightarrow> mm_step tr st (st\<lparr>decoding := Ended\<rparr>)"
| decode_enters: "\<not> mm_dead st \<Longrightarrow> decoding st = AtHead \<Longrightarrow> mm_stop (mm st) = Some False \<Longrightarrow> mm_enter tr (mm_world st) = EnterWaits \<Longrightarrow>
    mm_step tr st (st\<lparr>decoding := Receiving\<rparr>)"
| decode_discards: "\<not> mm_dead st \<Longrightarrow> decoding st = AtHead \<Longrightarrow> mm_stop (mm st) = Some False \<Longrightarrow> mm_enter tr (mm_world st) = EnterEnds \<Longrightarrow>
    mm_step tr st (st\<lparr>decoding := Ended\<rparr>)"
| decode_panics: "\<not> mm_dead st \<Longrightarrow> decoding st = AtHead \<Longrightarrow> mm_stop (mm st) = Some False \<Longrightarrow> mm_enter tr (mm_world st) = EnterPanics \<Longrightarrow>
    mm_step tr st (st\<lparr>mm_dead := True\<rparr>)"
| receive: "\<not> mm_dead st \<Longrightarrow> decoding st = Receiving \<Longrightarrow> tr_Next tr (mm_world st) = Some ((sender, name, bytes), w1) \<Longrightarrow>
    mm_step tr st (st\<lparr>decoding := AtHead, handled_messages := handled_messages st @ mm_decode tr sender name bytes (mm st), mm_world := w1\<rparr>)"
| receive_ends: "\<not> mm_dead st \<Longrightarrow> decoding st = Receiving \<Longrightarrow> tr_Quits tr (mm_world st) \<Longrightarrow> mm_step tr st (st\<lparr>decoding := Ended\<rparr>)"
| stop_begins: "\<not> mm_dead st \<Longrightarrow> mm_step tr st (mm_stopping tr st)"
| stop_closes: "\<not> mm_dead st \<Longrightarrow> mm_closing st \<Longrightarrow> mm_step tr st (st\<lparr>mm := (mm st)\<lparr>mm_stop := Some True\<rparr>, mm_closing := False\<rparr>)"
| transport_ends: "\<not> mm_dead st \<Longrightarrow> watching st \<Longrightarrow> mm_step tr st ((mm_stopping tr st)\<lparr>watching := False\<rparr>)"
| watch_ends: "\<not> mm_dead st \<Longrightarrow> watching st \<Longrightarrow> mm_stop (mm st) = Some True \<Longrightarrow> mm_step tr st (st\<lparr>watching := False\<rparr>)"
| transport: "\<not> mm_dead st \<Longrightarrow> tr_Own tr (mm_world st) w1 \<Longrightarrow> mm_step tr st (st\<lparr>mm_world := w1\<rparr>)"

definition mm_init :: "('m, 'w) Transporter \<Rightarrow> ('m, 'w) mm_sys \<Rightarrow> bool" where
  "mm_init tr st \<longleftrightarrow>
     (\<exists>names m w w1. tr_New tr w \<and> mm_Start tr (mm_New\<lparr>installedMessages := names\<rparr>) w = ((None, m), w1) \<and>
        st = \<lparr>mm = m, sending = True, decoding = AtHead, watching = True, mm_closing = False, accepted = [], transmitted = [],
              handled_messages = [], mm_dead = False, mm_world = w1\<rparr>)"

interpretation mm_ts: transition_system "mm_init tr" "mm_step tr" for tr .

definition mm_reachable :: "('m, 'w) Transporter \<Rightarrow> ('m, 'w) mm_sys \<Rightarrow> bool" where
  "mm_reachable tr st \<longleftrightarrow> (\<exists>st0. mm_init tr st0 \<and> (mm_step tr)\<^sup>*\<^sup>* st0 st)"

lemma mm_reachable_reach: "mm_reachable tr st = mm_ts.reach tr st"
  by (simp add: mm_reachable_def mm_ts.reach_def)

section \<open>Lemmas\<close>

lemma Send_queued:
  assumes "mm_Send tr session to msg m = SendQueued m'"
  shows "\<exists>x. m' = m\<lparr>sendingQueue := sendingQueue m @ [x]\<rparr>" "length (sendingQueue m) < defaultQueueSize"
  using assms by (auto simp: mm_Send_def split: option.splits if_splits sum.splits)

lemma stopping_keeps:
  "sendingQueue (mm (mm_stopping tr st)) = sendingQueue (mm st)" "mm_stop (mm (mm_stopping tr st)) = mm_stop (mm st)"
  "sending (mm_stopping tr st) = sending st" "transmitted (mm_stopping tr st) = transmitted st"
  "accepted (mm_stopping tr st) = accepted st"
  by (simp_all add: mm_stopping_def)

text \<open>The queue holds what was accepted and not yet given to the transport, and \<open>sendLoop\<close> ends only after a stop.\<close>

definition mm_inv :: "('m, 'w) mm_sys \<Rightarrow> bool" where
  "mm_inv st \<longleftrightarrow>
     accepted st = transmitted st @ sendingQueue (mm st) \<and> length (sendingQueue (mm st)) \<le> defaultQueueSize \<and>
     mm_stop (mm st) \<noteq> None \<and> (\<not> sending st \<longrightarrow> mm_stop (mm st) = Some True)"

lemma mm_step_inv: "mm_step tr st st' \<Longrightarrow> mm_inv st \<Longrightarrow> mm_inv st'"
proof (induction rule: mm_step.cases)
  case (send st session to msg m)
  then show ?case using Send_queued [OF send(4)] by (auto simp: mm_inv_def)
qed (auto simp: mm_inv_def stopping_keeps)

lemma Start_opens:
  "mm_Start tr m w = ((err, m'), w') \<Longrightarrow> sendingQueue m' = sendingQueue m \<and> mm_stop m' = Some False"
  by (cases "tr_Start tr w"; cases "fst (tr_Start tr w)") (auto simp: mm_Start_def Let_def)

lemma mm_init_inv: "mm_init tr st \<Longrightarrow> mm_inv st"
  unfolding mm_init_def by (auto dest!: Start_opens simp: mm_inv_def mm_New_def)

lemma mm_reachable_inv:
  assumes "mm_reachable tr st"
  shows "mm_inv st"
proof -
  from assms have "mm_ts.reach tr st" by (simp add: mm_reachable_reach)
  then show ?thesis by (induction rule: mm_ts.reach_induct) (auto intro: mm_init_inv mm_step_inv)
qed

text \<open>Once \<open>sendLoop\<close> has ended nothing is transmitted any more.\<close>

lemma mm_step_silent: "mm_step tr st st' \<Longrightarrow> \<not> sending st \<Longrightarrow> \<not> sending st' \<and> transmitted st' = transmitted st"
  by (induction rule: mm_step.cases) (auto simp: stopping_keeps)

lemma mm_steps_silent:
  assumes "(mm_step tr)\<^sup>*\<^sup>* st st'" "\<not> sending st"
  shows "\<not> sending st' \<and> transmitted st' = transmitted st"
  using assms by (induction rule: rtranclp_induct) (auto dest: mm_step_silent)

end
