(* ===== verification/Exec_Safety.thy ===== *)
theory Exec_Safety
  imports Executor Exec_Driver Mesos_Messenger Driver_Safety "HOL-Library.Sublist"
begin

text \<open>
  What the executor driver guarantees in all its runs, and how it works together with the messenger
  below it, the executor above it and the scheduler driver at the other end: status updates are kept
  until the scheduler acknowledges them, except where the executor aborts.
\<close>

section \<open>Lemmas: resending\<close>

lemma go_range_values: "gm_ok m \<Longrightarrow> mset (map snd (fst (go_range io m w))) = mset (map snd m)"
  using go_range_mset [of m io w] by (metis mset_map)

lemma reconnect_sends:
  assumes "xd_wf d" "xd_status d = DRIVER_RUNNING"
  shows "\<exists>us ts w'. xd_reconnect io net (Some p) d w =
       (Returns (d\<lparr>slaveUPID := Some p\<rparr>, [XdSend p (ReregisterExecutor (xd_executorID d) (xd_frameworkID d) us ts)]), w') \<and>
     mset us = mset (map snd (xd_updates d)) \<and> mset ts = mset (map snd (xd_tasks d))"
proof -
  obtain us w1 where u: "go_range io (xd_updates d) w = (us, w1)" by fastforce
  obtain ts w2 where t: "go_range io (xd_tasks d) w1 = (ts, w2)" by fastforce
  have ok: "gm_ok (xd_updates d)" "gm_ok (xd_tasks d)" using assms(1) by (auto simp: xd_wf_def keyed_by_def)
  have "mset (map snd us) = mset (map snd (xd_updates d))" "mset (map snd ts) = mset (map snd (xd_tasks d))"
    using go_range_values [OF ok(1), of io w] go_range_values [OF ok(2), of io w1] u t by simp_all
  then show ?thesis
    using assms(2) u t by (auto simp: xd_reconnect_def xd_stopped_def xd_send_def split: prod.splits)
qed

section \<open>Lemmas: recovery\<close>

lemma networkError_connected:
  assumes "xd_status d = DRIVER_RUNNING" "xd_connected d" "xd_checkpoint d"
  shows "xd_networkError net (xd_connection d) d w =
      (Returns (d\<lparr>xd_connected := False, recoveryTimer := Some (xd_connection d)\<rparr>, [XdCallback XcDisconnected]), w)"
    and "s \<noteq> xd_connection d \<Longrightarrow> xd_networkError net s d w = (Returns (d\<lparr>xd_connected := False\<rparr>, []), w)"
  using assms by (auto simp: xd_networkError_def)

lemma networkError_disconnected:
  assumes "xd_status d = DRIVER_RUNNING" "\<not> xd_connected d"
  shows "\<exists>w'. xd_networkError net s d w =
    (Returns (d\<lparr>xd_connected := False, xd_status := DRIVER_ABORTED, xd_stopClosed := True\<rparr>, [XdCallback XcShutdown]), w')"
  using assms by (auto simp: xd_networkError_def xd_Abort_def xd_stop_messenger_def call_and_def Let_def split: prod.splits)

text \<open>While the slave is away the timer ends the executor; after a new registration it does nothing.\<close>

lemma recovery_window:
  assumes "xd_status d = DRIVER_RUNNING" "\<not> xd_connected d"
  shows "\<exists>w'. recoveryTimedOut net (xd_connection d) d w =
      (Returns (d\<lparr>xd_status := DRIVER_STOPPED, xd_stopClosed := True\<rparr>, [XdCallback XcShutdown]), w')"
    and "xd_reregistered net d w = (Returns (d', es), w') \<Longrightarrow> recoveryTimedOut net s d' v = (Returns (d', []), v)"
  using assms by (auto simp: recoveryTimedOut_def xd_shutdown_def xd_Stop_def xd_stop_messenger_def xd_stopped_def call_and_def
      xd_reregistered_def xd_ignored_def split: prod.splits)

section \<open>Lemmas: sending and acknowledging an update\<close>

lemma sendStatusUpdate_sends:
  assumes "xd_status d = DRIVER_RUNNING" "task_state s \<noteq> TASK_STAGING" "xd_self d = Some me" "slaveUPID d = Some p"
    "makeStatusUpdate net s d w = (u, w1)" "net_send net p (ExecStatusUpdate u (upid_String me)) w1 = (err, w2)"
  shows "sendStatusUpdate net s d w =
    (Returns ((DRIVER_RUNNING, err), d\<lparr>xd_updates := gm_put (eu_uuid u) u (xd_updates d)\<rparr>,
       [XdSend p (ExecStatusUpdate u (upid_String me))]), w2)"
  using assms by (simp add: sendStatusUpdate_def xd_send_def Let_def)

lemma makeStatusUpdate_task: "task_id (eu_status (fst (makeStatusUpdate net s d w))) = task_id s"
  by (simp add: makeStatusUpdate_def split_beta)

text \<open>The master relays the update of the executor driver to the scheduler driver.\<close>

definition relayed :: "ExecUpdate \<Rightarrow> StatusUpdateInfo" where
  "relayed u = \<lparr>su_status = eu_status u, su_slave = eu_slave u, su_uuid = eu_uuid u\<rparr>"

lemma statusUpdated_acknowledges:
  assumes "drv_status e = DRIVER_RUNNING" "connected e" "masterPid e = Some mp" "selfPid e = Some me"
    "\<not> upid_Equal (Some mp) (Some me)" "pid \<noteq> upid_String me" "eu_uuid u \<noteq> []"
  shows "\<exists>v'. statusUpdated net (Some mp) (relayed u) pid e v =
    (Returns (e, DSend mp (StatusUpdateAcknowledgement (eu_slave u) (fi_Id (frameworkInfo e)) (task_id (eu_status u)) (eu_uuid u)) #
       withScheduler (CbStatusUpdate (eu_status u) (Some (eu_uuid u))) e), v')"
  using assms by (auto simp: statusUpdated_def relayed_def drv_send_def upid_Equal_def Let_def split: prod.splits)

section \<open>The executor, its driver and the messenger\<close>

text \<open>
  The messenger as the driver sees it, for the connection \<open>session\<close>.  A send that would wait is
  excluded where this is used.
\<close>

definition messenger_net ::
    "('m, 'w) Transporter \<Rightarrow> string \<Rightarrow> ('w \<Rightarrow> string \<times> 'w) \<Rightarrow> (string \<Rightarrow> bool) \<Rightarrow> ('m, 'm MesosMessenger \<times> 'w) Messenger" where
  "messenger_net tr session uuids accepts =
     \<lparr>net_send = (\<lambda>pid msg (m, w).
        (case mm_Send tr session (Some pid) msg m of
           SendQueued m1 \<Rightarrow> (None, m1, w)
         | SendError e \<Rightarrow> (Some e, m, w)
         | _ \<Rightarrow> (Some ''not sent'', m, w))),
      net_start = (\<lambda>(m, w).
        (case mm_Start tr m w of
           ((Some e, m1), w1) \<Rightarrow> (Inl ''failed to start messenger'', m1, w1)
         | ((None, m1), w1) \<Rightarrow> (Inr (mm_upid m1), m1, w1))),
      net_stop = (\<lambda>(m, w).
        (case mm_Stop tr m w of
           (Returns (None, m1), w1) \<Rightarrow> (None, m1, w1)
         | (Returns (Some e, m1), w1) \<Rightarrow> (Some ''failed to stop the transporter'', m1, w1)
         | (Panics, w1) \<Rightarrow> (Some ''panic'', m, w1))),
      new_uuid = (\<lambda>(m, w). (let (c, w1) = uuids w in (c, m, w1))),
      resolves = accepts\<rparr>"

text \<open>\<open>handleFailure\<close> of the executor with the methods of the driver it calls.\<close>

definition handleFailure_driver ::
    "'w XNet \<Rightarrow> TaskInfo \<Rightarrow> MesosExecutorDriver \<Rightarrow> 'w \<Rightarrow> (MesosExecutorDriver \<times> xd_effect list) outcome \<times> 'w" where
  "handleFailure_driver net t d w =
     (case sendStatusUpdate net (update_for t TASK_FAILED) d w of
        (Panics, w1) \<Rightarrow> (Panics, w1)
      | (Returns (_, d1, es1), w1) \<Rightarrow>
          (case xd_Abort net d1 w1 of
             (Panics, w2) \<Rightarrow> (Panics, w2)
           | (Returns (_, d2, es2), w2) \<Rightarrow> (Returns (d2, es1 @ es2), w2)))"

lemma aborted_ignores: "xd_status d = DRIVER_ABORTED \<Longrightarrow> xd_handle io net from msg d w = (Returns (d, []), w)"
  by (cases msg) (simp_all add: xd_registered_def xd_reregistered_def xd_reconnect_def xd_runTask_def xd_killTask_def
      statusUpdateAcknowledgement_def xd_frameworkMessage_def xd_shutdown_def xd_frameworkError_def xd_networkError_def xd_ignored_def)

lemma aborted_refuses: "xd_status d = DRIVER_ABORTED \<Longrightarrow> \<exists>r. xd_perform net req d w = (Returns (r, d, []), w)"
  by (cases req) (simp_all add: xd_Start_def xd_Stop_def xd_Abort_def sendStatusUpdate_def sendFrameworkMessage_def xd_refused_def)

lemma failure_queued:
  assumes d: "xd_status d = DRIVER_RUNNING" "xd_self d = Some me" "slaveUPID d = Some p"
    and m: "p \<noteq> mm_upid m" "length (sendingQueue m) < defaultQueueSize" "mm_stop m = Some False" "\<not> stopOnce m"
    and ok: "\<And>msg. \<exists>b. pb_Marshal tr msg = Inr b"
  shows "\<exists>d' u msg m' w'. handleFailure_driver (messenger_net tr session uuids accepts) t d (m, w) =
       (Returns (d', [XdSend p (ExecStatusUpdate u (upid_String me))]), m', w') \<and>
     xd_status d' = DRIVER_ABORTED \<and> eu_status u = (update_for t TASK_FAILED)\<lparr>status_slave := xd_slaveID d\<rparr> \<and>
     ProtoMessage msg = ExecStatusUpdate u (upid_String me) \<and> msg_UPID msg = p \<and>
     sendingQueue m' = sendingQueue m @ [msg] \<and> mm_stop m' = Some True"
proof -
  let ?net = "messenger_net tr session uuids accepts"
  obtain c w1 where c: "uuids w = (c, w1)" by fastforce
  obtain e w2 where e: "tr_Stop tr w1 = (e, w2)" by fastforce
  let ?s = "update_for t TASK_FAILED"
  obtain u where u: "makeStatusUpdate ?net ?s d (m, w) = (u, (m, w1))" "eu_status u = ?s\<lparr>status_slave := xd_slaveID d\<rparr>"
    using c by (auto simp: makeStatusUpdate_def messenger_net_def)
  obtain b where b: "pb_Marshal tr (ExecStatusUpdate u (upid_String me)) = Inr b" using ok by blast
  let ?msg = "\<lparr>msg_UPID = p, msg_Name = getMessageName tr (ExecStatusUpdate u (upid_String me)),
    ProtoMessage = ExecStatusUpdate u (upid_String me), msg_Bytes = b, msg_session = session\<rparr>"
  let ?m = "m\<lparr>sendingQueue := sendingQueue m @ [?msg]\<rparr>"
  have "net_send ?net p (ExecStatusUpdate u (upid_String me)) (m, w1) = (None, ?m, w1)"
    using m b by (simp add: messenger_net_def mm_Send_def)
  then have s: "sendStatusUpdate ?net ?s d (m, w) =
      (Returns ((DRIVER_RUNNING, None), d\<lparr>xd_updates := gm_put (eu_uuid u) u (xd_updates d)\<rparr>,
        [XdSend p (ExecStatusUpdate u (upid_String me))]), ?m, w1)"
    using d u(1) by (intro sendStatusUpdate_sends) (simp_all add: update_for_def)
  have "\<exists>e'. net_stop ?net (?m, w1) = (e', ?m\<lparr>mm_stop := Some True, stopOnce := True\<rparr>, w2)"
    using m(3,4) e by (auto simp: messenger_net_def mm_Stop_def split: option.splits)
  then show ?thesis
    using s u(2) d(1) by (auto simp: handleFailure_driver_def xd_Abort_def xd_stop_messenger_def)
qed

section \<open>Lemmas: the loop that sends\<close>

lemma mm_drains:
  assumes "\<not> mm_dead st" "sending st"
  shows "\<exists>st'. (mm_step tr)\<^sup>*\<^sup>* st st' \<and> transmitted st' = transmitted st @ sendingQueue (mm st) \<and> sendingQueue (mm st') = []"
  using assms
proof (induction "sendingQueue (mm st)" arbitrary: st)
  case Nil
  then show ?case by (intro exI [of _ st]) simp
next
  case (Cons msg rest)
  obtain hs w1 where d: "mm_dispatch tr msg (mm st) (mm_world st) = (hs, w1)" by fastforce
  let ?st = "st\<lparr>mm := (mm st)\<lparr>sendingQueue := rest\<rparr>, transmitted := transmitted st @ [msg],
      handled_messages := handled_messages st @ hs, mm_world := w1\<rparr>"
  have "mm_step tr st ?st" using Cons(2) d Cons.prems by (intro mm_step.dispatch) simp_all
  moreover obtain st' where "(mm_step tr)\<^sup>*\<^sup>* ?st st'" "transmitted st' = transmitted ?st @ sendingQueue (mm ?st)"
    "sendingQueue (mm st') = []"
    using Cons(1) [of ?st] Cons.prems by auto
  ultimately show ?case
    using Cons(2) by (intro exI [of _ st']) (auto intro: converse_rtranclp_into_rtranclp)
qed

lemma mm_loop_ends:
  assumes "\<not> mm_dead st" "sending st" "mm_stop (mm st) = Some True"
  shows "\<exists>st'. (mm_step tr)\<^sup>*\<^sup>* st st' \<and> \<not> sending st' \<and> transmitted st' = transmitted st"
  using mm_step.send_ends [OF assms, of tr] by (intro exI [of _ "st\<lparr>sending := False\<rparr>"]) auto

lemma mm_step_queue:
  assumes "mm_step tr st st'" "\<not> sending st"
  shows "prefix (sendingQueue (mm st)) (sendingQueue (mm st'))"
  using assms
proof cases
  case (send session to msg m)
  then show ?thesis using Send_queued(1) [OF send(3)] by auto
qed (use assms(2) in \<open>auto simp: stopping_keeps\<close>)

lemma mm_steps_queue:
  assumes "(mm_step tr)\<^sup>*\<^sup>* st st'" "\<not> sending st"
  shows "prefix (sendingQueue (mm st)) (sendingQueue (mm st'))"
  using assms
proof (induction rule: rtranclp_induct)
  case (step y z)
  then have "\<not> sending y" using mm_steps_silent by blast
  with step show ?case using mm_step_queue by (meson prefix_order.trans)
qed simp

section \<open>Examples\<close>

definition demo_slave :: UPID where
  "demo_slave = \<lparr>upid_ID = ''slave(1)'', upid_Host = ''h'', upid_Port = ''5''\<rparr>"

definition demo_self :: UPID where
  "demo_self = \<lparr>upid_ID = ''executor(1)'', upid_Host = ''h'', upid_Port = ''1''\<rparr>"

text \<open>Identifiers are numbered in unary.\<close>

definition demo_uuid :: "nat \<Rightarrow> string" where
  "demo_uuid n = replicate (Suc n) (CHR ''u'')"

definition demo_xnet :: "nat XNet" where
  "demo_xnet = \<lparr>net_send = (\<lambda>p msg w. (None, w)), net_start = (\<lambda>w. (Inr demo_self, w)), net_stop = (\<lambda>w. (None, w)),
     new_uuid = (\<lambda>w. (demo_uuid w, Suc w)), resolves = (\<lambda>a. True)\<rparr>"

definition demo_getenv :: "string \<Rightarrow> string" where
  "demo_getenv k =
     (if k = ''MESOS_SLAVE_PID'' then ''slave(1)@h:5'' else if k = ''MESOS_CHECKPOINT'' then ''1''
      else if k \<in> {''MESOS_SLAVE_ID'', ''MESOS_FRAMEWORK_ID'', ''MESOS_EXECUTOR_ID''} then ''x'' else [])"

definition demo_xd :: MesosExecutorDriver where
  "demo_xd =
     \<lparr>xd_self = None, xd_stopClosed = False, xd_status = DRIVER_NOT_STARTED, slaveUPID = Some demo_slave, xd_slaveID = ''x'',
      xd_frameworkID = ''x'', xd_executorID = ''x'', workDir = ''.'', xd_connected = False, xd_connection = [],
      xd_local = False, xd_checkpoint = True, recoveryTimer = None, xd_updates = [], xd_tasks = [], xd_started = False\<rparr>"

definition demo_xd_running :: MesosExecutorDriver where
  "demo_xd_running = demo_xd\<lparr>xd_self := Some demo_self, xd_status := DRIVER_RUNNING, xd_started := True\<rparr>"

definition demo_xd_connected :: MesosExecutorDriver where
  "demo_xd_connected = demo_xd_running\<lparr>xd_connected := True, xd_connection := demo_uuid 0\<rparr>"

definition demo_xd_task :: MesosExecutorDriver where
  "demo_xd_task = demo_xd_connected\<lparr>xd_tasks := [(task_info_id demo_task, demo_task)]\<rparr>"

definition demo_update :: ExecUpdate where
  "demo_update = \<lparr>eu_framework = ''x'', eu_executor = ''x'', eu_slave = ''x'',
     eu_status = (update_for demo_task TASK_RUNNING)\<lparr>status_slave := ''x''\<rparr>, eu_uuid = demo_uuid 1\<rparr>"

definition demo_xd_sent :: MesosExecutorDriver where
  "demo_xd_sent = demo_xd_task\<lparr>xd_updates := [(demo_uuid 1, demo_update)]\<rparr>"

lemmas demo_xd_defs = demo_xnet_def demo_xd_def demo_xd_running_def demo_xd_connected_def demo_xd_task_def demo_xd_sent_def

text \<open>A run: started, registered, a task launched, reported as running, and launched again.\<close>

definition demo_x1 :: "nat xd_sys" where
  "demo_x1 = xd_proceed [] demo_xd_running [XdSend demo_slave (RegisterExecutor ''x'' ''x'')] 0 (xd_start demo_xd 0)"

definition demo_x2 :: "nat xd_sys" where
  "demo_x2 = xd_proceed [XIn XmRegistered] demo_xd_connected [XdCallback XcRegistered] 1 demo_x1"

definition demo_x3 :: "nat xd_sys" where
  "demo_x3 = xd_proceed [XIn (XmRunTask demo_task)] demo_xd_task [XdCallback (XcLaunchTask demo_task)] 1 demo_x2"

definition demo_x4 :: "nat xd_sys" where
  "demo_x4 = xd_proceed [] demo_xd_sent [XdSend demo_slave (ExecStatusUpdate demo_update (upid_String demo_self))] 2 demo_x3"

definition demo_x5 :: "nat xd_sys" where
  "demo_x5 = demo_x4\<lparr>xd_log := xd_log demo_x4 @ [XIn (XmRunTask demo_task)], xd_dead := True, xd_world := 2\<rparr>"

lemmas demo_x_defs = demo_x1_def demo_x2_def demo_x3_def demo_x4_def xd_proceed_def xd_start_def

lemma xd_reachable_step: "xd_reachable io net getenv accepts st \<Longrightarrow> xd_step io net st st' \<Longrightarrow> xd_reachable io net getenv accepts st'"
  unfolding xd_reachable_def by (meson rtranclp.rtrancl_into_rtrancl)

lemma demo_new: "NewMesosExecutorDriver demo_getenv (\<lambda>a. True) True True = Some demo_xd"
proof -
  have "upid_Parse (\<lambda>a. True) ''slave(1)@h:5'' = Some demo_slave" by code_simp
  then show ?thesis by (simp add: NewMesosExecutorDriver_def parseEnviroments_def demo_getenv_def demo_xd_def)
qed

lemma demo_x1_reachable: "xd_reachable io demo_xnet demo_getenv (\<lambda>a. True) demo_x1"
proof (rule xd_reachable_step)
  show "xd_reachable io demo_xnet demo_getenv (\<lambda>a. True) (xd_start demo_xd 0)"
    using demo_new unfolding xd_reachable_def xd_init_def by blast
  show "xd_step io demo_xnet (xd_start demo_xd 0) demo_x1"
    unfolding demo_x1_def
    by (rule xd_step.call_method [where req = XrStart and r = "(DRIVER_RUNNING, None)"])
       (simp_all add: xd_start_def xd_Start_def xd_send_def demo_xd_defs)
qed

lemma demo_x2_reachable: "xd_reachable io demo_xnet demo_getenv (\<lambda>a. True) demo_x2"
  unfolding demo_x2_def
  by (rule xd_reachable_step [OF demo_x1_reachable], rule xd_step.message [where sender = demo_slave])
     (simp_all add: demo_x_defs xd_registered_def xd_stopped_def demo_xd_defs)

lemma demo_x3_reachable: "xd_reachable io demo_xnet demo_getenv (\<lambda>a. True) demo_x3"
  unfolding demo_x3_def
  by (rule xd_reachable_step [OF demo_x2_reachable], rule xd_step.message [where sender = demo_slave])
     (simp_all add: demo_x_defs xd_runTask_def xd_stopped_def demo_xd_defs gm_has_def gm_put_def)

lemma demo_x4_reachable: "xd_reachable io demo_xnet demo_getenv (\<lambda>a. True) demo_x4"
  unfolding demo_x4_def
  by (rule xd_reachable_step [OF demo_x3_reachable],
      rule xd_step.call_method [where req = "XrSendStatusUpdate (update_for demo_task TASK_RUNNING)" and r = "(DRIVER_RUNNING, None)"])
     (simp_all add: demo_x_defs sendStatusUpdate_def makeStatusUpdate_def xd_send_def demo_xd_defs demo_update_def
        update_for_def gm_put_def)

lemma demo_x5_reachable: "xd_reachable io demo_xnet demo_getenv (\<lambda>a. True) demo_x5"
proof (rule xd_reachable_step [OF demo_x4_reachable])
  show "xd_step io demo_xnet demo_x4 demo_x5"
    unfolding demo_x5_def
    by (rule xd_step.message_ends [where sender = demo_slave])
       (simp_all add: demo_x_defs xd_runTask_def xd_stopped_def demo_xd_defs gm_has_def)
qed

definition demo_tr :: "(exec_message, nat) Transporter" where
  "demo_tr = \<lparr>tr_New = (\<lambda>w. True), tr_Start = (\<lambda>w. (Inr demo_self, w)), tr_Send = (\<lambda>msg w. (None, w)), tr_Enter = (\<lambda>w. None),
     tr_Next = (\<lambda>w. None), tr_Quits = (\<lambda>w. False), tr_Stop = (\<lambda>w. (None, w)), tr_Own = (\<lambda>w w'. False), pb_Marshal = (\<lambda>msg. Inr []), pb_Unmarshal = (\<lambda>name bytes. None), getMessageName = (\<lambda>msg. ''m'')\<rparr>"

definition demo_mm :: "exec_message MesosMessenger" where
  "demo_mm = mm_New\<lparr>mm_stop := Some False, mm_upid := demo_self\<rparr>"

definition demo_mm_sys :: "(exec_message, nat) mm_sys" where
  "demo_mm_sys = \<lparr>mm = demo_mm, sending = True, decoding = AtHead, watching = True, mm_closing = False, accepted = [], transmitted = [],
     handled_messages = [], mm_dead = False, mm_world = 0\<rparr>"

text \<open>The same messenger after its transport failed, with its loop ended.\<close>

definition demo_mm_ended :: "(exec_message, nat) mm_sys" where
  "demo_mm_ended = demo_mm_sys\<lparr>mm := demo_mm\<lparr>mm_stop := Some True, stopOnce := True\<rparr>, watching := False, sending := False\<rparr>"

lemma demo_mm_reachable: "mm_reachable demo_tr demo_mm_sys"
proof -
  have "mm_Start demo_tr (mm_New\<lparr>installedMessages := []\<rparr>) 0 = ((None, demo_mm), 0)"
    by (simp add: mm_Start_def demo_tr_def demo_mm_def mm_New_def)
  moreover have "tr_New demo_tr 0" by (simp add: demo_tr_def)
  ultimately have "mm_init demo_tr demo_mm_sys" unfolding mm_init_def demo_mm_sys_def by blast
  then show ?thesis unfolding mm_reachable_def by blast
qed

lemma demo_mm_ended_reachable: "mm_reachable demo_tr demo_mm_ended"
proof -
  let ?s1 = "(mm_stopping demo_tr demo_mm_sys)\<lparr>watching := False\<rparr>"
  let ?s2 = "?s1\<lparr>mm := (mm ?s1)\<lparr>mm_stop := Some True\<rparr>, mm_closing := False\<rparr>"
  have s1: "mm_step demo_tr demo_mm_sys ?s1" by (rule mm_step.transport_ends) (simp_all add: demo_mm_sys_def)
  have s2: "mm_step demo_tr ?s1 ?s2"
    by (rule mm_step.stop_closes) (simp_all add: mm_stopping_def demo_mm_sys_def demo_mm_def mm_New_def)
  have s3: "mm_step demo_tr ?s2 (?s2\<lparr>sending := False\<rparr>)"
    by (rule mm_step.send_ends) (simp_all add: mm_stopping_def demo_mm_sys_def)
  have "?s2\<lparr>sending := False\<rparr> = demo_mm_ended"
    by (simp add: mm_stopping_def demo_mm_ended_def demo_mm_sys_def demo_mm_def mm_New_def demo_tr_def)
  with s1 s2 s3 have "(mm_step demo_tr)\<^sup>*\<^sup>* demo_mm_sys demo_mm_ended"
    by (metis converse_rtranclp_into_rtranclp r_into_rtranclp)
  then show ?thesis using demo_mm_reachable unfolding mm_reachable_def by (meson rtranclp_trans)
qed

section \<open>Properties\<close>

text \<open>
  C16 (refinement): what the driver keeps is what the history says is unacknowledged: when the slave
  asks a running driver to reconnect, the driver registers again with exactly the updates it sent and
  the tasks it launched that were not acknowledged since, in some order, if no two updates were given
  the same identifier.
\<close>

theorem reconnect_resends:
  assumes "xd_reachable io net getenv accepts st" "xd_status (xdrv st) = DRIVER_RUNNING"
    "distinct (map eu_uuid (sent_updates (xd_log st)))"
  shows "\<exists>us ts w'. xd_handle io net (Some p) XmReconnect (xdrv st) (xd_world st) =
      (Returns ((xdrv st)\<lparr>slaveUPID := Some p\<rparr>,
         [XdSend p (ReregisterExecutor (xd_executorID (xdrv st)) (xd_frameworkID (xdrv st)) us ts)]), w') \<and>
    mset us = mset (unacknowledged_updates (xd_log st)) \<and> mset ts = mset (unacknowledged_tasks (xd_log st))"
proof -
  have "xd_inv (xd_log st) (xdrv st)" using xd_reachable_inv [OF assms(1)] by (simp add: xd_sys_inv_def)
  then have "xd_wf (xdrv st)" "map snd (xd_updates (xdrv st)) = unacknowledged_updates (xd_log st)"
    "map snd (xd_tasks (xdrv st)) = unacknowledged_tasks (xd_log st)"
    using assms(2,3) by (simp_all add: xd_inv_def)
  then show ?thesis using reconnect_sends [of "xdrv st" io net p "xd_world st"] assms(2) by simp
qed

theorem reconnect_resends_witness:
  "\<exists>us ts w'. xd_handle demo_world demo_xnet (Some demo_slave) XmReconnect (xdrv demo_x4) (xd_world demo_x4) =
      (Returns ((xdrv demo_x4)\<lparr>slaveUPID := Some demo_slave\<rparr>,
         [XdSend demo_slave (ReregisterExecutor (xd_executorID (xdrv demo_x4)) (xd_frameworkID (xdrv demo_x4)) us ts)]), w') \<and>
    mset us = mset [demo_update] \<and> mset ts = mset [demo_task]"
proof -
  have "unacknowledged_updates (xd_log demo_x4) = [demo_update]" "unacknowledged_tasks (xd_log demo_x4) = [demo_task]"
    by (simp_all add: unacknowledged_updates_def unacknowledged_tasks_def demo_x_defs)
  then show ?thesis
    using reconnect_resends [OF demo_x4_reachable [of demo_world], of demo_slave]
    by (simp add: sent_updates_def demo_x_defs demo_xd_defs)
qed

text \<open>
  C29 (type): in every run each update of the driver is stored under its own identifier and each task
  under its own, the driver knows its slave, a driver that was started knows its own address, one that
  was stopped or aborted has signalled it, only a started driver is connected, and a recovery timer
  runs only with checkpointing.
\<close>

theorem exec_driver_wf:
  assumes "xd_reachable io net getenv accepts st"
  shows "xd_wf (xdrv st)"
  using xd_reachable_inv [OF assms] by (simp add: xd_sys_inv_def xd_inv_def)

theorem exec_driver_wf_witness: "xd_wf (xdrv demo_x4)"
  by (rule exec_driver_wf [OF demo_x4_reachable [of demo_world]])

text \<open>
  C17 (safety): the process of the executor driver ends by itself only when the slave launches a task
  under the identifier of a task that was launched before and not acknowledged since; no other message,
  no method and no timer panics.
\<close>

theorem exec_driver_crash:
  assumes "xd_reachable io net getenv accepts st" "xd_dead st"
  shows "\<exists>before t. xd_log st = before @ [XIn (XmRunTask t)] \<and>
    task_info_id t \<in> task_info_id ` set (unacknowledged_tasks before)"
  using xd_reachable_inv [OF assms(1)] assms(2) by (simp add: xd_sys_inv_def duplicate_task_def)

theorem exec_driver_crash_witness:
  "\<exists>before t. xd_log demo_x5 = before @ [XIn (XmRunTask t)] \<and> task_info_id t \<in> task_info_id ` set (unacknowledged_tasks before)"
  by (rule exec_driver_crash [OF demo_x5_reachable [of demo_world]]) (simp add: demo_x5_def)

text \<open>
  C30 (error): a connected driver with checkpointing that loses its slave tells the executor and waits
  for a recovery.  A late network error of an older connection defeats this: it is reported to nobody,
  but marks the driver as disconnected, and the next network error, of whatever connection, shuts the
  executor down and aborts the driver.
\<close>

theorem stale_error_defeats_recovery:
  assumes "xd_status d = DRIVER_RUNNING" "xd_connected d" "xd_checkpoint d" "stale \<noteq> xd_connection d"
  shows "xd_networkError net (xd_connection d) d w =
      (Returns (d\<lparr>xd_connected := False, recoveryTimer := Some (xd_connection d)\<rparr>, [XdCallback XcDisconnected]), w) \<and>
    (\<exists>d1. xd_networkError net stale d w = (Returns (d1, []), w) \<and>
       (\<forall>s v. \<exists>d2 v'. xd_networkError net s d1 v = (Returns (d2, [XdCallback XcShutdown]), v') \<and> xd_status d2 = DRIVER_ABORTED))"
  using networkError_connected(1) [OF assms(1-3)] networkError_connected(2) [OF assms]
    networkError_disconnected [of "d\<lparr>xd_connected := False\<rparr>" net] assms(1)
  by fastforce

theorem stale_error_defeats_recovery_witness:
  "xd_networkError demo_xnet (demo_uuid 0) demo_xd_connected 1 =
      (Returns (demo_xd_connected\<lparr>xd_connected := False, recoveryTimer := Some (demo_uuid 0)\<rparr>, [XdCallback XcDisconnected]), 1) \<and>
    (\<exists>d1. xd_networkError demo_xnet [] demo_xd_connected 1 = (Returns (d1, []), 1) \<and>
       (\<forall>s v. \<exists>d2 v'. xd_networkError demo_xnet s d1 v = (Returns (d2, [XdCallback XcShutdown]), v') \<and> xd_status d2 = DRIVER_ABORTED))"
  using stale_error_defeats_recovery [of demo_xd_connected "[]" demo_xnet 1]
  by (simp add: demo_xd_connected_def demo_xd_running_def demo_xd_def demo_uuid_def)

text \<open>
  C18 (functional): a status update makes its way through both drivers: the executor driver sends and
  keeps it, the scheduler driver that hears of it from its master calls the scheduler back and
  acknowledges it under its identifier, and this acknowledgement makes the executor driver forget this
  update and no other.
\<close>

theorem update_acknowledged:
  assumes "xd_status d = DRIVER_RUNNING" "task_state s \<noteq> TASK_STAGING" "xd_self d = Some me" "slaveUPID d = Some p"
    "makeStatusUpdate net s d w = (u, w1)" "eu_uuid u \<noteq> []"
    "drv_status e = DRIVER_RUNNING" "connected e" "masterPid e = Some mp" "selfPid e = Some self"
    "\<not> upid_Equal (Some mp) (Some self)" "upid_String me \<noteq> upid_String self"
  shows "\<exists>err d1 w2 v1. sendStatusUpdate net s d w =
      (Returns ((DRIVER_RUNNING, err), d1, [XdSend p (ExecStatusUpdate u (upid_String me))]), w2) \<and>
    gm_get (xd_updates d1) (eu_uuid u) = Some u \<and>
    statusUpdated snet (Some mp) (relayed u) (upid_String me) e v =
      (Returns (e, DSend mp (StatusUpdateAcknowledgement (eu_slave u) (fi_Id (frameworkInfo e)) (task_id s) (eu_uuid u)) #
         withScheduler (CbStatusUpdate (eu_status u) (Some (eu_uuid u))) e), v1) \<and>
    (\<exists>d2. statusUpdateAcknowledgement (task_id s) (eu_uuid u) d1 w2 = (Returns (d2, []), w2) \<and>
       (\<forall>k. gm_get (xd_updates d2) k = (if k = eu_uuid u then None else gm_get (xd_updates d) k)))"
proof -
  obtain err w2 where n: "net_send net p (ExecStatusUpdate u (upid_String me)) w1 = (err, w2)" by fastforce
  have "task_id (eu_status u) = task_id s" using makeStatusUpdate_task [of net s d w] assms(5) by simp
  with statusUpdated_acknowledges [OF assms(7-12) assms(6), of snet v] sendStatusUpdate_sends [OF assms(1-5) n] assms(1)
  show ?thesis by (auto simp: statusUpdateAcknowledgement_def gm_get_put gm_get_del)
qed

theorem update_acknowledged_witness:
  "\<exists>err d1 w2 v1. sendStatusUpdate demo_xnet (update_for demo_task TASK_RUNNING) demo_xd_task 1 =
      (Returns ((DRIVER_RUNNING, err), d1, [XdSend demo_slave (ExecStatusUpdate demo_update (upid_String demo_self))]), w2) \<and>
    gm_get (xd_updates d1) (eu_uuid demo_update) = Some demo_update \<and>
    statusUpdated demo_net (Some demo_master) (relayed demo_update) (upid_String demo_self) demo_registered () =
      (Returns (demo_registered, DSend demo_master (StatusUpdateAcknowledgement (eu_slave demo_update)
           (fi_Id (frameworkInfo demo_registered)) (task_id (update_for demo_task TASK_RUNNING)) (eu_uuid demo_update)) #
         withScheduler (CbStatusUpdate (eu_status demo_update) (Some (eu_uuid demo_update))) demo_registered), v1) \<and>
    (\<exists>d2. statusUpdateAcknowledgement (task_id (update_for demo_task TASK_RUNNING)) (eu_uuid demo_update) d1 w2 = (Returns (d2, []), w2) \<and>
       (\<forall>k. gm_get (xd_updates d2) k = (if k = eu_uuid demo_update then None else gm_get (xd_updates demo_xd_task) k)))"
  by (rule update_acknowledged [where self = "\<lparr>upid_ID = ''s'', upid_Host = ''h'', upid_Port = ''1''\<rparr>" and ?w1.0 = 2])
     (simp_all add: demo_xd_defs demo_defs makeStatusUpdate_def demo_update_def update_for_def demo_uuid_def upid_Equal_def
        upid_String_def demo_self_def numeral_2_eq_2)



text \<open>
  C21 (bounds): the messenger keeps order: in every run the messages given to the transport, followed by
  the queue, are the messages accepted, so none is sent twice or overtakes another; the queue holds at
  most 1024 of them, and as long as the loop that sends runs, all of them can still be sent.
\<close>

theorem messenger_fifo:
  assumes "mm_reachable tr st"
  shows "accepted st = transmitted st @ sendingQueue (mm st) \<and> length (sendingQueue (mm st)) \<le> 1024 \<and>
    (\<not> mm_dead st \<longrightarrow> sending st \<longrightarrow> (\<exists>st'. (mm_step tr)\<^sup>*\<^sup>* st st' \<and> transmitted st' = accepted st))"
  using mm_reachable_inv [OF assms] mm_drains [of st tr] by (auto simp: mm_inv_def defaultQueueSize_def)

theorem messenger_fifo_witness:
  "accepted demo_mm_sys = transmitted demo_mm_sys @ sendingQueue (mm demo_mm_sys) \<and>
    (\<exists>st'. (mm_step demo_tr)\<^sup>*\<^sup>* demo_mm_sys st' \<and> transmitted st' = accepted demo_mm_sys)"
  using messenger_fifo [OF demo_mm_reachable] by (simp add: demo_mm_sys_def)

text \<open>
  A messenger whose loop has ended, because it was stopped or because its transport failed,
  still accepts messages without an error as long as its queue has room, and sends none of them; once
  the queue is full a send waits for ever.
\<close>

lemma ended_messenger_accepts:
  assumes "mm_reachable tr st" "\<not> sending st" "pid \<noteq> mm_upid (mm st)" "pb_Marshal tr msg = Inr b"
  shows "(if length (sendingQueue (mm st)) < 1024
      then \<exists>m. mm_Send tr session (Some pid) msg (mm st) = SendQueued m
      else mm_Send tr session (Some pid) msg (mm st) = SendWaits) \<and>
    (\<forall>st'. (mm_step tr)\<^sup>*\<^sup>* st st' \<longrightarrow>
       transmitted st' = transmitted st \<and> prefix (sendingQueue (mm st)) (sendingQueue (mm st')))"
proof -
  have "if length (sendingQueue (mm st)) < 1024 then \<exists>m. mm_Send tr session (Some pid) msg (mm st) = SendQueued m
      else mm_Send tr session (Some pid) msg (mm st) = SendWaits"
    using assms(3,4) by (simp add: mm_Send_def defaultQueueSize_def)
  then show ?thesis using mm_steps_silent assms(2) mm_steps_queue by blast
qed

end
