(* ===== verification/Http_Transporter.thy ===== *)
theory Http_Transporter
  imports Rpc_Zk Mesos_Messenger
begin

text \<open>
  The HTTP transport of the messenger (\<open>messenger/http_transporter.go\<close> and \<open>messenger/message.go\<close> of the
  vendored package mesos-go): its three states, the requests it sends, those it serves, and the
  transport as the messenger sees it.  The network is a record of operations over a state of the
  outside.  The decoder of connections (\<open>messenger/decoder.go\<close>) is not modelled: a request is served
  with its whole body.
\<close>

section \<open>Message names\<close>

definition isV1API :: "string \<Rightarrow> bool" where
  "isV1API name \<longleftrightarrow> \<not> HasPrefix name ''mesos.internal''"

definition RequestURI :: "UPID \<Rightarrow> string \<Rightarrow> string" where
  "RequestURI pid name = (if isV1API name then ''/api/v1/'' @ name else ''/'' @ upid_ID pid @ ''/'' @ name)"

text \<open>An index out of range panics.\<close>

definition extractNameFromRequestURI :: "string \<Rightarrow> string outcome" where
  "extractNameFromRequestURI uri =
     (let parts = Split uri CHR ''/'' in if length parts \<le> 2 then Panics else Returns (parts ! 2))"

section \<open>State\<close>

datatype ht_state = notStartedState | runningState | stoppedState

record HTTPTransporter =
  ht_upid :: UPID
  ht_listening :: bool
  ht_mux :: "string list"
  messageQueue :: "(UPID \<times> string \<times> string) list"
  ht_address :: "string option"
  shouldQuit :: bool
  ht_state :: ht_state

type_synonym http_header = "(string \<times> string list) list"

record lib_request =
  lr_Method :: string
  lr_Addr :: string
  lr_URI :: string
  lr_Header :: http_header
  lr_Body :: string

text \<open>
  The network: listening (with the address bound), closing the listener, whether a URL parses, and an
  exchange, which gives an error or a status code, and tells whether the transport was stopped before
  the answer was taken.
\<close>

record 'w Http_Net =
  hn_listen :: "string \<Rightarrow> string \<Rightarrow> 'w \<Rightarrow> (string + string \<times> string) \<times> 'w"
  hn_close :: "'w \<Rightarrow> string option \<times> 'w"
  hn_url :: "string \<Rightarrow> bool"
  hn_do :: "lib_request \<Rightarrow> 'w \<Rightarrow> ((string + nat) \<times> bool) \<times> 'w"

definition NewHTTPTransporter :: "UPID \<Rightarrow> string option \<Rightarrow> HTTPTransporter" where
  "NewHTTPTransporter pid address =
     \<lparr>ht_upid = pid, ht_listening = False, ht_mux = [], messageQueue = [], ht_address = address, shouldQuit = False,
      ht_state = notStartedState\<rparr>"

section \<open>Lifecycle\<close>

text \<open>The multiplexer panics on a pattern that is registered twice.\<close>

definition ht_install :: "string \<Rightarrow> HTTPTransporter \<Rightarrow> HTTPTransporter outcome" where
  "ht_install name t =
     (let uri = ''/'' @ upid_ID (ht_upid t) @ ''/'' @ name in
      if uri \<in> set (ht_mux t) then Panics else Returns (t\<lparr>ht_mux := uri # ht_mux t\<rparr>))"

definition ht_Install :: "string \<Rightarrow> HTTPTransporter \<Rightarrow> HTTPTransporter outcome" where
  "ht_Install name t =
     (case ht_state t of
        notStartedState \<Rightarrow> ht_install name t
      | runningState \<Rightarrow> ht_install name t
      | stoppedState \<Rightarrow> Returns t)"

definition ht_listen :: "'w Http_Net \<Rightarrow> HTTPTransporter \<Rightarrow> 'w \<Rightarrow> (string option \<times> HTTPTransporter) \<times> 'w" where
  "ht_listen hn t w =
     (let host = (case ht_address t of Some a \<Rightarrow> a | None \<Rightarrow> upid_Host (ht_upid t));
          port = (if upid_Port (ht_upid t) \<noteq> [] then upid_Port (ht_upid t) else ''0'') in
      case hn_listen hn host port w of
        (Inl e, w1) \<Rightarrow> ((Some e, t), w1)
      | (Inr (boundHost, boundPort), w1) \<Rightarrow>
          (let u = ht_upid t;
               u1 = (if length (upid_Host u) = 0 then u\<lparr>upid_Host := boundHost\<rparr> else u);
               u2 = (if length (upid_Port u1) = 0 \<or> upid_Port u1 = ''0'' then u1\<lparr>upid_Port := boundPort\<rparr> else u1) in
           ((None, t\<lparr>ht_upid := u2, ht_listening := True\<rparr>), w1)))"

text \<open>The state is set before the transport listens, and kept when listening fails.\<close>

definition ht_Start :: "'w Http_Net \<Rightarrow> HTTPTransporter \<Rightarrow> 'w \<Rightarrow> ((tr_error + UPID) \<times> HTTPTransporter) \<times> 'w" where
  "ht_Start hn t w =
     (case ht_state t of
        stoppedState \<Rightarrow> ((Inl errTerminal, t), w)
      | runningState \<Rightarrow> ((Inl errAlreadyRunning, t), w)
      | notStartedState \<Rightarrow>
          (case ht_listen hn (t\<lparr>ht_state := runningState\<rparr>) w of
             ((Some e, t1), w1) \<Rightarrow> ((Inl (otherErr e), t1), w1)
           | ((None, t1), w1) \<Rightarrow> ((Inr (ht_upid t1), t1), w1)))"

text \<open>Closing a nil listener panics, after the state and the channel were changed.\<close>

definition ht_Stop :: "'w Http_Net \<Rightarrow> HTTPTransporter \<Rightarrow> 'w \<Rightarrow> (tr_error option \<times> HTTPTransporter) outcome \<times> 'w" where
  "ht_Stop hn t w =
     (case ht_state t of
        notStartedState \<Rightarrow> (Returns (Some errNotStarted, t), w)
      | stoppedState \<Rightarrow> (Returns (Some errTerminal, t), w)
      | runningState \<Rightarrow>
          (if \<not> ht_listening t then (Panics, w)
           else
             let (err, w1) = hn_close hn w in
             (Returns (map_option otherErr err, t\<lparr>ht_state := stoppedState, shouldQuit := True\<rparr>), w1)))"

section \<open>Sending\<close>

definition makeLibprocessRequest :: "'w Http_Net \<Rightarrow> 'm Message \<Rightarrow> HTTPTransporter \<Rightarrow> string + lib_request" where
  "makeLibprocessRequest hn msg t =
     (let addr = JoinHostPort (upid_Host (msg_UPID msg)) (upid_Port (msg_UPID msg));
          uri = RequestURI (msg_UPID msg) (msg_Name msg) in
      if \<not> hn_url hn (''http://'' @ addr @ uri) then Inl ''invalid URL''
      else Inr \<lparr>lr_Method = ''POST'', lr_Addr = addr, lr_URI = uri,
                lr_Header = (if isV1API (msg_Name msg) then []
                   else [(''Libprocess-From'', [upid_String (ht_upid t)]), (''Connection'', [''Keep-Alive''])]) @
                   [(''Content-Type'', [''application/x-protobuf''])],
                lr_Body = msg_Bytes msg\<rparr>)"

definition ht_httpDo :: "'w Http_Net \<Rightarrow> lib_request \<Rightarrow> HTTPTransporter \<Rightarrow> 'w \<Rightarrow> tr_error option \<times> 'w" where
  "ht_httpDo hn req t w =
     (if shouldQuit t then (Some discardOnStopError, w)
      else
        let ((answer, interrupted), w1) = hn_do hn req w in
        if interrupted then (Some discardOnStopError, w1)
        else
          case answer of
            Inl e \<Rightarrow> (Some (networkErr e), w1)
          | Inr code \<Rightarrow> (if code \<noteq> 200 \<and> code \<noteq> 202 then Some (mesosErr code) else None, w1))"

definition ht_Send :: "'w Http_Net \<Rightarrow> 'm Message \<Rightarrow> HTTPTransporter \<Rightarrow> 'w \<Rightarrow> tr_error option \<times> 'w" where
  "ht_Send hn msg t w =
     (case ht_state t of
        notStartedState \<Rightarrow> (Some errNotStarted, w)
      | stoppedState \<Rightarrow> (Some errTerminal, w)
      | runningState \<Rightarrow>
          (case makeLibprocessRequest hn msg t of
             Inl e \<Rightarrow> (Some (otherErr e), w)
           | Inr req \<Rightarrow> ht_httpDo hn req t w))"

section \<open>Receiving\<close>

definition ht_enter :: "HTTPTransporter \<Rightarrow> tr_error option" where
  "ht_enter t =
     (case ht_state t of
        notStartedState \<Rightarrow> Some errNotStarted
      | stoppedState \<Rightarrow> Some errTerminal
      | runningState \<Rightarrow> (if shouldQuit t then Some discardOnStopError else None))"

definition ht_next :: "HTTPTransporter \<Rightarrow> ((UPID \<times> string \<times> string) \<times> HTTPTransporter) option" where
  "ht_next t = (case messageQueue t of [] \<Rightarrow> None | m # rest \<Rightarrow> Some (m, t\<lparr>messageQueue := rest\<rparr>))"

definition header_get :: "http_header \<Rightarrow> string \<Rightarrow> string list option" where
  "header_get h k = map_of h k"

definition parseLibprocessAgent :: "http_header \<Rightarrow> string option" where
  "parseLibprocessAgent h =
     (case header_get h ''User-Agent'' of
        None \<Rightarrow> None
      | Some ua \<Rightarrow> map_option (drop (length ''libprocess/'')) (find (\<lambda>agent. HasPrefix agent ''libprocess/'') ua))"

text \<open>A header that is present has a value.\<close>

definition getLibprocessFrom :: "(string \<Rightarrow> bool) \<Rightarrow> lib_request \<Rightarrow> UPID option" where
  "getLibprocessFrom accepts r =
     (if lr_Method r \<noteq> ''POST'' then None
      else
        case parseLibprocessAgent (lr_Header r) of
          Some agent \<Rightarrow> upid_Parse accepts agent
        | None \<Rightarrow>
            (case header_get (lr_Header r) ''Libprocess-From'' of
               Some (lf # _) \<Rightarrow> upid_Parse accepts lf
             | _ \<Rightarrow> None))"

text \<open>
  What becomes of a request: no such path, a bad request, a wait for room in the queue, a panic, or it
  is taken, with the code of the response, if there is one, and whether the connection is kept.
\<close>

datatype served = NotFound | BadRequest | ServeWaits | ServePanics | Taken "nat option" bool HTTPTransporter

definition processOneRequest :: "UPID \<Rightarrow> lib_request \<Rightarrow> HTTPTransporter \<Rightarrow> served" where
  "processOneRequest sender r t =
     (case extractNameFromRequestURI (lr_URI r) of
        Panics \<Rightarrow> ServePanics
      | Returns name \<Rightarrow>
          (let room = (length (messageQueue t) < defaultQueueSize);
               t1 = (if room then t\<lparr>messageQueue := messageQueue t @ [(sender, name, lr_Body r)]\<rparr> else t);
               response = (if parseLibprocessAgent (lr_Header r) = None then Some 202 else None) in
           if shouldQuit t then Taken response False t1
           else if room then Taken response True t1
           else ServeWaits))"

definition messageDecoder :: "(string \<Rightarrow> bool) \<Rightarrow> lib_request \<Rightarrow> HTTPTransporter \<Rightarrow> served" where
  "messageDecoder accepts r t =
     (case getLibprocessFrom accepts r of
        None \<Rightarrow> BadRequest
      | Some sender \<Rightarrow> processOneRequest sender r t)"

definition ht_serve :: "(string \<Rightarrow> bool) \<Rightarrow> lib_request \<Rightarrow> HTTPTransporter \<Rightarrow> served" where
  "ht_serve accepts r t = (if lr_URI r \<notin> set (ht_mux t) then NotFound else messageDecoder accepts r t)"

section \<open>The transport of the messenger\<close>

text \<open>What the goroutines of the server do: serve a request, and stop the transport when the server fails.\<close>

inductive ht_own :: "'w Http_Net \<Rightarrow> (string \<Rightarrow> bool) \<Rightarrow> HTTPTransporter \<times> 'w \<Rightarrow> HTTPTransporter \<times> 'w \<Rightarrow> bool" for hn accepts where
  arrival: "ht_listening t \<Longrightarrow> ht_serve accepts r t = Taken response keep t1 \<Longrightarrow> ht_own hn accepts (t, w) (t1, w)"
| server_fails: "ht_listening t \<Longrightarrow> \<not> shouldQuit t \<Longrightarrow> ht_Stop hn t w = (Returns (err, t1), w1) \<Longrightarrow> ht_own hn accepts (t, w) (t1, w1)"

text \<open>A transport that was made and on which handlers were installed.\<close>

definition ht_fresh :: "HTTPTransporter \<Rightarrow> bool" where
  "ht_fresh t \<longleftrightarrow> (\<exists>pid address uris. t = (NewHTTPTransporter pid address)\<lparr>ht_mux := uris\<rparr>)"

text \<open>A stop is only asked for after a start, when the listener is there.\<close>

definition http_transporter ::
    "'w Http_Net \<Rightarrow> (string \<Rightarrow> bool) \<Rightarrow> ('m \<Rightarrow> string + string) \<Rightarrow> (string \<Rightarrow> string \<Rightarrow> 'm option) \<Rightarrow> ('m \<Rightarrow> string) \<Rightarrow>
     ('m, HTTPTransporter \<times> 'w) Transporter" where
  "http_transporter hn accepts enc dec name_of =
     \<lparr>tr_New = (\<lambda>(t, w). ht_fresh t),
      tr_Start = (\<lambda>(t, w). let ((r, t1), w1) = ht_Start hn t w in (r, t1, w1)),
      tr_Send = (\<lambda>msg (t, w). let (err, w1) = ht_Send hn msg t w in (err, t, w1)),
      tr_Enter = (\<lambda>(t, w). ht_enter t),
      tr_Next = (\<lambda>(t, w). map_option (\<lambda>(m, t1). (m, t1, w)) (ht_next t)),
      tr_Quits = (\<lambda>(t, w). shouldQuit t),
      tr_Stop = (\<lambda>(t, w). case ht_Stop hn t w of (Returns (err, t1), w1) \<Rightarrow> (err, t1, w1) | (Panics, w1) \<Rightarrow> (None, t, w1)),
      tr_Own = ht_own hn accepts,
      pb_Marshal = enc, pb_Unmarshal = dec, getMessageName = name_of\<rparr>"

section \<open>Lemmas: names and addresses\<close>

lemma extract_internal:
  assumes "CHR ''/'' \<notin> set (upid_ID pid)" "CHR ''/'' \<notin> set name" "\<not> isV1API name"
  shows "extractNameFromRequestURI (RequestURI pid name) = Returns name"
proof -
  have "Split (RequestURI pid name) CHR ''/'' = [[], upid_ID pid, name]"
    using assms Split_pair [of "CHR ''/''" "[]"] Split_pair [of "CHR ''/''" "upid_ID pid" name] Split_single [of "CHR ''/''" name]
    by (simp add: RequestURI_def)
  then show ?thesis by (simp add: extractNameFromRequestURI_def)
qed

lemma Install_serves:
  "ht_Install name t = Returns t' \<Longrightarrow> ht_state t \<noteq> stoppedState \<Longrightarrow> \<not> isV1API name \<Longrightarrow> RequestURI (ht_upid t) name \<in> set (ht_mux t')"
  by (auto simp: ht_Install_def ht_install_def RequestURI_def Let_def split: ht_state.splits if_splits)

definition plain_upid :: "UPID \<Rightarrow> bool" where
  "plain_upid u \<longleftrightarrow>
     CHR ''@'' \<notin> set (upid_ID u) \<and> CHR ''/'' \<notin> set (upid_ID u) \<and> set (upid_Host u) \<inter> set ''@:%[]'' = {} \<and>
     set (upid_Port u) \<inter> set ''@:[]'' = {}"

lemma libprocess_header:
  assumes "plain_upid (ht_upid t)" "accepts (upid_Host (ht_upid t) @ '':'' @ upid_Port (ht_upid t))" "\<not> isV1API (msg_Name msg)"
    "makeLibprocessRequest hn msg t = Inr req"
  shows "getLibprocessFrom accepts req = Some (ht_upid t)" "parseLibprocessAgent (lr_Header req) = None"
    "lr_URI req = RequestURI (msg_UPID msg) (msg_Name msg)" "lr_Body req = msg_Bytes msg"
proof -
  have req: "lr_Method req = ''POST''" "lr_URI req = RequestURI (msg_UPID msg) (msg_Name msg)" "lr_Body req = msg_Bytes msg"
    "lr_Header req = [(''Libprocess-From'', [upid_String (ht_upid t)]), (''Connection'', [''Keep-Alive'']),
       (''Content-Type'', [''application/x-protobuf''])]"
    using assms(3,4) by (auto simp: makeLibprocessRequest_def Let_def split: if_splits)
  then show "parseLibprocessAgent (lr_Header req) = None" by (simp add: parseLibprocessAgent_def header_get_def)
  then show "getLibprocessFrom accepts req = Some (ht_upid t)"
    using assms(1,2) req upid_roundtrip [of "ht_upid t" accepts]
    by (simp add: getLibprocessFrom_def header_get_def plain_upid_def)
  show "lr_URI req = RequestURI (msg_UPID msg) (msg_Name msg)" "lr_Body req = msg_Bytes msg" using req by simp_all
qed

section \<open>Lemmas: the transport under the messenger\<close>

definition ht_ok :: "HTTPTransporter \<Rightarrow> bool" where
  "ht_ok t \<longleftrightarrow> ht_state t = runningState \<and> ht_listening t \<and> \<not> shouldQuit t \<or> ht_state t = stoppedState \<and> shouldQuit t"

lemma serve_keeps: "ht_serve accepts r t = Taken response keep t1 \<Longrightarrow> ht_ok t \<Longrightarrow> ht_ok t1"
  by (auto simp: ht_serve_def messageDecoder_def processOneRequest_def Let_def ht_ok_def
      split: if_splits option.splits outcome.splits)

lemma Stop_keeps: "ht_Stop hn t w = (Returns (err, t1), w1) \<Longrightarrow> ht_ok t \<Longrightarrow> ht_ok t1 \<and> ht_state t1 = stoppedState"
  by (auto simp: ht_Stop_def ht_ok_def split: ht_state.splits if_splits prod.splits)

lemma Stop_returns_ok: "ht_ok t \<Longrightarrow> \<exists>err t1 w1. ht_Stop hn t w = (Returns (err, t1), w1)"
  by (auto simp: ht_Stop_def ht_ok_def split: prod.splits)

lemma own_keeps: "ht_own hn accepts p p' \<Longrightarrow> ht_ok (fst p) \<Longrightarrow> ht_ok (fst p')"
  by (induction rule: ht_own.induct) (auto dest: serve_keeps Stop_keeps)

lemma next_keeps: "ht_next t = Some (m, t1) \<Longrightarrow> ht_ok t \<Longrightarrow> ht_ok t1"
  by (auto simp: ht_next_def ht_ok_def split: list.splits)

lemma tr_Stop_http:
  "ht_ok (fst p) \<Longrightarrow> ht_ok (fst (snd (tr_Stop (http_transporter hn accepts enc dec name_of) p))) \<and>
     ht_state (fst (snd (tr_Stop (http_transporter hn accepts enc dec name_of) p))) = stoppedState"
  using Stop_returns_ok [of "fst p" hn "snd p"] Stop_keeps [of hn "fst p" "snd p"]
  by (auto simp: http_transporter_def split: prod.splits)

definition http_inv :: "('m, HTTPTransporter \<times> 'w) mm_sys \<Rightarrow> bool" where
  "http_inv st \<longleftrightarrow> ht_ok (fst (mm_world st)) \<and> (\<not> stopOnce (mm st) \<longrightarrow> mm_stop (mm st) = Some False \<and> \<not> mm_closing st)"

lemma http_stopping: "http_inv st \<Longrightarrow> http_inv (mm_stopping (http_transporter hn accepts enc dec name_of) st)"
  by (simp add: http_inv_def mm_stopping_def tr_Stop_http)

lemma dispatch_http:
  assumes "mm_dispatch (http_transporter hn accepts enc dec name_of) msg m p = (hs, p')"
  shows "fst p' = fst p"
  using assms by (cases p) (auto simp: mm_dispatch_def http_transporter_def split: prod.splits option.splits tr_error.splits)

lemma http_step_inv:
  assumes "mm_step (http_transporter hn accepts enc dec name_of) st st'" "http_inv st"
  shows "http_inv st'"
  using assms(1)
proof cases
  case (send session to msg m)
  then show ?thesis using assms(2) Send_queued(1) [OF send(3)] by (auto simp: http_inv_def)
next
  case (dispatch msg rest hs w1)
  then show ?thesis using assms(2) dispatch_http [OF dispatch(5)] by (simp add: http_inv_def)
next
  case (receive sender name bytes w1)
  then show ?thesis
    using assms(2) next_keeps by (auto simp: http_inv_def http_transporter_def split: prod.splits)
next
  case (transport w1)
  then have "ht_own hn accepts (mm_world st) w1" by (simp add: http_transporter_def)
  then show ?thesis using assms(2) transport(1) by (auto simp: http_inv_def dest: own_keeps)
next
  case stop_begins
  then show ?thesis using http_stopping [OF assms(2)] by simp
next
  case transport_ends
  then show ?thesis using http_stopping [OF assms(2)] by (simp add: http_inv_def)
qed (use assms(2) in \<open>auto simp: http_inv_def\<close>)

lemma Start_http:
  assumes "mm_Start (http_transporter hn accepts enc dec name_of) m p = ((None, m'), p')"
    and "ht_fresh (fst p)"
  shows "ht_ok (fst p') \<and> mm_stop m' = Some False \<and> stopOnce m' = stopOnce m"
proof -
  obtain t w where p: "p = (t, w)" by fastforce
  have t: "ht_state t = notStartedState" "\<not> shouldQuit t" using assms(2) p by (auto simp: ht_fresh_def NewHTTPTransporter_def)
  then show ?thesis
    using assms(1) unfolding p mm_Start_def http_transporter_def
    by (cases "ht_listen hn (t\<lparr>ht_state := runningState\<rparr>) w")
       (auto simp: ht_Start_def ht_listen_def ht_ok_def Let_def split: prod.splits sum.splits option.splits)
qed

lemma http_reachable_inv:
  assumes "mm_reachable (http_transporter hn accepts enc dec name_of) st"
  shows "http_inv st"
proof -
  let ?tr = "http_transporter hn accepts enc dec name_of"
  from assms have "mm_ts.reach ?tr st" by (simp add: mm_reachable_reach)
  then show ?thesis
  proof (induction rule: mm_ts.reach_induct)
    case (init s)
    then obtain names m w w1 where "tr_New ?tr w" "mm_Start ?tr (mm_New\<lparr>installedMessages := names\<rparr>) w = ((None, m), w1)"
      "mm s = m" "mm_world s = w1" "\<not> mm_closing s"
      unfolding mm_init_def by fastforce
    then show ?case
      using Start_http [of hn accepts enc dec name_of _ w m w1]
      by (auto simp: http_inv_def http_transporter_def)
  qed (rule http_step_inv)
qed

text \<open>A receive fails with an unexpected error exactly when the transport was stopped.\<close>

lemma enter_http: "ht_ok (fst p) \<Longrightarrow> mm_enter (http_transporter hn accepts enc dec name_of) p = EnterPanics \<longleftrightarrow> ht_state (fst p) = stoppedState"
  by (cases p) (auto simp: mm_enter_def http_transporter_def ht_enter_def ht_ok_def)

section \<open>Examples\<close>

definition demo_pid :: "string \<Rightarrow> UPID" where
  "demo_pid i = \<lparr>upid_ID = i, upid_Host = ''h'', upid_Port = ''5''\<rparr>"

definition demo_hn :: "unit Http_Net" where
  "demo_hn = \<lparr>hn_listen = (\<lambda>host port w. (Inr (host, port), w)), hn_close = (\<lambda>w. (None, w)), hn_url = (\<lambda>url. True),
     hn_do = (\<lambda>req w. ((Inr 202, False), w))\<rparr>"

definition demo_ht :: "string \<Rightarrow> HTTPTransporter" where
  "demo_ht i = (NewHTTPTransporter (demo_pid i) None)\<lparr>ht_state := runningState, ht_listening := True,
     ht_mux := [''/'' @ i @ ''/mesos.internal.X'']\<rparr>"

definition demo_message :: "unit Message" where
  "demo_message = \<lparr>msg_UPID = demo_pid ''b'', msg_Name = ''mesos.internal.X'', ProtoMessage = (), msg_Bytes = ''data'', msg_session = []\<rparr>"

definition demo_http :: "(unit, HTTPTransporter \<times> unit) Transporter" where
  "demo_http = http_transporter demo_hn (\<lambda>a. True) (\<lambda>m. Inr []) (\<lambda>n b. None) (\<lambda>m. ''mesos.internal.X'')"

definition demo_http_sys :: "(unit, HTTPTransporter \<times> unit) mm_sys" where
  "demo_http_sys = \<lparr>mm = mm_New\<lparr>mm_stop := Some False, mm_upid := demo_pid ''b''\<rparr>, sending = True, decoding = AtHead, watching = True,
     mm_closing = False, accepted = [], transmitted = [], handled_messages = [], mm_dead = False, mm_world = (demo_ht ''b'', ())\<rparr>"

lemma demo_http_reachable: "mm_reachable demo_http demo_http_sys"
proof -
  let ?t = "(NewHTTPTransporter (demo_pid ''b'') None)\<lparr>ht_mux := [''/b/mesos.internal.X'']\<rparr>"
  have "tr_New demo_http (?t, ())" by (auto simp: demo_http_def http_transporter_def ht_fresh_def)
  moreover have "mm_Start demo_http (mm_New\<lparr>installedMessages := []\<rparr>) (?t, ()) =
      ((None, mm_New\<lparr>mm_stop := Some False, mm_upid := demo_pid ''b''\<rparr>), (demo_ht ''b'', ()))"
    by (simp add: mm_Start_def demo_http_def http_transporter_def ht_Start_def ht_listen_def NewHTTPTransporter_def demo_hn_def
        demo_pid_def demo_ht_def mm_New_def)
  ultimately have "mm_init demo_http demo_http_sys" unfolding mm_init_def demo_http_sys_def by blast
  then show ?thesis unfolding mm_reachable_def by blast
qed

section \<open>Properties\<close>





end
