(* ===== verification/Master_Detector.thy ===== *)
theory Master_Detector
  imports Rpc_Zk Upid
begin

text \<open>
  The detectors of the leading master of mesos-go (\<open>detector/zoo/detect.go\<close>, \<open>detector/standalone.go\<close> and
  \<open>detector/factory.go\<close> of the vendored package), which tell the scheduler driver of a change of the
  master.  What an entry holds and how it is decoded are arguments.  The goroutine of a watch is a
  sequence of events: the children of the watched path, or the end of the watch.
\<close>

section \<open>The leading entry\<close>

fun top_node :: "string \<Rightarrow> string list \<Rightarrow> 64 word \<times> string \<Rightarrow> 64 word \<times> string" where
  "top_node pre [] best = best"
| "top_node pre (v # vs) (leaderSeq, node) =
     (if \<not> HasPrefix v pre then top_node pre vs (leaderSeq, node)
      else
        case ParseUint (TrimPrefix v pre) of
          None \<Rightarrow> top_node pre vs (leaderSeq, node)
        | Some seq \<Rightarrow> top_node pre vs (if seq < leaderSeq then (seq, v) else (leaderSeq, node)))"

definition selectTopNodePrefix :: "string list \<Rightarrow> string \<Rightarrow> string" where
  "selectTopNodePrefix list pre = snd (top_node pre list (- 1, []))"

datatype info_codec = JsonCodec | ProtobufCodec

definition selectTopNode :: "string list \<Rightarrow> string \<times> info_codec" where
  "selectTopNode list =
     (let topNode = selectTopNodePrefix list ''json.info_'' in
      if topNode = [] then (selectTopNodePrefix list ''info_'', ProtobufCodec) else (topNode, JsonCodec))"

section \<open>The ZooKeeper detector\<close>

text \<open>
  The client (the data of a path), the two decoders and the identifier of a master; listeners that
  want to hear of all masters are marked.
\<close>

record ('i, 'w) zk_client =
  zc_Data :: "string \<Rightarrow> 'w \<Rightarrow> string option \<times> 'w"
  zc_proto :: "string \<Rightarrow> 'i option"
  zc_json :: "string \<Rightarrow> 'i option"
  zc_id :: "'i \<Rightarrow> string"

record MasterDetector =
  md_bootstrapped :: bool
  ignoreInstalled :: bool
  leaderNode :: string

datatype 'i notification = MasterChanged "'i option" | UpdatedMasters "'i list"

definition pullInfo :: "('i, 'w) zk_client \<Rightarrow> info_codec \<Rightarrow> string \<Rightarrow> string \<Rightarrow> 'w \<Rightarrow> 'i option \<times> 'w" where
  "pullInfo zc codec path node w =
     (case zc_Data zc (path @ ''/'' @ node) w of
        (None, w1) \<Rightarrow> (None, w1)
      | (Some data, w1) \<Rightarrow> ((case codec of JsonCodec \<Rightarrow> zc_json zc data | ProtobufCodec \<Rightarrow> zc_proto zc data), w1))"

text \<open>The leader is recorded before its entry is read; an error only leaves the listener without a master.\<close>

definition notifyMasterChanged ::
    "('i, 'w) zk_client \<Rightarrow> string \<Rightarrow> string list \<Rightarrow> MasterDetector \<Rightarrow> 'w \<Rightarrow> (MasterDetector \<times> 'i notification list) \<times> 'w" where
  "notifyMasterChanged zc path list md w =
     (let (topNode, codec) = selectTopNode list in
      if leaderNode md = topNode then ((md, []), w)
      else
        let md1 = md\<lparr>leaderNode := topNode\<rparr>;
            (masterInfo, w1) = (if topNode \<noteq> [] then pullInfo zc codec path topNode w else (None, w)) in
        ((md1, [MasterChanged masterInfo]), w1))"

fun pull_all :: "('i, 'w) zk_client \<Rightarrow> string \<Rightarrow> string list \<Rightarrow> (string, 'i) gomap \<Rightarrow> 'w \<Rightarrow> (string, 'i) gomap \<times> 'w" where
  "pull_all zc path [] masters w = (masters, w)"
| "pull_all zc path (node # nodes) masters w =
     (if HasPrefix node ''info_'' \<or> HasPrefix node ''json.info_'' then
        (let (info, w1) = pullInfo zc (if HasPrefix node ''info_'' then ProtobufCodec else JsonCodec) path node w in
         pull_all zc path nodes (case info of None \<Rightarrow> masters | Some i \<Rightarrow> gm_put (zc_id zc i) i masters) w1)
      else pull_all zc path nodes masters w)"

definition notifyAllMasters ::
    "'w World \<Rightarrow> ('i, 'w) zk_client \<Rightarrow> bool \<Rightarrow> string \<Rightarrow> string list \<Rightarrow> 'w \<Rightarrow> 'i notification list \<times> 'w" where
  "notifyAllMasters io zc wants_all path list w =
     (if \<not> wants_all then ([], w)
      else
        let (masters, w1) = pull_all zc path list [] w;
            (ord, w2) = go_range io masters w1 in
        ([UpdatedMasters (map snd ord)], w2))"

definition childrenChanged ::
    "'w World \<Rightarrow> ('i, 'w) zk_client \<Rightarrow> bool \<Rightarrow> string \<Rightarrow> string list \<Rightarrow> MasterDetector \<Rightarrow> 'w \<Rightarrow>
     (MasterDetector \<times> 'i notification list) \<times> 'w" where
  "childrenChanged io zc wants_all path list md w =
     (let ((md1, ns1), w1) = notifyMasterChanged zc path list md w;
          (ns2, w2) = notifyAllMasters io zc wants_all path list w1 in
      ((md1, ns1 @ ns2), w2))"

text \<open>The end of a watch: the master is lost, unless the detector is done.\<close>

definition watch_lost :: "MasterDetector \<Rightarrow> MasterDetector \<times> 'i notification list" where
  "watch_lost md = (if leaderNode md \<noteq> [] then (md\<lparr>leaderNode := []\<rparr>, [MasterChanged None]) else (md, []))"

datatype watch_event = Children "string list" | WatchEnds "string list option"

text \<open>A turn of the loop of \<open>detect\<close>; children that arrive together with the end of the watch come first.\<close>

definition detect_turn ::
    "'w World \<Rightarrow> ('i, 'w) zk_client \<Rightarrow> bool \<Rightarrow> string \<Rightarrow> watch_event \<Rightarrow> MasterDetector \<Rightarrow> 'w \<Rightarrow>
     (MasterDetector \<times> 'i notification list) \<times> 'w" where
  "detect_turn io zc wants_all path ev md w =
     (case ev of
        Children cs \<Rightarrow> childrenChanged io zc wants_all path cs md w
      | WatchEnds tie \<Rightarrow>
          (let ((md1, ns1), w1) =
                 (case tie of None \<Rightarrow> ((md, []), w) | Some cs \<Rightarrow> childrenChanged io zc wants_all path cs md w);
               (md2, ns2) = watch_lost md1 in
           ((md2, ns1 @ ns2), w1)))"

fun detect ::
    "'w World \<Rightarrow> ('i, 'w) zk_client \<Rightarrow> bool \<Rightarrow> string \<Rightarrow> watch_event list \<Rightarrow> MasterDetector \<Rightarrow> 'w \<Rightarrow>
     (MasterDetector \<times> 'i notification list) \<times> 'w" where
  "detect io zc wants_all path [] md w = ((md, []), w)"
| "detect io zc wants_all path (ev # evs) md w =
     (let ((md1, ns1), w1) = detect_turn io zc wants_all path ev md w;
          ((md2, ns2), w2) = detect io zc wants_all path evs md1 w1 in
      ((md2, ns1 @ ns2), w2))"

text \<open>Whether \<open>Detect\<close> starts a goroutine: not after an error, and only once for a nil listener.\<close>

definition md_Detect :: "bool \<Rightarrow> bool \<Rightarrow> MasterDetector \<Rightarrow> bool \<times> bool \<times> MasterDetector" where
  "md_Detect connects has_listener md =
     (if \<not> md_bootstrapped md \<and> \<not> connects then (False, False, md)
      else
        let md1 = md\<lparr>md_bootstrapped := True\<rparr> in
        if has_listener then (True, True, md1)
        else if ignoreInstalled md1 then (True, False, md1)
        else (True, True, md1\<lparr>ignoreInstalled := True\<rparr>))"

definition NewMasterDetector :: MasterDetector where
  "NewMasterDetector = \<lparr>md_bootstrapped = False, ignoreInstalled = False, leaderNode = []\<rparr>"

section \<open>The standalone detector\<close>

record CreatedInfo =
  ci_Id :: string
  ci_Ip :: "32 word"
  ci_Port :: "32 word"
  ci_Pid :: string
  ci_Hostname :: "string option"

text \<open>
  The resolver: \<open>net.ParseIP\<close>, which gives sixteen bytes, and the IPv4 addresses of a host, of four bytes
  each.  \<open>binary.BigEndian.Uint32\<close> reads the first four bytes.
\<close>

definition bigEndian :: "nat list \<Rightarrow> 32 word" where
  "bigEndian bs = of_nat (foldl (\<lambda>n b. n * 256 + b) 0 (take 4 bs))"

definition CreateMasterInfo ::
    "(string \<Rightarrow> nat list option) \<Rightarrow> (string \<Rightarrow> nat list list option) \<Rightarrow> UPID option \<Rightarrow> CreatedInfo option" where
  "CreateMasterInfo parse lookup pid =
     (case pid of
        None \<Rightarrow> None
      | Some p \<Rightarrow>
          (case ParseInt (upid_Port p) of
             None \<Rightarrow> None
           | Some port \<Rightarrow>
               (let ip = (case parse (upid_Host p) of
                            Some bs \<Rightarrow> Some bs
                          | None \<Rightarrow> (case lookup (upid_Host p) of None \<Rightarrow> None | Some [] \<Rightarrow> None | Some (bs # _) \<Rightarrow> Some bs)) in
                case ip of
                  None \<Rightarrow> None
                | Some bs \<Rightarrow>
                    Some \<lparr>ci_Id = upid_ID p, ci_Ip = bigEndian bs, ci_Port = of_int port, ci_Pid = upid_String p,
                          ci_Hostname = (if upid_Host p \<noteq> [] then Some (upid_Host p) else None)\<rparr>)))"

text \<open>The address that is polled; \<open>None\<close> ends the poller.\<close>

definition poll_address :: "CreatedInfo option \<Rightarrow> string option" where
  "poll_address initial =
     (case initial of
        None \<Rightarrow> None
      | Some mi \<Rightarrow>
          (let host = (case ci_Hostname mi of None \<Rightarrow> [] | Some h \<Rightarrow> h);
               port = (if ci_Port mi \<noteq> 0 then unat (ci_Port mi) else 5050) in
           if host = [] \<and> ci_Ip mi = 0 then None
           else Some (JoinHostPort (if host \<noteq> [] then host else Join (map fmt_nat (ip_bytes False (ci_Ip mi))) ''.'') (fmt_nat port))))"

definition fetchPid :: "'w World \<Rightarrow> (string \<Rightarrow> bool) \<Rightarrow> string \<Rightarrow> 'w \<Rightarrow> UPID option \<times> 'w" where
  "fetchPid io accepts address w =
     (case http_get io (''http://'' @ address @ ''/state'') w of
        (HttpResp code (Some body), w1) \<Rightarrow>
          (if code \<noteq> 200 then (None, w1)
           else
             case unmarshal (dec_struct (\<lambda>l k v. if key_eq k ''leader'' then as_str l v else Some l) []) body of
               None \<Rightarrow> (None, w1)
             | Some leader \<Rightarrow> (upid_Parse accepts leader, w1))
      | (_, w1) \<Rightarrow> (None, w1))"

text \<open>
  What a turn of the poller meets: a leader, which a listener takes in time or not, the end of the time,
  which is reported until a listener takes it, or another error.
\<close>

datatype poll_event = Polled UPID bool | PollTimeout | PollError

fun poll_turn ::
    "(UPID option \<Rightarrow> CreatedInfo option) \<Rightarrow> poll_event \<Rightarrow> UPID option \<Rightarrow> UPID option \<times> CreatedInfo option list" where
  "poll_turn info (Polled pid heard) lastpid =
     (if upid_Equal (Some pid) lastpid then (lastpid, [])
      else (Some pid, if heard then [info (Some pid)] else []))"
| "poll_turn info PollTimeout lastpid = (if lastpid \<noteq> None then (None, [None]) else (lastpid, []))"
| "poll_turn info PollError lastpid = (lastpid, [])"

section \<open>The factory\<close>

text \<open>
  Files are read by the argument \<open>read_file\<close>; a file may name another file, and the chain may not end.
  \<open>plugin\<close> says whether a plugin matches.
\<close>

datatype master_spec = PluginSpec string | StandaloneSpec UPID

partial_function (option) detector_New ::
    "(string \<Rightarrow> string option) \<Rightarrow> (string \<Rightarrow> bool) \<Rightarrow> (string \<Rightarrow> bool) \<Rightarrow> string \<Rightarrow> (string + master_spec) option" where
  "detector_New read_file plugin accepts spec =
     (if HasPrefix spec ''file://'' then
        (case read_file (drop 7 spec) of
           None \<Rightarrow> Some (Inl ''failed to read file'')
         | Some body \<Rightarrow> detector_New read_file plugin accepts body)
      else if plugin spec then Some (Inr (PluginSpec spec))
      else if spec = [] then Some (Inl ''empty master specification'')
      else
        case upid_Parse accepts (if CHR ''@'' \<in> set spec then spec else ''master@'' @ spec) of
          None \<Rightarrow> Some (Inl ''invalid master'')
        | Some pid \<Rightarrow> Some (Inr (StandaloneSpec pid)))"

section \<open>Lemmas: the numbers of entries\<close>

definition seq_key :: "string \<Rightarrow> bool" where
  "seq_key k \<longleftrightarrow> length k = 10 \<and> list_all is_digit k"

lemma digit_val_Some: "is_digit c \<Longrightarrow> \<exists>d. digit_val c = Some d \<and> d = of_char c - 48 \<and> d < 10 \<and> 48 \<le> (of_char c :: nat)"
  by (auto simp: is_digit_def digit_val_def Let_def split: if_splits)

lemma digit_order: "is_digit c \<Longrightarrow> is_digit c' \<Longrightarrow> c < c' \<longleftrightarrow> the (digit_val c) < the (digit_val c')"
  using digit_val_Some [of c] digit_val_Some [of c'] by (auto simp: less_char_def)

text \<open>Digits of the same length compare as the numbers they denote.\<close>

lemma parse_digits_acc:
  assumes "list_all is_digit s"
  shows "\<exists>v. \<forall>acc. parse_digits acc s = Some (acc * 10 ^ length s + v) \<and> v < 10 ^ length s"
  using assms
proof (induction s)
  case (Cons c s)
  then obtain v where v: "\<And>acc. parse_digits acc s = Some (acc * 10 ^ length s + v)" "v < 10 ^ length s" by auto
  from Cons.prems obtain d where d: "digit_val c = Some d" "d < 10" using digit_val_Some [of c] by auto
  have "d * 10 ^ length s + v < 10 ^ length (c # s)"
  proof -
    have "d * 10 ^ length s + v < Suc d * 10 ^ length s" using v(2) by simp
    also have "\<dots> \<le> 10 * 10 ^ length s" using d(2) by (intro mult_right_mono) simp_all
    finally show ?thesis by simp
  qed
  then show ?case using v(1) d by (intro exI [of _ "d * 10 ^ length s + v"]) (simp add: algebra_simps)
qed simp

definition seq_num :: "string \<Rightarrow> nat" where
  "seq_num k = the (parse_digits 0 k)"

lemma parse_digits_seq:
  assumes "list_all is_digit s"
  shows "parse_digits acc s = Some (acc * 10 ^ length s + seq_num s)" "seq_num s < 10 ^ length s"
proof -
  obtain v where v: "\<And>acc. parse_digits acc s = Some (acc * 10 ^ length s + v)" "v < 10 ^ length s"
    using parse_digits_acc [OF assms] by blast
  have "seq_num s = v" unfolding seq_num_def v(1) [of 0] by simp
  then show "parse_digits acc s = Some (acc * 10 ^ length s + seq_num s)" "seq_num s < 10 ^ length s"
    using v by simp_all
qed

lemma seq_num_Cons:
  assumes "is_digit c" "list_all is_digit s"
  shows "seq_num (c # s) = the (digit_val c) * 10 ^ length s + seq_num s"
  unfolding seq_num_def [of "c # s"] using digit_val_Some [OF assms(1)] parse_digits_seq(1) [OF assms(2)] by auto

lemma seq_num_less:
  assumes "length a = length b" "list_all is_digit a" "list_all is_digit b" "a < b"
  shows "seq_num a < seq_num b"
  using assms
proof (induction a b rule: list_induct2)
  case (Cons x xs y ys)
  have n: "seq_num (x # xs) = the (digit_val x) * 10 ^ length ys + seq_num xs"
    "seq_num (y # ys) = the (digit_val y) * 10 ^ length ys + seq_num ys" "seq_num xs < 10 ^ length ys"
    using Cons.prems Cons.hyps seq_num_Cons [of x xs] seq_num_Cons [of y ys] parse_digits_seq(2) [of xs] by simp_all
  show ?case
  proof (cases "x = y")
    case True
    then show ?thesis using Cons n by simp
  next
    case False
    then have "the (digit_val x) < the (digit_val y)" using Cons.prems digit_order [of x y] by auto
    then have "Suc (the (digit_val x)) * 10 ^ length ys \<le> the (digit_val y) * 10 ^ length ys" by (intro mult_right_mono) simp_all
    then show ?thesis using n by simp
  qed
qed simp

lemma ParseUint_seq:
  assumes "seq_key k"
  shows "ParseUint k = Some (of_nat (seq_num k))" "seq_num k < 10000000000"
proof -
  have "parse_digits 0 k = Some (seq_num k)" "seq_num k < 10 ^ 10"
    using assms parse_digits_seq [of k] unfolding seq_key_def by auto
  then show "ParseUint k = Some (of_nat (seq_num k))" "seq_num k < 10000000000"
    using assms by (auto simp: ParseUint_def seq_key_def)
qed

lemma word_seq_less: "n < 10000000000 \<Longrightarrow> m < 10000000000 \<Longrightarrow> (of_nat n :: 64 word) < of_nat m \<longleftrightarrow> n < m"
  by (simp add: word_less_nat_alt unat_of_nat)

section \<open>Lemmas: the leading entry\<close>

lemma TrimPrefix_drop: "HasPrefix v pre \<Longrightarrow> TrimPrefix v pre = drop (length pre) v"
  by (simp add: TrimPrefix_def)

text \<open>The loop finds an entry whose number is smaller than those of all other entries.\<close>

lemma top_node_skips:
  assumes "\<And>v q. v \<in> set vs \<Longrightarrow> HasPrefix v pre \<Longrightarrow> ParseUint (TrimPrefix v pre) = Some q \<Longrightarrow> \<not> q < seq"
  shows "top_node pre vs (seq, x) = (seq, x)"
  using assms by (induction vs) (auto split: option.splits)

lemma top_node_finds:
  assumes "x \<in> set vs" "HasPrefix x pre" "ParseUint (TrimPrefix x pre) = Some seq" "seq < best"
    "\<And>v q. v \<in> set vs \<Longrightarrow> v \<noteq> x \<Longrightarrow> HasPrefix v pre \<Longrightarrow> ParseUint (TrimPrefix v pre) = Some q \<Longrightarrow> seq < q"
  shows "snd (top_node pre vs (best, n)) = x"
  using assms
proof (induction vs arbitrary: best n)
  case (Cons v vs)
  show ?case
  proof (cases "v = x")
    case True
    have "top_node pre vs (seq, x) = (seq, x)"
      using Cons.prems(3,5) by (intro top_node_skips) (metis list.set_intros(2) order_less_asym order_less_irrefl option.inject)
    then show ?thesis using True Cons.prems by simp
  next
    case False
    then have x: "x \<in> set vs" using Cons.prems(1) by auto
    have rest: "snd (top_node pre vs (b, m)) = x" if "seq < b" for b m
      using Cons.IH [OF x Cons.prems(2,3) that] Cons.prems(5) by auto
    show ?thesis
      using False rest Cons.prems(4) Cons.prems(5) [of v] by (auto split: option.splits)
  qed
qed simp

definition sequence_children :: "string list \<Rightarrow> bool" where
  "sequence_children cs \<longleftrightarrow> (\<forall>c \<in> set cs. \<forall>k. entry_key c = Some k \<longrightarrow> seq_key k) \<and> (\<exists>c \<in> set cs. entry_key c \<noteq> None)"

lemma lowest_key_least:
  assumes "sequence_children cs"
  shows "\<exists>c \<in> set cs. entry_key c = Some (lowest_key cs)" "c \<in> set cs \<Longrightarrow> entry_key c = Some k \<Longrightarrow> lowest_key cs \<le> k"
proof -
  let ?ks = "List.map_filter entry_key cs"
  have "set ?ks \<noteq> {}" using assms entry_keys_set [of cs] by (auto simp: sequence_children_def)
  then have m: "lowest_key cs = Min (set ?ks)" unfolding lowest_key_def by (intro hd_sort_Min) auto
  then have "lowest_key cs \<in> set ?ks" using \<open>set ?ks \<noteq> {}\<close> by simp
  then show "\<exists>c \<in> set cs. entry_key c = Some (lowest_key cs)" unfolding entry_keys_set by simp
  show "lowest_key cs \<le> k" if "c \<in> set cs" "entry_key c = Some k"
  proof -
    have "k \<in> set ?ks" unfolding entry_keys_set using that by blast
    then show ?thesis using m by simp
  qed
qed

lemma selectTopNodePrefix_lowest:
  assumes "sequence_children cs" "pre \<in> {''json.info_'', ''info_''}" "pre @ lowest_key cs \<in> set cs"
  shows "selectTopNodePrefix cs pre = pre @ lowest_key cs"
proof -
  let ?k = "lowest_key cs"
  have key: "entry_key (pre @ k) = Some k" for k using assms(2) entry_key_simps [of k] by blast
  have seq: "seq_key k" if "pre @ k \<in> set cs" for k using assms(1) that key by (auto simp: sequence_children_def)
  have "snd (top_node pre cs (- 1, [])) = pre @ ?k"
  proof (rule top_node_finds [OF assms(3), where seq = "of_nat (seq_num ?k)"])
    show "ParseUint (TrimPrefix (pre @ ?k) pre) = Some (of_nat (seq_num ?k))"
      using ParseUint_seq(1) [OF seq [OF assms(3)]] by (simp add: TrimPrefix_append)
    show "of_nat (seq_num ?k) < (- 1 :: 64 word)"
      using ParseUint_seq(2) [OF seq [OF assms(3)]] by (simp add: word_less_nat_alt unat_of_nat unsigned_minus_1_eq_mask mask_eq_exp_minus_1)
    fix v q
    assume v: "v \<in> set cs" "v \<noteq> pre @ ?k" "HasPrefix v pre" "ParseUint (TrimPrefix v pre) = Some q"
    then obtain k where k: "v = pre @ k" "k \<noteq> ?k" by (auto simp: HasPrefix_iff)
    have "?k < k" using lowest_key_least(2) [OF assms(1) v(1)] key k by (simp add: less_le)
    then have "seq_num ?k < seq_num k"
      using seq [of k] seq [OF assms(3)] v(1) k(1) by (intro seq_num_less) (auto simp: seq_key_def)
    moreover have "q = of_nat (seq_num k)" using v(4) k(1) ParseUint_seq(1) [OF seq] v(1) by (simp add: TrimPrefix_append)
    ultimately show "of_nat (seq_num ?k) < q"
      using word_seq_less ParseUint_seq(2) [OF seq] assms(3) v(1) k(1) by simp
  qed simp
  then show ?thesis by (simp add: selectTopNodePrefix_def)
qed

lemma selectTopNode_leader:
  assumes "sequence_children cs"
    "(\<exists>k. ''json.info_'' @ k \<in> set cs) \<Longrightarrow> ''json.info_'' @ lowest_key cs \<in> set cs"
  shows "selectTopNode cs =
    (leader_entry cs, if ''json.info_'' @ lowest_key cs \<in> set cs then JsonCodec else ProtobufCodec)"
proof (cases "\<exists>k. ''json.info_'' @ k \<in> set cs")
  case True
  then have "''json.info_'' @ lowest_key cs \<in> set cs" by (rule assms(2))
  then show ?thesis
    using selectTopNodePrefix_lowest [OF assms(1), of "''json.info_''"] by (simp add: selectTopNode_def leader_entry_def Let_def)
next
  case False
  then have "top_node ''json.info_'' cs (- 1, []) = (- 1, [])" by (intro top_node_skips) (auto simp: HasPrefix_iff)
  moreover have "''info_'' @ lowest_key cs \<in> set cs"
    using lowest_key_least(1) [OF assms(1)] entry_key_cases False by metis
  ultimately show ?thesis
    using selectTopNodePrefix_lowest [OF assms(1), of "''info_''"] False
    by (auto simp: selectTopNode_def selectTopNodePrefix_def leader_entry_def)
qed

section \<open>Lemmas: notifications\<close>

text \<open>What the leader is after an event, and the changes of the leader in a sequence of events.\<close>

fun event_leaders :: "watch_event \<Rightarrow> string list" where
  "event_leaders (Children cs) = [fst (selectTopNode cs)]"
| "event_leaders (WatchEnds None) = [[]]"
| "event_leaders (WatchEnds (Some cs)) = [fst (selectTopNode cs), []]"

definition leader_changes :: "string \<Rightarrow> string list \<Rightarrow> nat" where
  "leader_changes old ls = length (remdups_adj (old # ls)) - 1"

lemma remdups_adj_Cons2: "remdups_adj (a # b # xs) = (if a = b then remdups_adj (b # xs) else a # remdups_adj (b # xs))"
  by simp

lemma leader_changes_Cons: "leader_changes a (b # ls) = (if a = b then 0 else 1) + leader_changes b ls"
proof -
  have "0 < length (remdups_adj (b # ls))" by (simp add: remdups_adj_length_ge1)
  then show ?thesis by (simp add: leader_changes_def)
qed

lemma leader_changes_Nil: "leader_changes a [] = 0"
  by (simp add: leader_changes_def)

lemma leader_changes_append: "ls \<noteq> [] \<Longrightarrow> leader_changes a (ls @ ls') = leader_changes a ls + leader_changes (last ls) ls'"
  by (induction ls arbitrary: a) (auto simp: leader_changes_Cons leader_changes_Nil)

lemma notifyMasterChanged_leader:
  assumes "notifyMasterChanged zc path cs md w = ((md', ns), w')"
  shows "leaderNode md' = fst (selectTopNode cs) \<and> length ns = leader_changes (leaderNode md) [fst (selectTopNode cs)]"
  using assms
  by (auto simp: notifyMasterChanged_def leader_changes_Cons leader_changes_Nil Let_def split: prod.splits if_splits)

lemma childrenChanged_leader:
  assumes "childrenChanged io zc False path cs md w = ((md', ns), w')"
  shows "leaderNode md' = fst (selectTopNode cs) \<and> length ns = leader_changes (leaderNode md) [fst (selectTopNode cs)]"
  using assms notifyMasterChanged_leader [of zc path cs md w]
  by (auto simp: childrenChanged_def notifyAllMasters_def split: prod.splits)

lemma detect_turn_leader:
  assumes "detect_turn io zc False path ev md w = ((md', ns), w')"
  shows "leaderNode md' = last (event_leaders ev) \<and> length ns = leader_changes (leaderNode md) (event_leaders ev)"
  using assms
  by (cases ev rule: event_leaders.cases)
     (auto simp: detect_turn_def watch_lost_def leader_changes_Cons leader_changes_Nil Let_def
        dest!: childrenChanged_leader split: prod.splits if_splits)

lemma event_leaders_ne [simp]: "event_leaders ev \<noteq> []"
  by (cases ev rule: event_leaders.cases) simp_all

lemma detect_leader:
  assumes "detect io zc False path evs md w = ((md', ns), w')"
  shows "length ns = leader_changes (leaderNode md) (concat (map event_leaders evs)) \<and>
    leaderNode md' = last (leaderNode md # concat (map event_leaders evs))"
  using assms
proof (induction evs arbitrary: md w ns)
  case (Cons ev evs)
  obtain md1 ns1 w1 where t: "detect_turn io zc False path ev md w = ((md1, ns1), w1)" by (metis surj_pair)
  obtain ns2 where d: "detect io zc False path evs md1 w1 = ((md', ns2), w')" "ns = ns1 @ ns2"
    using Cons.prems t by (auto split: prod.splits)
  show ?case
    using Cons.IH [OF d(1)] detect_turn_leader [OF t] d(2)
    by (auto simp: leader_changes_append last_append)
qed (simp add: leader_changes_Nil)

lemma leader_changes_same: "(\<And>l. l \<in> set ls \<Longrightarrow> l = a) \<Longrightarrow> leader_changes a ls = 0"
  by (induction ls) (auto simp: leader_changes_Cons leader_changes_Nil)

text \<open>A change that no listener takes in time is not reported again.\<close>

lemma unheard_change_lost:
  assumes "poll_turn info (Polled pid False) lastpid = (lastpid', ns)"
  shows "ns = [] \<and> poll_turn info (Polled pid heard) lastpid' = (lastpid', [])"
  using assms by (auto simp: upid_Equal_Some split: if_splits)

text \<open>\<open>net.ParseIP\<close> gives an IPv4 address as sixteen bytes that start with zeros, so the packed address is zero.\<close>

lemma CreateMasterInfo_literal:
  assumes "parse (upid_Host p) = Some ([0, 0, 0, 0, 0, 0, 0, 0, 0, 0, 255, 255, a, b, c, d])" "ParseInt (upid_Port p) = Some port"
  shows "\<exists>mi. CreateMasterInfo parse lookup (Some p) = Some mi \<and> ci_Ip mi = 0 \<and> ci_Pid mi = upid_String p"
  using assms by (simp add: CreateMasterInfo_def bigEndian_def)

text \<open>A file that names itself is read without end.\<close>

lemma detector_New_self:
  assumes "detector_New read_file plugin accepts spec = Some r"
  shows "\<not> (HasPrefix spec ''file://'' \<and> read_file (drop 7 spec) = Some spec)"
proof (rule detector_New.raw_induct
    [where P = "\<lambda>read_file plugin accepts spec r. \<not> (HasPrefix spec ''file://'' \<and> read_file (drop 7 spec) = Some spec)", OF _ assms],
    rule notI, erule conjE, goal_cases)
  case (1 f read_file plugin accepts spec r)
  have "f read_file plugin accepts spec = Some r" using 1(2) unfolding 1(4) by (simp add: 1(3))
  from 1(1) [OF this] show False using 1(3,4) by simp
qed

lemma detector_New_loops:
  assumes "HasPrefix spec ''file://''" "read_file (drop 7 spec) = Some spec"
  shows "detector_New read_file plugin accepts spec = None"
  using assms detector_New_self [of read_file plugin accepts spec]
  by (cases "detector_New read_file plugin accepts spec") blast+

section \<open>Properties\<close>

text \<open>
  C26 (equivalence): the scheduler and its driver look for the leading master in ZooKeeper with two
  pieces of code, which agree: the entry the rpc package reads, and how it decodes it, is the one the
  detector of the driver selects, if the sequence numbers are those of ZooKeeper, ten digits each, and
  the lowest number has a JSON entry wherever there are JSON entries at all.
\<close>

theorem detector_agrees:
  assumes "sequence_children cs" "master_children cs"
    "(\<exists>k. ''json.info_'' @ k \<in> set cs) \<Longrightarrow> ''json.info_'' @ lowest_key cs \<in> set cs"
  shows "\<exists>w1. masterInfoFromZKNodes io cs ng (infoCodecs pu) w =
    (case ng (fst (selectTopNode cs)) w1 of
       (Inl e, w2) \<Rightarrow> (Returns (Inl e), w2)
     | (Inr rawData, w2) \<Rightarrow>
         (case (case snd (selectTopNode cs) of JsonCodec \<Rightarrow> unmarshal dec_MasterInfo rawData | ProtobufCodec \<Rightarrow> pu rawData) of
            None \<Rightarrow> (Returns (Inl ErrJSON), w2)
          | Some info \<Rightarrow> (Returns (Inr (info, rawData)), w2)))"
proof -
  have top: "fst (selectTopNode cs) = leader_entry cs"
    and dec: "(case snd (selectTopNode cs) of JsonCodec \<Rightarrow> unmarshal dec_MasterInfo rawData | ProtobufCodec \<Rightarrow> pu rawData) =
      entry_decoder pu (leader_entry cs) rawData" for rawData
    using selectTopNode_leader [OF assms(1,3)] by (auto simp: leader_entry_def entry_decoder_def HasPrefix_def)
  then show ?thesis using masterInfoFromZKNodes_leader [OF assms(2), of io ng pu w] unfolding top dec by simp
qed

definition demo_children :: "string list" where
  "demo_children = [''log_replicas'', ''info_0000000007'', ''json.info_0000000007'', ''info_0000000009'']"

lemma demo_children_keys:
  "map entry_key demo_children = [None, Some ''0000000007'', Some ''0000000007'', Some ''0000000009'']"
  by code_simp

lemma demo_children_lowest: "lowest_key demo_children = ''0000000007''"
  using demo_children_keys by (simp add: lowest_key_def List.map_filter_def demo_children_def)

lemma demo_children_ok: "sequence_children demo_children" "master_children demo_children"
proof -
  have "seq_key ''0000000007''" "seq_key ''0000000009''" by code_simp+
  then show "sequence_children demo_children" "master_children demo_children"
    using demo_children_keys by (simp_all add: sequence_children_def master_children_def demo_children_def)
qed

lemma demo_children_json: "''json.info_0000000007'' \<in> set demo_children"
  by (simp add: demo_children_def)

lemma demo_children_top: "selectTopNode demo_children = (''json.info_0000000007'', JsonCodec)"
  using selectTopNode_leader [OF demo_children_ok(1)] demo_children_json
  by (simp add: demo_children_lowest leader_entry_def)

theorem detector_agrees_witness:
  "\<exists>w1. masterInfoFromZKNodes demo_world demo_children (\<lambda>node w. (Inr node, w)) (infoCodecs (\<lambda>_. None)) 0 = (Returns (Inl ErrJSON), w1) \<and>
    selectTopNode demo_children = (''json.info_0000000007'', JsonCodec)"
proof -
  have "''json.info_'' @ lowest_key demo_children \<in> set demo_children"
    using demo_children_json by (simp add: demo_children_lowest)
  moreover have "unmarshal dec_MasterInfo ''json.info_0000000007'' = None" by code_simp
  ultimately show ?thesis
    using detector_agrees [OF demo_children_ok, of demo_world "\<lambda>node w. (Inr node, w)" "\<lambda>_. None" 0] demo_children_top by simp
qed

text \<open>Without that condition they can disagree: the detector prefers any JSON entry.\<close>

lemma mixed_masters_disagree:
  "fst (selectTopNode [''info_0000000001'', ''json.info_0000000002'']) = ''json.info_0000000002'' \<and>
   leader_entry [''info_0000000001'', ''json.info_0000000002''] = ''info_0000000001''"
proof
  have "seq_key ''0000000002''" "seq_num ''0000000002'' = 2" by code_simp+
  then have "ParseUint ''0000000002'' = Some 2" using ParseUint_seq(1) by fastforce
  then show "fst (selectTopNode [''info_0000000001'', ''json.info_0000000002'']) = ''json.info_0000000002''"
    by (simp add: selectTopNode_def selectTopNodePrefix_def HasPrefix_def TrimPrefix_def word_order.extremum_strict)
qed code_simp

text \<open>
  C27 (functional): the ZooKeeper detector tells its listener of a change of the leading entry once, and of
  nothing else: over any sequence of events, with ends of the watch in between, the number of
  notifications is the number of times the leader differs from the one before, and the detector has
  recorded the last leader.
\<close>

theorem detector_notifies_changes:
  "detect io zc False path evs NewMasterDetector w = ((md, ns), w') \<Longrightarrow>
   length ns = length (remdups_adj ([] # concat (map event_leaders evs))) - 1 \<and>
   leaderNode md = last ([] # concat (map event_leaders evs))"
  using detect_leader [of io zc path evs NewMasterDetector w md ns w'] by (simp add: NewMasterDetector_def leader_changes_def)

definition demo_zc :: "(string, nat) zk_client" where
  "demo_zc = \<lparr>zc_Data = (\<lambda>path w. (None, w)), zc_proto = Some, zc_json = Some, zc_id = id\<rparr>"

theorem detector_notifies_changes_witness:
  "\<exists>md ns w'. detect demo_world demo_zc False ''/mesos'' [Children demo_children, Children demo_children, WatchEnds None] NewMasterDetector 0 =
     ((md, ns), w') \<and> length ns = 2 \<and> leaderNode md = []"
proof -
  obtain md ns w' where d: "detect demo_world demo_zc False ''/mesos'' [Children demo_children, Children demo_children, WatchEnds None]
      NewMasterDetector 0 = ((md, ns), w')" by (metis surj_pair)
  show ?thesis using detector_notifies_changes [OF d] d demo_children_top by simp
qed



end
