(* ===== verification/Etcd_Client.thy ===== *)
theory Etcd_Client
  imports Rpc_Membership "HOL-Library.List_Lexorder" "HOL-Library.Char_ord"
begin

text \<open>
  The go-etcd client of the vendored sources (\<open>coreos/go-etcd/etcd\<close>), which the health check and the
  ranking of candidates for a reseed use: the list of machines and the one that is picked
  (\<open>cluster.go\<close>, \<open>shuffle.go\<close>), the paths and parameters of a request (\<open>requests.go\<close>, \<open>options.go\<close>),
  the loop of \<open>SendRequest\<close> with its retries and redirects, the decoding of an answer
  (\<open>response.go\<close>, \<open>error.go\<close>), the synchronisation of the machines (\<open>client.go\<close>, \<open>member.go\<close>) and the
  operations on keys.  Requests that can be cancelled, watches, cURL commands and TLS are left out, and a
  client has no \<open>CheckRetry\<close> of its own: etcd-mesos uses none of them.
\<close>

section \<open>The environment\<close>

text \<open>
  Requests, random numbers, pauses in milliseconds, and three parsers: whether \<open>http.NewRequest\<close>
  accepts an address, what \<open>url.Parse\<close> makes of it (scheme, path and the address with another scheme
  and path), and whether the body of an answer decodes as a \<open>Response\<close>.
\<close>

datatype read_result = ReadOk string | ReadEOF | ReadErr

record etcd_request =
  rq_Method :: http_method
  rq_URL :: string
  rq_Body :: "string option"
  rq_Auth :: "(string \<times> string) option"

record etcd_response =
  rs_StatusCode :: nat
  rs_Body :: read_result
  rs_Header :: "string \<Rightarrow> string"
  rs_Location :: "string option"

record 'w EtcdNet =
  en_Do :: "etcd_request \<Rightarrow> 'w \<Rightarrow> etcd_response option \<times> 'w"
  en_Perm :: "nat \<Rightarrow> 'w \<Rightarrow> nat list \<times> 'w"
  en_Intn :: "nat \<Rightarrow> 'w \<Rightarrow> nat \<times> 'w"
  en_After :: "nat \<Rightarrow> 'w \<Rightarrow> 'w"
  en_accepts :: "string \<Rightarrow> bool"
  en_Parse :: "string \<Rightarrow> (string \<times> string \<times> (string \<Rightarrow> string \<Rightarrow> string)) option"
  en_Decode :: "string \<Rightarrow> bool"

text \<open>
  \<open>rand.Perm\<close> gives a permutation and \<open>rand.Intn\<close> a number below its argument; an answer of the
  environment that is none stands for another one.
\<close>

definition rand_Perm :: "'w EtcdNet \<Rightarrow> nat \<Rightarrow> 'w \<Rightarrow> nat list \<times> 'w" where
  "rand_Perm en n w = (let (p, w1) = en_Perm en n w in (if mset p = mset [0..<n] then p else [0..<n], w1))"

definition rand_Intn :: "'w EtcdNet \<Rightarrow> nat \<Rightarrow> 'w \<Rightarrow> nat \<times> 'w" where
  "rand_Intn en n w = (let (k, w1) = en_Intn en n w in (k mod n, w1))"

section \<open>The cluster\<close>

definition shuffleStringSlice :: "'w EtcdNet \<Rightarrow> string list \<Rightarrow> 'w \<Rightarrow> string list \<times> 'w" where
  "shuffleStringSlice en cards w =
     (if length cards \<le> 1 then (cards, w)
      else
        let (index, w1) = rand_Perm en (length cards) w in
        (fold (\<lambda>i shuffled. shuffled[index ! i := cards ! i]) [0..<length cards] (replicate (length cards) []), w1))"

record Cluster =
  cl_Leader :: string
  cl_Machines :: "string list"
  cl_picked :: nat

definition NewCluster :: "'w EtcdNet \<Rightarrow> string list \<Rightarrow> 'w \<Rightarrow> Cluster \<times> 'w" where
  "NewCluster en machines w =
     (let (ms, w1) = shuffleStringSlice en (if machines = [] then [''http://127.0.0.1:4001''] else machines) w;
          (k, w2) = rand_Intn en (length ms) w1 in
      (\<lparr>cl_Leader = [], cl_Machines = ms, cl_picked = k\<rparr>, w2))"

text \<open>Both panic on an empty list of machines: the index and the divisor.\<close>

definition cl_failure :: "Cluster \<Rightarrow> Cluster outcome" where
  "cl_failure cl =
     (if cl_Machines cl = [] then Panics
      else Returns (cl\<lparr>cl_picked := (cl_picked cl + 1) mod length (cl_Machines cl)\<rparr>))"

definition cl_pick :: "Cluster \<Rightarrow> string outcome" where
  "cl_pick cl = (if cl_picked cl < length (cl_Machines cl) then Returns (cl_Machines cl ! cl_picked cl) else Panics)"

definition TrimSpace :: "string \<Rightarrow> string" where
  "TrimSpace s = rev (dropWhile is_space (rev (dropWhile is_space s)))"

definition updateFromStr :: "'w EtcdNet \<Rightarrow> string \<Rightarrow> Cluster \<Rightarrow> 'w \<Rightarrow> Cluster \<times> 'w" where
  "updateFromStr en machines cl w =
     (let (ms, w1) = shuffleStringSlice en (map TrimSpace (Split machines CHR '','')) w;
          (k, w2) = rand_Intn en (length ms) w1 in
      (cl\<lparr>cl_Machines := ms, cl_picked := k\<rparr>, w2))"

section \<open>Paths and parameters\<close>

text \<open>\<open>path.Clean\<close> and \<open>path.Join\<close>.\<close>

definition clean_step :: "bool \<Rightarrow> string list \<Rightarrow> string \<Rightarrow> string list" where
  "clean_step rooted out c =
     (if c = [] \<or> c = ''.'' then out
      else if c = ''..'' then
        (if out \<noteq> [] \<and> last out \<noteq> ''..'' then butlast out else if rooted then out else out @ [c])
      else out @ [c])"

definition path_Clean :: "string \<Rightarrow> string" where
  "path_Clean s =
     (let rooted = HasPrefix s ''/'';
          r = Join (foldl (clean_step rooted) [] (Split s CHR ''/'')) ''/'' in
      if rooted then ''/'' @ r else if r = [] then ''.'' else r)"

definition path_Join :: "string list \<Rightarrow> string" where
  "path_Join elems = (case dropWhile (\<lambda>e. e = []) elems of [] \<Rightarrow> [] | es \<Rightarrow> path_Clean (Join es ''/''))"

text \<open>\<open>url.QueryEscape\<close>, and \<open>strings.Replace\<close> of an escaped slash.\<close>

definition unreserved :: "char \<Rightarrow> bool" where
  "unreserved c \<longleftrightarrow>
     (let k = of_char c :: nat in (48 \<le> k \<and> k \<le> 57) \<or> (65 \<le> k \<and> k \<le> 90) \<or> (97 \<le> k \<and> k \<le> 122)) \<or>
     c \<in> {CHR ''-'', CHR ''_'', CHR ''.'', CHR ''~''}"

definition hex_upper :: "nat \<Rightarrow> char" where
  "hex_upper d = char_of (if d < 10 then 48 + d else 55 + d)"

definition escape :: "char \<Rightarrow> string" where
  "escape c =
     (if unreserved c then [c]
      else if c = CHR '' '' then ''+''
      else let k = of_char c :: nat in [CHR ''%'', hex_upper (k div 16), hex_upper (k mod 16)])"

definition QueryEscape :: "string \<Rightarrow> string" where
  "QueryEscape s = concat (map escape s)"

fun replace_slash :: "string \<Rightarrow> string" where
  "replace_slash [] = []"
| "replace_slash (c # cs) =
     (if HasPrefix (c # cs) ''%2F'' then CHR ''/'' # replace_slash (drop 2 cs) else c # replace_slash cs)"

definition keyToPath :: "string \<Rightarrow> string" where
  "keyToPath key =
     (let p = replace_slash (QueryEscape (path_Join [''keys'', key])) in if p = ''keys'' then ''keys/'' else p)"

text \<open>\<open>url.Values\<close> with one value for a key; \<open>Encode\<close> sorts the keys.\<close>

definition values_Encode :: "(string, string) gomap \<Rightarrow> string" where
  "values_Encode vs = Join (map (\<lambda>(k, v). QueryEscape k @ ''='' @ QueryEscape v) (sort_key fst vs)) ''&''"

definition buildValues :: "string \<Rightarrow> 64 word \<Rightarrow> (string, string) gomap" where
  "buildValues v ttl =
     (let vs = (if v \<noteq> [] then gm_put ''value'' v [] else []) in
      if 0 < ttl then gm_put ''ttl'' (fmt_nat (unat ttl)) vs else vs)"

datatype option_value = OptBool bool | OptUint "64 word" | OptString string

datatype option_kind = BoolKind | Uint64Kind | StringKind

fun kind_of :: "option_value \<Rightarrow> option_kind" where
  "kind_of (OptBool _) = BoolKind"
| "kind_of (OptUint _) = Uint64Kind"
| "kind_of (OptString _) = StringKind"

fun option_text :: "option_value \<Rightarrow> string" where
  "option_text (OptBool b) = (if b then ''true'' else ''false'')"
| "option_text (OptUint n) = fmt_nat (unat n)"
| "option_text (OptString s) = s"

definition VALID_GET_OPTIONS :: "(string, option_kind) gomap" where
  "VALID_GET_OPTIONS =
     [(''recursive'', BoolKind), (''quorum'', BoolKind), (''sorted'', BoolKind), (''wait'', BoolKind), (''waitIndex'', Uint64Kind)]"

definition VALID_PUT_OPTIONS :: "(string, option_kind) gomap" where
  "VALID_PUT_OPTIONS =
     [(''prevValue'', StringKind), (''prevIndex'', Uint64Kind), (''prevExist'', BoolKind), (''dir'', BoolKind)]"

definition VALID_DELETE_OPTIONS :: "(string, option_kind) gomap" where
  "VALID_DELETE_OPTIONS =
     [(''recursive'', BoolKind), (''dir'', BoolKind), (''prevValue'', StringKind), (''prevIndex'', Uint64Kind)]"

datatype etcd_error =
    EtcdNotReachable | UnhandledHTTPStatus nat | BadAddress | BadBody
  | InvalidOption string | WrongKind string | MissingPrev
  | EtcdError int string string "64 word"

fun set_options :: "(string, option_kind) gomap \<Rightarrow> (string \<times> option_value) list \<Rightarrow> (string, string) gomap \<Rightarrow>
    etcd_error + (string, string) gomap" where
  "set_options valid [] vs = Inr vs"
| "set_options valid ((k, v) # ops) vs =
     (case gm_get valid k of
        None \<Rightarrow> Inl (InvalidOption k)
      | Some kind \<Rightarrow> if kind \<noteq> kind_of v then Inl (WrongKind k) else set_options valid ops (gm_put k (option_text v) vs))"

definition toParameters ::
    "'w World \<Rightarrow> (string, option_kind) gomap \<Rightarrow> (string, option_value) gomap option \<Rightarrow> 'w \<Rightarrow> (etcd_error + string) \<times> 'w" where
  "toParameters io valid ops w =
     (case ops of
        None \<Rightarrow> (Inr [], w)
      | Some m \<Rightarrow>
          (let (ord, w1) = go_range io m w in
           (case set_options valid ord [] of Inl e \<Rightarrow> (Inl e, w1) | Inr vs \<Rightarrow> (Inr (''?'' @ values_Encode vs), w1))))"

section \<open>SendRequest\<close>

record RawRequest =
  rr_Method :: http_method
  rr_RelativePath :: string
  rr_Values :: "(string, string) gomap option"

record RawResponse =
  raw_StatusCode :: nat
  raw_Body :: string
  raw_Header :: "string \<Rightarrow> string"

definition validHttpStatusCode :: "nat \<Rightarrow> bool" where
  "validHttpStatusCode st \<longleftrightarrow> st \<in> {201, 200, 400, 404, 412, 403, 401}"

definition shouldRetry :: "nat \<Rightarrow> bool" where
  "shouldRetry st \<longleftrightarrow> st = 500"

text \<open>The status is zero where there is no response.\<close>

definition DefaultCheckRetry :: "'w EtcdNet \<Rightarrow> Cluster \<Rightarrow> nat \<Rightarrow> nat \<Rightarrow> 'w \<Rightarrow> etcd_error option \<times> 'w" where
  "DefaultCheckRetry en cl numReqs st w =
     (if 2 * length (cl_Machines cl) < numReqs then (Some EtcdNotReachable, w)
      else if st = 0 then (None, w)
      else if \<not> shouldRetry st then (Some (UnhandledHTTPStatus st), w)
      else (None, en_After en 200 w))"

definition getHttpPath :: "Cluster \<Rightarrow> string \<Rightarrow> string outcome" where
  "getHttpPath cl seg = (case cl_pick cl of Panics \<Rightarrow> Panics | Returns m \<Rightarrow> Returns (m @ ''/v2/'' @ seg))"

record send_state =
  ss_attempt :: nat
  ss_sleep :: nat
  ss_numReqs :: nat
  ss_httpPath :: string
  ss_cluster :: Cluster
  ss_sent :: "etcd_request list"

type_synonym send_result = "(etcd_error + RawResponse) outcome"

text \<open>What is made of an answer to a request: a result, or \<open>None\<close> to go on.\<close>

fun send_answer :: "'w EtcdNet \<Rightarrow> send_state \<Rightarrow> etcd_response option \<Rightarrow> 'w \<Rightarrow> (send_result option \<times> send_state) \<times> 'w" where
  "send_answer en s None w =
     (case DefaultCheckRetry en (ss_cluster s) (ss_numReqs s) 0 w of
        (Some e, w1) \<Rightarrow> ((Some (Returns (Inl e)), s), w1)
      | (None, w1) \<Rightarrow>
          (case cl_failure (ss_cluster s) of
             Panics \<Rightarrow> ((Some Panics, s), w1)
           | Returns cl \<Rightarrow> ((None, s\<lparr>ss_cluster := cl\<rparr>), w1)))"
| "send_answer en s (Some r) w =
     (case (if validHttpStatusCode (rs_StatusCode r)
            then (case rs_Body r of ReadOk b \<Rightarrow> Some b | ReadEOF \<Rightarrow> Some [] | ReadErr \<Rightarrow> None) else None) of
        Some b \<Rightarrow> ((Some (Returns (Inr \<lparr>raw_StatusCode = rs_StatusCode r, raw_Body = b, raw_Header = rs_Header r\<rparr>)), s), w)
      | None \<Rightarrow>
          if rs_StatusCode r = 307
          then ((None, s\<lparr>ss_httpPath := (case rs_Location r of None \<Rightarrow> [] | Some u \<Rightarrow> u)\<rparr>), w)
          else
            (case DefaultCheckRetry en (ss_cluster s) (ss_numReqs s) (rs_StatusCode r) w of
               (Some e, w1) \<Rightarrow> ((Some (Returns (Inl e)), s), w1)
             | (None, w1) \<Rightarrow> ((None, s), w1)))"

text \<open>A turn of the loop.  The requests sent are kept in order.\<close>

definition send_turn ::
    "'w EtcdNet \<Rightarrow> (string \<times> string) option \<Rightarrow> RawRequest \<Rightarrow> send_state \<Rightarrow> 'w \<Rightarrow> (send_result option \<times> send_state) \<times> 'w" where
  "send_turn en auth rr s w =
     (let (sleep1, w0) =
            (if 0 < ss_attempt s then (min (2 * ss_sleep s) 1000, en_After en (ss_sleep s) w) else (ss_sleep s, w)) in
      case (if ss_httpPath s \<noteq> [] then Returns (ss_httpPath s) else getHttpPath (ss_cluster s) (rr_RelativePath rr)) of
        Panics \<Rightarrow> ((Some Panics, s), w0)
      | Returns p \<Rightarrow>
          if \<not> en_accepts en p then ((Some (Returns (Inl BadAddress)), s), w0)
          else
            let req = \<lparr>rq_Method = rr_Method rr, rq_URL = p, rq_Body = map_option values_Encode (rr_Values rr), rq_Auth = auth\<rparr>;
                (resp, w1) = en_Do en req w0 in
            send_answer en
              (s\<lparr>ss_attempt := Suc (ss_attempt s), ss_sleep := sleep1, ss_numReqs := Suc (ss_numReqs s),
                 ss_httpPath := [], ss_sent := ss_sent s @ [req]\<rparr>) resp w1)"

text \<open>The loop has no bound of its own, and a server can redirect for ever: not to return is \<open>None\<close>.\<close>

partial_function (option) send_loop ::
    "'w EtcdNet \<Rightarrow> (string \<times> string) option \<Rightarrow> RawRequest \<Rightarrow> send_state \<Rightarrow> 'w \<Rightarrow> (send_result \<times> send_state \<times> 'w) option" where
  "send_loop en auth rr s w =
     (case send_turn en auth rr s w of
        ((Some r, s1), w1) \<Rightarrow> Some (r, s1, w1)
      | ((None, s1), w1) \<Rightarrow> send_loop en auth rr s1 w1)"

definition SendRequest ::
    "'w EtcdNet \<Rightarrow> (string \<times> string) option \<Rightarrow> RawRequest \<Rightarrow> Cluster \<Rightarrow> 'w \<Rightarrow>
     (send_result \<times> send_state \<times> 'w) option" where
  "SendRequest en auth rr cl w =
     send_loop en auth rr
       \<lparr>ss_attempt = 0, ss_sleep = 25, ss_numReqs = 1, ss_httpPath = [], ss_cluster = cl, ss_sent = []\<rparr> w"

section \<open>The client\<close>

record EtcdClient =
  ec_cluster :: Cluster
  ec_Consistency :: string
  ec_credentials :: "(string \<times> string) option"

definition NewClient :: "'w EtcdNet \<Rightarrow> string list \<Rightarrow> 'w \<Rightarrow> EtcdClient \<times> 'w" where
  "NewClient en machines w =
     (let (cl, w1) = NewCluster en machines w in
      (\<lparr>ec_cluster = cl, ec_Consistency = ''WEAK'', ec_credentials = None\<rparr>, w1))"

definition SetCredentials :: "string \<Rightarrow> string \<Rightarrow> EtcdClient \<Rightarrow> EtcdClient" where
  "SetCredentials username password c = c\<lparr>ec_credentials := Some (username, password)\<rparr>"

definition SetConsistency :: "string \<Rightarrow> EtcdClient \<Rightarrow> bool \<times> EtcdClient" where
  "SetConsistency consistency c =
     (if consistency = ''STRONG'' \<or> consistency = ''WEAK'' then (True, c\<lparr>ec_Consistency := consistency\<rparr>) else (False, c))"

text \<open>What a call gives: its result, the client afterwards and the requests sent; \<open>None\<close> where it does not return.\<close>

type_synonym ('r, 'w) client_call = "((etcd_error + 'r) outcome \<times> EtcdClient \<times> etcd_request list \<times> 'w) option"

text \<open>
  The shape \<open>get\<close>, \<open>put\<close> and \<open>delete\<close> share; \<open>post\<close> has no parameters.  The first \<open>pick\<close> is that of the
  debug message.
\<close>

definition raw_request ::
    "'w World \<Rightarrow> 'w EtcdNet \<Rightarrow> http_method \<Rightarrow> (string, option_kind) gomap \<Rightarrow> (string, string) gomap option \<Rightarrow>
     EtcdClient \<Rightarrow> string \<Rightarrow> (string, option_value) gomap option \<Rightarrow> 'w \<Rightarrow> (RawResponse, 'w) client_call" where
  "raw_request io en meth valid vals c key ops w =
     (case cl_pick (ec_cluster c) of
        Panics \<Rightarrow> Some (Panics, c, [], w)
      | Returns _ \<Rightarrow>
          (case toParameters io valid ops w of
             (Inl e, w1) \<Rightarrow> Some (Returns (Inl e), c, [], w1)
           | (Inr str, w1) \<Rightarrow>
               map_option (\<lambda>(r, s, w2). (r, c\<lparr>ec_cluster := ss_cluster s\<rparr>, ss_sent s, w2))
                 (SendRequest en (ec_credentials c)
                    \<lparr>rr_Method = meth, rr_RelativePath = keyToPath key @ str, rr_Values = vals\<rparr> (ec_cluster c) w1)))"

definition ec_get ::
    "'w World \<Rightarrow> 'w EtcdNet \<Rightarrow> EtcdClient \<Rightarrow> string \<Rightarrow> (string, option_value) gomap option \<Rightarrow> 'w \<Rightarrow> (RawResponse, 'w) client_call" where
  "ec_get io en = raw_request io en GET VALID_GET_OPTIONS None"

definition ec_put ::
    "'w World \<Rightarrow> 'w EtcdNet \<Rightarrow> EtcdClient \<Rightarrow> string \<Rightarrow> string \<Rightarrow> 64 word \<Rightarrow> (string, option_value) gomap option \<Rightarrow> 'w \<Rightarrow>
     (RawResponse, 'w) client_call" where
  "ec_put io en c key v ttl ops w = raw_request io en PUT VALID_PUT_OPTIONS (Some (buildValues v ttl)) c key ops w"

definition ec_post ::
    "'w World \<Rightarrow> 'w EtcdNet \<Rightarrow> EtcdClient \<Rightarrow> string \<Rightarrow> string \<Rightarrow> 64 word \<Rightarrow> 'w \<Rightarrow> (RawResponse, 'w) client_call" where
  "ec_post io en c key v ttl w = raw_request io en POST [] (Some (buildValues v ttl)) c key None w"

definition ec_delete ::
    "'w World \<Rightarrow> 'w EtcdNet \<Rightarrow> EtcdClient \<Rightarrow> string \<Rightarrow> (string, option_value) gomap option \<Rightarrow> 'w \<Rightarrow> (RawResponse, 'w) client_call" where
  "ec_delete io en = raw_request io en DELETE VALID_DELETE_OPTIONS None"

section \<open>Answers\<close>

text \<open>The value \<open>strconv.ParseUint\<close> returns also with an error: zero, or the greatest number.\<close>

fun parse_uint :: "nat \<Rightarrow> string \<Rightarrow> 64 word" where
  "parse_uint n [] = of_nat n"
| "parse_uint n (c # cs) =
     (case digit_val c of
        None \<Rightarrow> 0
      | Some d \<Rightarrow> if 2 ^ 64 \<le> 10 * n + d then - 1 else parse_uint (10 * n + d) cs)"

record EtcdResponse = raft_response +
  EtcdIndex :: "64 word"

definition as_int :: "int \<Rightarrow> json \<Rightarrow> int option" where
  "as_int old v = (case v of JNum s \<Rightarrow> ParseInt s | JNull \<Rightarrow> Some old | _ \<Rightarrow> None)"

definition dec_EtcdError :: "json \<Rightarrow> etcd_error option" where
  "dec_EtcdError v =
     map_option (\<lambda>(code, msg, cause, index). EtcdError code msg cause index)
       (dec_struct (\<lambda>(code, msg, cause, index) k v.
          if key_eq k ''errorCode'' then map_option (\<lambda>n. (n, msg, cause, index)) (as_int code v)
          else if key_eq k ''message'' then map_option (\<lambda>s. (code, s, cause, index)) (as_str msg v)
          else if key_eq k ''cause'' then map_option (\<lambda>s. (code, msg, s, index)) (as_str cause v)
          else if key_eq k ''index'' then map_option (\<lambda>n. (code, msg, cause, n)) (as_uint index v)
          else Some (code, msg, cause, index)) (0, [], [], 0) v)"

definition handleError :: "string \<Rightarrow> etcd_error" where
  "handleError b = (case unmarshal dec_EtcdError b of None \<Rightarrow> BadBody | Some e \<Rightarrow> e)"

definition raw_Unmarshal :: "'w EtcdNet \<Rightarrow> RawResponse \<Rightarrow> etcd_error + EtcdResponse" where
  "raw_Unmarshal en rr =
     (if raw_StatusCode rr \<noteq> 200 \<and> raw_StatusCode rr \<noteq> 201 then Inl (handleError (raw_Body rr))
      else if \<not> en_Decode en (raw_Body rr) then Inl BadBody
      else
        Inr \<lparr>RaftTerm = parse_uint 0 (raw_Header rr ''X-Raft-Term''), RaftIndex = parse_uint 0 (raw_Header rr ''X-Raft-Index''),
             EtcdIndex = parse_uint 0 (raw_Header rr ''X-Etcd-Index'')\<rparr>)"

definition decoded :: "'w EtcdNet \<Rightarrow> (RawResponse, 'w) client_call \<Rightarrow> (EtcdResponse, 'w) client_call" where
  "decoded en =
     map_option (\<lambda>(r, c, sent, w).
       (case r of Panics \<Rightarrow> Panics | Returns (Inl e) \<Rightarrow> Returns (Inl e) | Returns (Inr raw) \<Rightarrow> Returns (raw_Unmarshal en raw), c, sent, w))"

section \<open>Operations on keys\<close>

definition RawGet ::
    "'w World \<Rightarrow> 'w EtcdNet \<Rightarrow> EtcdClient \<Rightarrow> string \<Rightarrow> bool \<Rightarrow> bool \<Rightarrow> 'w \<Rightarrow> (RawResponse, 'w) client_call" where
  "RawGet io en c key srt recursive w =
     ec_get io en c key
       (Some [(''recursive'', OptBool recursive), (''sorted'', OptBool srt),
              (''quorum'', OptBool (ec_Consistency c = ''STRONG''))]) w"

definition etcd_Get ::
    "'w World \<Rightarrow> 'w EtcdNet \<Rightarrow> EtcdClient \<Rightarrow> string \<Rightarrow> bool \<Rightarrow> bool \<Rightarrow> 'w \<Rightarrow> (EtcdResponse, 'w) client_call" where
  "etcd_Get io en c key srt recursive w = decoded en (RawGet io en c key srt recursive w)"

definition RawDelete ::
    "'w World \<Rightarrow> 'w EtcdNet \<Rightarrow> EtcdClient \<Rightarrow> string \<Rightarrow> bool \<Rightarrow> bool \<Rightarrow> 'w \<Rightarrow> (RawResponse, 'w) client_call" where
  "RawDelete io en c key recursive dir w =
     ec_delete io en c key (Some [(''recursive'', OptBool recursive), (''dir'', OptBool dir)]) w"

definition etcd_Delete :: "'w World \<Rightarrow> 'w EtcdNet \<Rightarrow> EtcdClient \<Rightarrow> string \<Rightarrow> bool \<Rightarrow> 'w \<Rightarrow> (EtcdResponse, 'w) client_call" where
  "etcd_Delete io en c key recursive w = decoded en (RawDelete io en c key recursive False w)"

definition DeleteDir :: "'w World \<Rightarrow> 'w EtcdNet \<Rightarrow> EtcdClient \<Rightarrow> string \<Rightarrow> 'w \<Rightarrow> (EtcdResponse, 'w) client_call" where
  "DeleteDir io en c key w = decoded en (RawDelete io en c key False True w)"

text \<open>The operations that set a key differ in the options.\<close>

datatype set_op = SetKey | SetDirectory | CreateKey | CreateDirectory | UpdateKey | UpdateDirectory

fun set_op_options :: "set_op \<Rightarrow> (string, option_value) gomap option" where
  "set_op_options SetKey = None"
| "set_op_options SetDirectory = Some [(''dir'', OptBool True)]"
| "set_op_options CreateKey = Some [(''prevExist'', OptBool False)]"
| "set_op_options CreateDirectory = Some [(''prevExist'', OptBool False), (''dir'', OptBool True)]"
| "set_op_options UpdateKey = Some [(''prevExist'', OptBool True)]"
| "set_op_options UpdateDirectory = Some [(''prevExist'', OptBool True), (''dir'', OptBool True)]"

definition dir_op :: "set_op \<Rightarrow> bool" where
  "dir_op op \<longleftrightarrow> op \<in> {SetDirectory, CreateDirectory, UpdateDirectory}"

definition raw_set ::
    "'w World \<Rightarrow> 'w EtcdNet \<Rightarrow> set_op \<Rightarrow> EtcdClient \<Rightarrow> string \<Rightarrow> string \<Rightarrow> 64 word \<Rightarrow> 'w \<Rightarrow> (RawResponse, 'w) client_call" where
  "raw_set io en op c key v ttl w = ec_put io en c key (if dir_op op then [] else v) ttl (set_op_options op) w"

definition etcd_set ::
    "'w World \<Rightarrow> 'w EtcdNet \<Rightarrow> set_op \<Rightarrow> EtcdClient \<Rightarrow> string \<Rightarrow> string \<Rightarrow> 64 word \<Rightarrow> 'w \<Rightarrow> (EtcdResponse, 'w) client_call" where
  "etcd_set io en op c key v ttl w = decoded en (raw_set io en op c key v ttl w)"

text \<open>\<open>AddChild\<close>, and \<open>AddChildDir\<close> with an empty value; \<open>CreateInOrder\<close> is the same request.\<close>

definition AddChild ::
    "'w World \<Rightarrow> 'w EtcdNet \<Rightarrow> EtcdClient \<Rightarrow> string \<Rightarrow> string \<Rightarrow> 64 word \<Rightarrow> 'w \<Rightarrow> (EtcdResponse, 'w) client_call" where
  "AddChild io en c key v ttl w = decoded en (ec_post io en c key v ttl w)"

definition prev_options :: "string \<Rightarrow> 64 word \<Rightarrow> (string, option_value) gomap" where
  "prev_options prevValue prevIndex =
     (if prevValue \<noteq> [] then [(''prevValue'', OptString prevValue)] else []) @
     (if prevIndex \<noteq> 0 then [(''prevIndex'', OptUint prevIndex)] else [])"

definition CompareAndSwap ::
    "'w World \<Rightarrow> 'w EtcdNet \<Rightarrow> EtcdClient \<Rightarrow> string \<Rightarrow> string \<Rightarrow> 64 word \<Rightarrow> string \<Rightarrow> 64 word \<Rightarrow> 'w \<Rightarrow>
     (EtcdResponse, 'w) client_call" where
  "CompareAndSwap io en c key v ttl prevValue prevIndex w =
     (if prevValue = [] \<and> prevIndex = 0 then Some (Returns (Inl MissingPrev), c, [], w)
      else decoded en (ec_put io en c key v ttl (Some (prev_options prevValue prevIndex)) w))"

definition CompareAndDelete ::
    "'w World \<Rightarrow> 'w EtcdNet \<Rightarrow> EtcdClient \<Rightarrow> string \<Rightarrow> string \<Rightarrow> 64 word \<Rightarrow> 'w \<Rightarrow> (EtcdResponse, 'w) client_call" where
  "CompareAndDelete io en c key prevValue prevIndex w =
     (if prevValue = [] \<and> prevIndex = 0 then Some (Returns (Inl MissingPrev), c, [], w)
      else decoded en (ec_delete io en c key (Some (prev_options prevValue prevIndex)) w))"

section \<open>Synchronisation of the machines\<close>

definition createHttpPath :: "'w EtcdNet \<Rightarrow> string \<Rightarrow> string \<Rightarrow> string outcome" where
  "createHttpPath en serverName p =
     (case en_Parse en serverName of
        None \<Rightarrow> Panics
      | Some (scheme, upath, render) \<Rightarrow> Returns (render (if scheme = [] then ''http'' else scheme) (path_Join [upath, p])))"

definition ec_http_Get :: "'w EtcdNet \<Rightarrow> string \<Rightarrow> 'w \<Rightarrow> etcd_response option \<times> 'w" where
  "ec_http_Get en url w =
     (if en_accepts en url then en_Do en \<lparr>rq_Method = GET, rq_URL = url, rq_Body = None, rq_Auth = None\<rparr> w else (None, w))"

definition dec_clientURLs :: "json \<Rightarrow> string list option" where
  "dec_clientURLs =
     dec_struct (\<lambda>urls k v.
       if key_eq k ''id'' \<or> key_eq k ''name'' then map_option (\<lambda>_. urls) (as_str [] v)
       else if key_eq k ''peerURLs'' then map_option (\<lambda>_. urls) (dec_list (as_str []) v)
       else if key_eq k ''clientURLs'' then dec_list (as_str []) v
       else Some urls) []"

definition dec_memberCollection :: "json \<Rightarrow> string list list option" where
  "dec_memberCollection = dec_struct (\<lambda>ms k v. if key_eq k ''members'' then dec_list dec_clientURLs v else Some ms) []"

text \<open>The members a machine announces: \<open>None\<close> to try another machine.\<close>

definition announced_members :: "'w EtcdNet \<Rightarrow> string \<Rightarrow> 'w \<Rightarrow> string option outcome \<times> 'w" where
  "announced_members en machine w =
     (case createHttpPath en machine (path_Join [''v2'', ''members'']) of
        Panics \<Rightarrow> (Panics, w)
      | Returns httpPath \<Rightarrow>
          (case ec_http_Get en httpPath w of
             (None, w1) \<Rightarrow> (Returns None, w1)
           | (Some resp, w1) \<Rightarrow>
               if rs_StatusCode resp \<noteq> 200 then
                 (case createHttpPath en machine (path_Join [''v2'', ''machines'']) of
                    Panics \<Rightarrow> (Panics, w1)
                  | Returns httpPath' \<Rightarrow>
                      (case ec_http_Get en httpPath' w1 of
                         (None, w2) \<Rightarrow> (Returns None, w2)
                       | (Some resp', w2) \<Rightarrow>
                           (case rs_Body resp' of ReadOk b \<Rightarrow> (Returns (Some b), w2) | _ \<Rightarrow> (Returns None, w2))))
               else
                 (case rs_Body resp of
                    ReadOk b \<Rightarrow> (Returns (map_option (\<lambda>ms. Join (concat ms) '','') (unmarshal dec_memberCollection b)), w1)
                  | _ \<Rightarrow> (Returns None, w1))))"

fun internalSyncCluster :: "'w EtcdNet \<Rightarrow> string list \<Rightarrow> EtcdClient \<Rightarrow> 'w \<Rightarrow> (bool outcome \<times> EtcdClient) \<times> 'w" where
  "internalSyncCluster en [] c w = ((Returns False, c), w)"
| "internalSyncCluster en (machine # machines) c w =
     (case announced_members en machine w of
        (Panics, w1) \<Rightarrow> ((Panics, c), w1)
      | (Returns None, w1) \<Rightarrow> internalSyncCluster en machines c w1
      | (Returns (Some members), w1) \<Rightarrow>
          if members = [] then internalSyncCluster en machines c w1
          else let (cl, w2) = updateFromStr en members (ec_cluster c) w1 in ((Returns True, c\<lparr>ec_cluster := cl\<rparr>), w2))"

definition SyncCluster :: "'w EtcdNet \<Rightarrow> EtcdClient \<Rightarrow> 'w \<Rightarrow> (bool outcome \<times> EtcdClient) \<times> 'w" where
  "SyncCluster en c w = internalSyncCluster en (cl_Machines (ec_cluster c)) c w"

section \<open>Lemmas: the machines\<close>

lemma fold_update_length: "length (fold (\<lambda>i s. s[f i := g i]) is s) = length s"
  by (induction "is" arbitrary: s) simp_all

lemma fold_update_nth:
  assumes "distinct (map f is)" "j \<in> set is" "f j < length s"
  shows "fold (\<lambda>i s. s[f i := g i]) is s ! f j = g j"
proof -
  have keep: "fold (\<lambda>i s. s[f i := g i]) js s ! k = s ! k" if "k \<notin> f ` set js" for js s k
    using that by (induction js arbitrary: s) auto
  show ?thesis
    using assms
  proof (induction "is" arbitrary: s)
    case (Cons i "is")
    show ?case
    proof (cases "j \<in> set is")
      case False
      then have "f i \<notin> f ` set is" "j = i" using Cons.prems by auto
      then show ?thesis using keep Cons.prems(3) by simp
    qed (use Cons in simp)
  qed simp
qed

lemma rand_Perm_mset: "mset (fst (rand_Perm en n w)) = mset [0..<n]"
  by (simp add: rand_Perm_def split_beta)

lemma rand_Intn_less: "0 < n \<Longrightarrow> fst (rand_Intn en n w) < n"
  by (simp add: rand_Intn_def split_beta)

lemma shuffleStringSlice_mset: "mset (fst (shuffleStringSlice en cards w)) = mset cards"
proof (cases "length cards \<le> 1")
  case False
  let ?n = "length cards"
  obtain index w1 where p: "rand_Perm en ?n w = (index, w1)" by fastforce
  then have m: "mset index = mset [0..<?n]" using rand_Perm_mset [of en ?n w] by simp
  then have n: "length index = ?n" "distinct index" "set index = {..<?n}"
    by (metis size_mset length_upt minus_nat.diff_0, metis distinct_upt mset_eq_imp_distinct_iff, metis atLeast_upt set_mset_mset)
  let ?s = "fold (\<lambda>i shuffled. shuffled[index ! i := cards ! i]) [0..<?n] (replicate ?n [])"
  have len: "length ?s = ?n" by (simp add: fold_update_length)
  have at: "?s ! (index ! i) = cards ! i" if "i < ?n" for i
  proof (rule fold_update_nth)
    show "distinct (map ((!) index) [0..<?n])" using n(1,2) map_nth [of index] by simp
    have "index ! i \<in> set index" using that n(1) by simp
    then show "index ! i < length (replicate ?n [])" using n(3) by simp
  qed (use that in simp)
  have "mset ?s = mset (map ((!) ?s) [0..<?n])" using map_nth [of ?s] len by simp
  also have "\<dots> = mset (map ((!) ?s) index)" using m by simp
  also have "map ((!) ?s) index = cards" using n(1) at by (intro nth_equalityI) simp_all
  finally show ?thesis using False p by (simp add: shuffleStringSlice_def)
qed (simp add: shuffleStringSlice_def)

definition cl_ok :: "Cluster \<Rightarrow> bool" where
  "cl_ok cl \<longleftrightarrow> cl_picked cl < length (cl_Machines cl)"

lemma updateFromStr_machines:
  assumes "updateFromStr en members cl w = (cl', w')"
  shows "cl_ok cl'" "mset (cl_Machines cl') = mset (map TrimSpace (Split members CHR '',''))"
proof -
  let ?ms = "map TrimSpace (Split members CHR '','')"
  obtain ms w1 where s: "shuffleStringSlice en ?ms w = (ms, w1)" by fastforce
  then have m: "mset ms = mset ?ms" using shuffleStringSlice_mset [of en ?ms w] by simp
  then have "ms \<noteq> []" by (auto simp: Split_def)
  then show "cl_ok cl'" "mset (cl_Machines cl') = mset (map TrimSpace (Split members CHR '',''))"
    using assms s m rand_Intn_less [of "length ms" en w1] by (auto simp: updateFromStr_def cl_ok_def split: prod.splits)
qed

lemma NewCluster_ok:
  assumes "NewCluster en machines w = (cl, w')"
  shows "cl_ok cl" "machines \<noteq> [] \<longrightarrow> mset (cl_Machines cl) = mset machines"
proof -
  let ?ms = "if machines = [] then [''http://127.0.0.1:4001''] else machines"
  obtain ms w1 where s: "shuffleStringSlice en ?ms w = (ms, w1)" by fastforce
  then have m: "mset ms = mset ?ms" using shuffleStringSlice_mset [of en ?ms w] by simp
  then have "ms \<noteq> []" by (auto split: if_splits)
  then show "cl_ok cl" "machines \<noteq> [] \<longrightarrow> mset (cl_Machines cl) = mset machines"
    using assms s m rand_Intn_less [of "length ms" en w1]
    by (auto simp: NewCluster_def cl_ok_def Let_def split: prod.splits if_splits)
qed

lemma cl_failure_ok:
  assumes "cl_ok cl"
  shows "cl_failure cl = Returns (cl\<lparr>cl_picked := (cl_picked cl + 1) mod length (cl_Machines cl)\<rparr>)"
    "cl_ok (cl\<lparr>cl_picked := (cl_picked cl + 1) mod length (cl_Machines cl)\<rparr>)"
  using assms by (auto simp: cl_ok_def cl_failure_def intro!: mod_less_divisor)

lemma getHttpPath_ok: "cl_ok cl \<Longrightarrow> getHttpPath cl seg = Returns (cl_Machines cl ! cl_picked cl @ ''/v2/'' @ seg)"
  by (simp add: getHttpPath_def cl_pick_def cl_ok_def)

section \<open>Lemmas: requests\<close>

text \<open>No server redirects.\<close>

definition no_redirect :: "'w EtcdNet \<Rightarrow> bool" where
  "no_redirect en \<longleftrightarrow> (\<forall>req w r w'. en_Do en req w = (Some r, w') \<longrightarrow> rs_StatusCode r \<noteq> 307)"

definition machine_urls :: "Cluster \<Rightarrow> RawRequest \<Rightarrow> string set" where
  "machine_urls cl rr = (\<lambda>m. m @ ''/v2/'' @ rr_RelativePath rr) ` set (cl_Machines cl)"

definition direct_ok :: "RawRequest \<Rightarrow> send_state \<Rightarrow> bool" where
  "direct_ok rr s \<longleftrightarrow>
     cl_ok (ss_cluster s) \<and> ss_httpPath s = [] \<and> rq_URL ` set (ss_sent s) \<subseteq> machine_urls (ss_cluster s) rr"

lemma send_answer_direct:
  assumes "cl_ok (ss_cluster s)" "\<And>r. resp = Some r \<Longrightarrow> rs_StatusCode r \<noteq> 307" "send_answer en s resp w = ((res, s1), w1)"
  shows "res \<noteq> Some Panics" "cl_ok (ss_cluster s1)" "cl_Machines (ss_cluster s1) = cl_Machines (ss_cluster s)"
    "ss_httpPath s1 = ss_httpPath s" "ss_sent s1 = ss_sent s" "ss_numReqs s1 = ss_numReqs s"
    "res = None \<longrightarrow> ss_numReqs s1 \<le> 2 * length (cl_Machines (ss_cluster s))"
  using assms cl_failure_ok [OF assms(1)]
  by (cases resp; auto simp: DefaultCheckRetry_def split: option.splits if_splits)+

lemma send_turn_direct:
  assumes "direct_ok rr s" "no_redirect en" "send_turn en auth rr s w = ((res, s1), w1)"
  shows "direct_ok rr s1 \<and> cl_Machines (ss_cluster s1) = cl_Machines (ss_cluster s) \<and> res \<noteq> Some Panics \<and>
    length (ss_sent s1) \<le> Suc (length (ss_sent s)) \<and>
    (res = None \<longrightarrow> ss_numReqs s1 = Suc (ss_numReqs s) \<and> ss_numReqs s1 \<le> 2 * length (cl_Machines (ss_cluster s)))"
proof -
  let ?p = "cl_Machines (ss_cluster s) ! cl_picked (ss_cluster s) @ ''/v2/'' @ rr_RelativePath rr"
  have ok: "cl_ok (ss_cluster s)" "ss_httpPath s = []" "rq_URL ` set (ss_sent s) \<subseteq> machine_urls (ss_cluster s) rr"
    using assms(1) by (auto simp: direct_ok_def)
  then have p: "?p \<in> machine_urls (ss_cluster s) rr" by (auto simp: machine_urls_def cl_ok_def)
  show ?thesis
  proof (cases "en_accepts en ?p")
    case True
    then obtain s0 w0 resp w2 req where s0: "send_answer en s0 resp w2 = ((res, s1), w1)" "en_Do en req w0 = (resp, w2)"
      "ss_cluster s0 = ss_cluster s" "ss_sent s0 = ss_sent s @ [req]" "rq_URL req = ?p" "ss_numReqs s0 = Suc (ss_numReqs s)" "ss_httpPath s0 = []"
      using assms(3) ok by (auto simp: send_turn_def getHttpPath_ok Let_def split: prod.splits)
    then have "rs_StatusCode r \<noteq> 307" if "resp = Some r" for r using assms(2) that by (auto simp: no_redirect_def)
    note a = send_answer_direct [OF _ this s0(1)]
    show ?thesis using a s0(3-) ok p by (auto simp: direct_ok_def machine_urls_def)
  qed (use assms ok in \<open>auto simp: send_turn_def getHttpPath_ok Let_def split: prod.splits\<close>)
qed

lemma send_loop_returns:
  assumes "direct_ok rr s" "no_redirect en" "length (ss_sent s) < ss_numReqs s"
    "ss_numReqs s \<le> 2 * length (cl_Machines (ss_cluster s))"
  shows "\<exists>r s1 w1. send_loop en auth rr s w = Some (r, s1, w1) \<and> r \<noteq> Panics \<and> direct_ok rr s1 \<and>
    cl_Machines (ss_cluster s1) = cl_Machines (ss_cluster s) \<and> length (ss_sent s1) \<le> 2 * length (cl_Machines (ss_cluster s))"
  using assms
proof (induction "2 * length (cl_Machines (ss_cluster s)) - ss_numReqs s" arbitrary: s w rule: less_induct)
  case less
  obtain res s1 w1 where t: "send_turn en auth rr s w = ((res, s1), w1)" by (metis surj_pair)
  note d = send_turn_direct [OF less.prems(1,2) t]
  show ?case
  proof (cases res)
    case None
    then have "\<exists>r s2 w2. send_loop en auth rr s1 w1 = Some (r, s2, w2) \<and> r \<noteq> Panics \<and> direct_ok rr s2 \<and>
      cl_Machines (ss_cluster s2) = cl_Machines (ss_cluster s1) \<and> length (ss_sent s2) \<le> 2 * length (cl_Machines (ss_cluster s1))"
      using d less.prems by (intro less.hyps) auto
    then show ?thesis using t None d by (simp add: send_loop.simps [of en auth rr s w])
  next
    case (Some r)
    then have "send_loop en auth rr s w = Some (r, s1, w1)" using t by (simp add: send_loop.simps)
    then show ?thesis using Some d less.prems(3,4) by auto
  qed
qed

lemma SendRequest_returns:
  assumes "cl_ok cl" "no_redirect en"
  shows "\<exists>r s w'. SendRequest en auth rr cl w = Some (r, s, w') \<and> r \<noteq> Panics \<and> cl_ok (ss_cluster s) \<and>
    cl_Machines (ss_cluster s) = cl_Machines cl \<and> length (ss_sent s) \<le> 2 * length (cl_Machines cl) \<and>
    rq_URL ` set (ss_sent s) \<subseteq> machine_urls cl rr"
proof -
  let ?s = "\<lparr>ss_attempt = 0, ss_sleep = 25, ss_numReqs = 1, ss_httpPath = [], ss_cluster = cl, ss_sent = []\<rparr>"
  have "1 \<le> 2 * length (cl_Machines cl)" using assms(1) by (cases "cl_Machines cl") (simp_all add: cl_ok_def)
  then show ?thesis
    using send_loop_returns [of rr ?s en auth w] assms by (auto simp: SendRequest_def direct_ok_def machine_urls_def)
qed

text \<open>Without any answer the machines are asked in turn.\<close>

definition turn_url :: "Cluster \<Rightarrow> RawRequest \<Rightarrow> nat \<Rightarrow> string" where
  "turn_url cl rr i = cl_Machines cl ! ((cl_picked cl + i) mod length (cl_Machines cl)) @ ''/v2/'' @ rr_RelativePath rr"

definition turn_cluster :: "Cluster \<Rightarrow> nat \<Rightarrow> Cluster" where
  "turn_cluster cl i = cl\<lparr>cl_picked := (cl_picked cl + i) mod length (cl_Machines cl)\<rparr>"

lemma turn_cluster_ok: "cl_ok cl \<Longrightarrow> cl_ok (turn_cluster cl i)"
  by (auto simp: turn_cluster_def cl_ok_def intro!: mod_less_divisor)

lemma turn_cluster_Suc: "cl_ok cl \<Longrightarrow> cl_failure (turn_cluster cl i) = Returns (turn_cluster cl (Suc i))"
  by (auto simp: turn_cluster_def cl_ok_def cl_failure_def mod_Suc_eq)

lemma send_turn_unreachable:
  assumes "cl_ok cl" "\<And>req w. fst (en_Do en req w) = None" "\<And>m. m \<in> set (cl_Machines cl) \<Longrightarrow> en_accepts en (m @ ''/v2/'' @ rr_RelativePath rr)"
    "ss_cluster s = turn_cluster cl i" "ss_httpPath s = []" "send_turn en auth rr s w = ((res, s1), w1)"
  shows "map rq_URL (ss_sent s1) = map rq_URL (ss_sent s) @ [turn_url cl rr i]" "ss_numReqs s1 = Suc (ss_numReqs s)" "ss_httpPath s1 = []"
    "if 2 * length (cl_Machines cl) < Suc (ss_numReqs s) then res = Some (Returns (Inl EtcdNotReachable)) \<and> ss_cluster s1 = turn_cluster cl i
     else res = None \<and> ss_cluster s1 = turn_cluster cl (Suc i)"
proof -
  have p: "getHttpPath (turn_cluster cl i) (rr_RelativePath rr) = Returns (turn_url cl rr i)"
    using getHttpPath_ok [OF turn_cluster_ok [OF assms(1)]] by (simp add: turn_url_def turn_cluster_def)
  have "cl_Machines cl \<noteq> []" using assms(1) by (auto simp: cl_ok_def)
  then have "en_accepts en (turn_url cl rr i)" unfolding turn_url_def by (intro assms(3)) simp
  then obtain s0 w0 w2 req where s0: "send_answer en s0 (fst (en_Do en req w0)) w2 = ((res, s1), w1)"
    "ss_cluster s0 = turn_cluster cl i" "ss_sent s0 = ss_sent s @ [req]" "rq_URL req = turn_url cl rr i" "ss_numReqs s0 = Suc (ss_numReqs s)" "ss_httpPath s0 = []"
    using assms(4-6) p by (auto simp: send_turn_def Let_def split_beta)
  then have "send_answer en s0 None w2 = ((res, s1), w1)" using assms(2) by simp
  then show "map rq_URL (ss_sent s1) = map rq_URL (ss_sent s) @ [turn_url cl rr i]" "ss_numReqs s1 = Suc (ss_numReqs s)" "ss_httpPath s1 = []"
    "if 2 * length (cl_Machines cl) < Suc (ss_numReqs s) then res = Some (Returns (Inl EtcdNotReachable)) \<and> ss_cluster s1 = turn_cluster cl i
     else res = None \<and> ss_cluster s1 = turn_cluster cl (Suc i)"
    using s0 turn_cluster_Suc [OF assms(1)]
    by (auto simp: DefaultCheckRetry_def turn_cluster_def split: if_splits)
qed

lemma send_loop_unreachable:
  assumes "cl_ok cl" "\<And>req w. fst (en_Do en req w) = None" "\<And>m. m \<in> set (cl_Machines cl) \<Longrightarrow> en_accepts en (m @ ''/v2/'' @ rr_RelativePath rr)"
    and "ss_cluster s = turn_cluster cl i" "ss_httpPath s = []" "ss_numReqs s = Suc i" "map rq_URL (ss_sent s) = map (turn_url cl rr) [0..<i]"
    "Suc i \<le> 2 * length (cl_Machines cl)"
  shows "\<exists>s1 w1. send_loop en auth rr s w = Some (Returns (Inl EtcdNotReachable), s1, w1) \<and>
    map rq_URL (ss_sent s1) = map (turn_url cl rr) [0..<2 * length (cl_Machines cl)]"
  using assms(4-)
proof (induction "2 * length (cl_Machines cl) - i" arbitrary: s w i rule: less_induct)
  case less
  obtain res s1 w1 where t: "send_turn en auth rr s w = ((res, s1), w1)" by (metis surj_pair)
  note u = send_turn_unreachable [OF assms(1-3) less.prems(1,2) t]
  show ?case
  proof (cases "2 * length (cl_Machines cl) = Suc i")
    case True
    then have "send_loop en auth rr s w = Some (Returns (Inl EtcdNotReachable), s1, w1)"
      using t u(4) less.prems(3) by (simp add: send_loop.simps)
    then show ?thesis using u(1) less.prems(4) True by simp
  next
    case False
    then have "res = None" "ss_cluster s1 = turn_cluster cl (Suc i)" using u(4) less.prems(3,5) by (auto split: if_splits)
    then have "\<exists>s2 w2. send_loop en auth rr s1 w1 = Some (Returns (Inl EtcdNotReachable), s2, w2) \<and>
      map rq_URL (ss_sent s2) = map (turn_url cl rr) [0..<2 * length (cl_Machines cl)]"
      using False u(1-3) less.prems(3-5) by (intro less.hyps [of "Suc i"]) auto
    then show ?thesis using t \<open>res = None\<close> by (simp add: send_loop.simps [of en auth rr s w])
  qed
qed

text \<open>Redirects are never counted: a client that is only redirected does not return.\<close>

lemma send_turn_redirected:
  assumes "\<And>req w. \<exists>r. fst (en_Do en req w) = Some r \<and> rs_StatusCode r = 307" "\<And>u. en_accepts en u" "cl_ok (ss_cluster s)"
  shows "\<exists>s1 w1. send_turn en auth rr s w = ((None, s1), w1) \<and> cl_ok (ss_cluster s1)"
proof -
  have "\<exists>s1 w1. send_answer en s0 (fst (en_Do en req w0)) v = ((None, s1), w1) \<and> ss_cluster s1 = ss_cluster s0" for s0 req w0 v
    using assms(1) [of req w0] by (auto simp: validHttpStatusCode_def)
  moreover have "\<exists>s0 req w0. send_turn en auth rr s w = send_answer en s0 (fst (en_Do en req w0)) (snd (en_Do en req w0)) \<and>
      ss_cluster s0 = ss_cluster s"
    using assms(2) getHttpPath_ok [OF assms(3)] by (cases "ss_httpPath s = []") (fastforce simp: send_turn_def Let_def split_beta)+
  ultimately show ?thesis using assms(3) by metis
qed

lemma redirected_for_ever:
  assumes "\<And>req w. \<exists>r. fst (en_Do en req w) = Some r \<and> rs_StatusCode r = 307" "\<And>u. en_accepts en u" "cl_ok cl"
  shows "SendRequest en auth rr cl w = None"
proof -
  have "\<not> (e = en \<and> cl_ok (ss_cluster s))" if "send_loop e a q s v = Some x" for e a q s v x
  proof (rule send_loop.raw_induct [where P = "\<lambda>e a q s v x. \<not> (e = en \<and> cl_ok (ss_cluster s))", OF _ that], rule notI, erule conjE, goal_cases)
    case (1 f e a q s v x)
    then obtain s1 w1 where "send_turn en a q s v = ((None, s1), w1)" "cl_ok (ss_cluster s1)"
      using send_turn_redirected [OF assms(1,2), of s] by blast
    then show False using 1(1) [of en a q s1 w1 x] 1(2,3) by simp
  qed
  from this [of en auth rr "\<lparr>ss_attempt = 0, ss_sleep = 25, ss_numReqs = 1, ss_httpPath = [], ss_cluster = cl, ss_sent = []\<rparr>" w]
  show ?thesis using assms(3) by (cases "SendRequest en auth rr cl w") (auto simp: SendRequest_def)
qed

text \<open>A body that cannot be read ends the request with an error that names a valid status.\<close>

lemma unreadable_body_unhandled:
  assumes "rs_Body r = ReadErr" "validHttpStatusCode (rs_StatusCode r)" "ss_numReqs s \<le> 2 * length (cl_Machines (ss_cluster s))"
  shows "fst (send_answer en s (Some r) w) = (Some (Returns (Inl (UnhandledHTTPStatus (rs_StatusCode r)))), s)"
  using assms by (auto simp: validHttpStatusCode_def DefaultCheckRetry_def shouldRetry_def)

section \<open>Lemmas: parameters and operations\<close>

definition options_ok :: "(string, option_kind) gomap \<Rightarrow> (string, option_value) gomap \<Rightarrow> bool" where
  "options_ok valid m \<longleftrightarrow> (\<forall>(k, v) \<in> set m. gm_get valid k = Some (kind_of v))"

abbreviation option_texts :: "(string, option_value) gomap \<Rightarrow> (string, string) gomap" where
  "option_texts \<equiv> map (map_prod id option_text)"

lemma set_options_ok:
  assumes "options_ok valid ops" "distinct (map fst vs @ map fst ops)"
  shows "set_options valid ops vs = Inr (vs @ option_texts ops)"
  using assms
proof (induction ops arbitrary: vs)
  case (Cons kv ops)
  obtain k v where kv: "kv = (k, v)" by fastforce
  with Cons.prems have "\<not> gm_has vs k" by (force simp: gm_has_def)
  then have "gm_put k (option_text v) vs = vs @ [(k, option_text v)]" by (rule gm_put_set_new)
  then show ?case using Cons.prems Cons.IH [of "vs @ [(k, option_text v)]"] kv by (simp add: options_ok_def)
qed simp

lemma values_Encode_mset:
  assumes "mset xs = mset ys" "distinct (map fst xs)"
  shows "values_Encode xs = values_Encode ys"
proof -
  have "sort_key fst xs = sort_key fst ys"
    using assms by (intro sort_key_inj_key_eq) (simp_all add: distinct_map)
  then show ?thesis by (simp add: values_Encode_def)
qed

text \<open>The parameters do not depend on the order in which the options are visited.\<close>

lemma toParameters_ok:
  assumes "gm_ok m" "options_ok valid m"
  shows "toParameters io valid (Some m) w = (Inr (''?'' @ values_Encode (option_texts m)), snd (go_range io m w))"
proof -
  obtain ord w1 where o: "go_range io m w = (ord, w1)" by fastforce
  then have p: "mset ord = mset m" "distinct (map fst ord)"
    using go_range_mset [OF assms(1), of io w] go_range_distinct [OF assms(1), of io w] by simp_all
  then have "options_ok valid ord" using assms(2) by (metis options_ok_def set_mset_mset)
  then have "set_options valid ord [] = Inr (option_texts ord)" using set_options_ok [of valid ord "[]"] p(2) by simp
  moreover have "values_Encode (option_texts ord) = values_Encode (option_texts m)"
    using p by (intro values_Encode_mset) (simp_all add: comp_def)
  ultimately show ?thesis using o by (simp add: toParameters_def)
qed

text \<open>All operations give options that are allowed.\<close>

lemma set_op_options_ok: "set_op_options op = Some m \<Longrightarrow> gm_ok m \<and> options_ok VALID_PUT_OPTIONS m"
  by (cases op) (auto simp: gm_ok_def options_ok_def VALID_PUT_OPTIONS_def)

lemma prev_options_ok:
  "gm_ok (prev_options v i)" "options_ok VALID_PUT_OPTIONS (prev_options v i)" "options_ok VALID_DELETE_OPTIONS (prev_options v i)"
  by (auto simp: gm_ok_def prev_options_def options_ok_def VALID_PUT_OPTIONS_def VALID_DELETE_OPTIONS_def split: if_splits)

definition get_options :: "EtcdClient \<Rightarrow> bool \<Rightarrow> bool \<Rightarrow> (string, option_value) gomap" where
  "get_options c srt recursive =
     [(''recursive'', OptBool recursive), (''sorted'', OptBool srt), (''quorum'', OptBool (ec_Consistency c = ''STRONG''))]"

lemma get_options_ok: "gm_ok (get_options c srt recursive)" "options_ok VALID_GET_OPTIONS (get_options c srt recursive)"
  by (simp_all add: gm_ok_def get_options_def options_ok_def VALID_GET_OPTIONS_def)

definition get_request :: "EtcdClient \<Rightarrow> string \<Rightarrow> bool \<Rightarrow> bool \<Rightarrow> RawRequest" where
  "get_request c key srt recursive =
     \<lparr>rr_Method = GET, rr_RelativePath = keyToPath key @ ''?'' @ values_Encode (option_texts (get_options c srt recursive)),
      rr_Values = None\<rparr>"

lemma RawGet_SendRequest:
  assumes "cl_ok (ec_cluster c)"
  shows "RawGet io en c key srt recursive w =
    map_option (\<lambda>(r, s, w2). (r, c\<lparr>ec_cluster := ss_cluster s\<rparr>, ss_sent s, w2))
      (SendRequest en (ec_credentials c) (get_request c key srt recursive) (ec_cluster c)
         (snd (go_range io (get_options c srt recursive) w)))"
  using assms toParameters_ok [OF get_options_ok, of io c srt recursive w]
  by (simp add: RawGet_def ec_get_def raw_request_def cl_pick_def cl_ok_def get_request_def get_options_def)

lemma decoded_Returns:
  "decoded en (Some (Returns x, c, sent, w)) = Some (Returns (case x of Inl e \<Rightarrow> Inl e | Inr raw \<Rightarrow> raw_Unmarshal en raw), c, sent, w)"
  by (simp add: decoded_def split: sum.splits)

lemma root_path: "keyToPath ''/'' = ''keys/''"
  by code_simp

lemma root_request:
  assumes "ec_Consistency c = ''WEAK''"
  shows "rr_RelativePath (get_request c ''/'' False False) = ''keys/?quorum=false&recursive=false&sorted=false''"
proof -
  have "values_Encode (option_texts [(''recursive'', OptBool False), (''sorted'', OptBool False), (''quorum'', OptBool False)]) =
    ''quorum=false&recursive=false&sorted=false''" by code_simp
  then show ?thesis using assms by (simp add: get_request_def get_options_def root_path)
qed

lemma internalSyncCluster_members:
  assumes "internalSyncCluster en machines c w = ((Returns True, c'), w')"
  shows "\<exists>machine \<in> set machines. \<exists>members w1 w2. announced_members en machine w1 = (Returns (Some members), w2) \<and>
    mset (cl_Machines (ec_cluster c')) = mset (map TrimSpace (Split members CHR '','')) \<and> cl_ok (ec_cluster c')"
  using assms
proof (induction machines arbitrary: w)
  case (Cons machine machines)
  obtain a w1 where a: "announced_members en machine w = (a, w1)" by fastforce
  show ?case
  proof (cases "\<exists>members. a = Returns (Some members) \<and> members \<noteq> []")
    case True
    then obtain members where m: "a = Returns (Some members)" "members \<noteq> []" by blast
    then obtain cl where "updateFromStr en members (ec_cluster c) w1 = (cl, w')" "c' = c\<lparr>ec_cluster := cl\<rparr>"
      using Cons.prems a by (auto split: prod.splits)
    then show ?thesis using a m updateFromStr_machines [of en members "ec_cluster c" w1 cl w'] by fastforce
  next
    case False
    then have "internalSyncCluster en machines c w1 = ((Returns True, c'), w')"
      using Cons.prems a by (auto split: outcome.splits option.splits)
    then show ?thesis using Cons.IH [of w1] by auto
  qed
qed simp

section \<open>The client in the world of the rpc package\<close>

text \<open>
  The two calls of the go-etcd client that the rpc package makes, implemented by the client: the state
  of the outside is extended with the client.  A panic and a call that does not return count as a
  failure here; the lemmas about it have hypotheses under which there is neither.
\<close>

definition client_sync :: "'w EtcdNet \<Rightarrow> string \<Rightarrow> 'w \<times> EtcdClient \<Rightarrow> bool \<times> 'w \<times> EtcdClient" where
  "client_sync en url = (\<lambda>(w, _).
     let (c, w1) = NewClient en [url] w;
         ((ok, c1), w2) = SyncCluster en c w1 in
     (ok = Returns True, w2, c1))"

definition client_get :: "'w World \<Rightarrow> 'w EtcdNet \<Rightarrow> string \<Rightarrow> 'w \<times> EtcdClient \<Rightarrow> raft_response option \<times> 'w \<times> EtcdClient" where
  "client_get io en url = (\<lambda>(w, c).
     case etcd_Get io en c ''/'' False False w of
       None \<Rightarrow> (None, w, c)
     | Some (r, c1, _, w1) \<Rightarrow>
         (case r of Returns (Inr resp) \<Rightarrow> Some \<lparr>RaftTerm = RaftTerm resp, RaftIndex = RaftIndex resp\<rparr> | _ \<Rightarrow> None, w1, c1))"

definition beside :: "('w \<Rightarrow> 'r \<times> 'w) \<Rightarrow> 'w \<times> 'c \<Rightarrow> 'r \<times> 'w \<times> 'c" where
  "beside f = (\<lambda>(w, c). let (r, w1) = f w in (r, w1, c))"

definition client_world :: "'w World \<Rightarrow> 'w EtcdNet \<Rightarrow> ('w \<times> EtcdClient) World" where
  "client_world io en =
     \<lparr>http_do = (\<lambda>req. beside (http_do io req)),
      etcd_sync = client_sync en,
      etcd_get = client_get io en,
      sleep = (\<lambda>n (w, c). (sleep io n w, c)),
      now = beside (now io),
      range_order = (\<lambda>ks. beside (range_order io ks)),
      zk_connect = (\<lambda>hosts. beside (zk_connect io hosts)),
      zk_create = (\<lambda>p d. beside (zk_create io p d)),
      zk_set = (\<lambda>p d. beside (zk_set io p d)),
      zk_get = (\<lambda>p. beside (zk_get io p)),
      zk_delete = (\<lambda>p. beside (zk_delete io p)),
      zk_children = (\<lambda>p. beside (zk_children io p))\<rparr>"

lemma NewClient_single:
  assumes "NewClient en [url] w = (c, w')"
  shows "cl_Machines (ec_cluster c) = [url]" "ec_Consistency c = ''WEAK''" "ec_credentials c = None"
  using assms by (auto simp: NewClient_def NewCluster_def shuffleStringSlice_def split: prod.splits)

text \<open>The machine that a synchronised client asks first, and the answer it takes.\<close>

lemma client_get_first:
  assumes "cl_ok cl" "ec_Consistency c = ''WEAK''" "ec_credentials c = None" "ec_cluster c = cl"
    "p = cl_Machines cl ! cl_picked cl @ ''/v2/keys/?quorum=false&recursive=false&sorted=false''" "en_accepts en p"
    "en_Do en \<lparr>rq_Method = GET, rq_URL = p, rq_Body = None, rq_Auth = None\<rparr> (snd (go_range io (get_options c False False) w)) =
       (Some r, w')"
    "rs_StatusCode r = 200" "rs_Body r = ReadOk b" "en_Decode en b"
  shows "client_get io en url (w, c) =
    (Some \<lparr>RaftTerm = parse_uint 0 (rs_Header r ''X-Raft-Term''), RaftIndex = parse_uint 0 (rs_Header r ''X-Raft-Index'')\<rparr>, w', c)"
proof -
  let ?rr = "get_request c ''/'' False False"
  let ?w = "snd (go_range io (get_options c False False) w)"
  have rr: "rr_Method ?rr = GET" "rr_RelativePath ?rr = ''keys/?quorum=false&recursive=false&sorted=false''" "rr_Values ?rr = None"
    using root_request [OF assms(2)] by (simp_all add: get_request_def)
  have "\<exists>s. ss_cluster s = cl \<and> SendRequest en None ?rr cl ?w =
      Some (Returns (Inr \<lparr>raw_StatusCode = 200, raw_Body = b, raw_Header = rs_Header r\<rparr>), s, w')"
    using assms(5-9) getHttpPath_ok [OF assms(1)] rr
    by (simp add: SendRequest_def send_loop.simps send_turn_def validHttpStatusCode_def)
  then show ?thesis
    using RawGet_SendRequest [of c io en "''/''" False False w] assms(1,3,4,10)
    by (auto simp: client_get_def etcd_Get_def decoded_def raw_Unmarshal_def)
qed

section \<open>Properties\<close>

text \<open>
  C25 (bounds): a request that no machine answers is sent to every machine of the client exactly twice, in
  turn from the one that was picked, and then fails as not reachable.
\<close>

theorem unreachable_asked_twice:
  assumes "cl_picked cl < length (cl_Machines cl)" "\<And>req w. fst (en_Do en req w) = None"
    "\<And>m. m \<in> set (cl_Machines cl) \<Longrightarrow> en_accepts en (m @ ''/v2/'' @ rr_RelativePath rr)"
  shows "\<exists>s w'. SendRequest en auth rr cl w = Some (Returns (Inl EtcdNotReachable), s, w') \<and>
    map rq_URL (ss_sent s) =
      map (\<lambda>i. cl_Machines cl ! ((cl_picked cl + i) mod length (cl_Machines cl)) @ ''/v2/'' @ rr_RelativePath rr)
        [0..<2 * length (cl_Machines cl)]"
proof -
  let ?s = "\<lparr>ss_attempt = 0, ss_sleep = 25, ss_numReqs = 1, ss_httpPath = [], ss_cluster = cl, ss_sent = []\<rparr>"
  have "cl_ok cl" "1 \<le> 2 * length (cl_Machines cl)" "turn_cluster cl 0 = cl"
    using assms(1) by (auto simp: cl_ok_def turn_cluster_def)
  then show ?thesis
    using send_loop_unreachable [of cl en rr ?s 0 auth w, OF _ assms(2,3)] by (simp add: SendRequest_def turn_url_def [abs_def])
qed

definition dead_net :: "nat EtcdNet" where
  "dead_net = \<lparr>en_Do = (\<lambda>_ w. (None, Suc w)), en_Perm = (\<lambda>n w. ([0..<n], w)), en_Intn = (\<lambda>_ w. (w, w)), en_After = (+),
     en_accepts = (\<lambda>_. True), en_Parse = (\<lambda>s. Some (''http'', [], \<lambda>_ p. s @ ''/'' @ p)), en_Decode = (\<lambda>_. True)\<rparr>"

definition demo_cluster :: Cluster where
  "demo_cluster = \<lparr>cl_Leader = [], cl_Machines = [''http://a:1'', ''http://b:2''], cl_picked = 1\<rparr>"

definition demo_request :: RawRequest where
  "demo_request = \<lparr>rr_Method = GET, rr_RelativePath = ''keys/'', rr_Values = None\<rparr>"

theorem unreachable_asked_twice_witness:
  "\<exists>s w'. SendRequest dead_net None demo_request demo_cluster 0 = Some (Returns (Inl EtcdNotReachable), s, w') \<and>
    map rq_URL (ss_sent s) =
      [''http://b:2/v2/keys/'', ''http://a:1/v2/keys/'', ''http://b:2/v2/keys/'', ''http://a:1/v2/keys/'']"
proof -
  have "map (\<lambda>i. cl_Machines demo_cluster ! ((cl_picked demo_cluster + i) mod length (cl_Machines demo_cluster)) @ ''/v2/'' @
      rr_RelativePath demo_request) [0..<2 * length (cl_Machines demo_cluster)] =
    [''http://b:2/v2/keys/'', ''http://a:1/v2/keys/'', ''http://b:2/v2/keys/'', ''http://a:1/v2/keys/'']" by code_simp
  moreover have "cl_picked demo_cluster < length (cl_Machines demo_cluster)" by (simp add: demo_cluster_def)
  moreover have "fst (en_Do dead_net req w) = None" "en_accepts dead_net u" for req w u by (simp_all add: dead_net_def)
  ultimately show ?thesis using unreachable_asked_twice [of demo_cluster dead_net demo_request None 0] by simp
qed

text \<open>
  C24 (safety): after a synchronisation that succeeded, the client has the machines that one of its old
  machines announced, and if no server redirects, reading a key returns without a panic, with at most two
  requests for every machine, all of them to announced machines.
\<close>

theorem synced_client_asks_members:
  assumes "SyncCluster en c w = ((Returns True, c'), w')" "no_redirect en"
  shows "\<exists>machine members w1 w2. machine \<in> set (cl_Machines (ec_cluster c)) \<and>
    announced_members en machine w1 = (Returns (Some members), w2) \<and>
    (\<exists>r c'' sent v'. etcd_Get io en c' key srt recursive v = Some (Returns r, c'', sent, v') \<and>
       length sent \<le> 2 * length (Split members CHR '','') \<and>
       rq_URL ` set sent \<subseteq>
         {m @ ''/v2/'' @ rr_RelativePath (get_request c' key srt recursive) | m. m \<in> set (map TrimSpace (Split members CHR '',''))})"
proof -
  obtain machine members w1 w2 where m: "machine \<in> set (cl_Machines (ec_cluster c))"
    "announced_members en machine w1 = (Returns (Some members), w2)"
    "mset (cl_Machines (ec_cluster c')) = mset (map TrimSpace (Split members CHR '',''))" "cl_ok (ec_cluster c')"
    using assms(1) internalSyncCluster_members [of en _ c w c' w'] unfolding SyncCluster_def by blast
  let ?rr = "get_request c' key srt recursive"
  obtain r s w3 where r: "SendRequest en (ec_credentials c') ?rr (ec_cluster c') (snd (go_range io (get_options c' srt recursive) v)) =
      Some (r, s, w3)" "r \<noteq> Panics" "length (ss_sent s) \<le> 2 * length (cl_Machines (ec_cluster c'))"
    "rq_URL ` set (ss_sent s) \<subseteq> machine_urls (ec_cluster c') ?rr"
    using SendRequest_returns [OF m(4) assms(2)] by blast
  have "length (cl_Machines (ec_cluster c')) = length (Split members CHR '','')"
    using mset_eq_length [OF m(3)] by simp
  moreover have "machine_urls (ec_cluster c') ?rr =
    {m @ ''/v2/'' @ rr_RelativePath ?rr | m. m \<in> set (map TrimSpace (Split members CHR '',''))}"
    using mset_eq_setD [OF m(3)] by (simp add: machine_urls_def Setcompr_eq_image)
  moreover obtain r' where "etcd_Get io en c' key srt recursive v = Some (Returns r', c'\<lparr>ec_cluster := ss_cluster s\<rparr>, ss_sent s, w3)"
    using r(1,2) RawGet_SendRequest [OF m(4), of io en key srt recursive v]
    by (cases r) (auto simp: etcd_Get_def decoded_Returns)
  ultimately show ?thesis using m(1,2) r(3,4) by (intro exI conjI) auto
qed

text \<open>Two servers that know of each other, with Raft indices 5 and 9; the random numbers pick the other one.\<close>

definition root_query :: string where
  "root_query = ''/v2/keys/?quorum=false&recursive=false&sorted=false''"

definition gossip_answer :: "string \<Rightarrow> etcd_response" where
  "gossip_answer u =
     (if u = ''http://a:1/v2/machines'' \<or> u = ''http://b:2/v2/machines''
      then \<lparr>rs_StatusCode = 200, rs_Body = ReadOk ''http://a:1, http://b:2'', rs_Header = (\<lambda>_. []), rs_Location = None\<rparr>
      else if u = ''http://a:1'' @ root_query
      then \<lparr>rs_StatusCode = 200, rs_Body = ReadOk ''{}'', rs_Header = (\<lambda>_. ''5''), rs_Location = None\<rparr>
      else if u = ''http://b:2'' @ root_query
      then \<lparr>rs_StatusCode = 200, rs_Body = ReadOk ''{}'', rs_Header = (\<lambda>_. ''9''), rs_Location = None\<rparr>
      else \<lparr>rs_StatusCode = 404, rs_Body = ReadErr, rs_Header = (\<lambda>_. []), rs_Location = None\<rparr>)"

definition gossip_net :: "nat EtcdNet" where
  "gossip_net = \<lparr>en_Do = (\<lambda>req w. (Some (gossip_answer (rq_URL req)), Suc w)), en_Perm = (\<lambda>n w. ([0..<n], w)),
     en_Intn = (\<lambda>n w. (if w = 2 then 1 else 0, w)), en_After = (+),
     en_accepts = (\<lambda>_. True), en_Parse = (\<lambda>s. Some (''http'', [], \<lambda>_ p. s @ ''/'' @ p)), en_Decode = (\<lambda>_. True)\<rparr>"

definition server_a :: Node where
  "server_a = demo_node\<lparr>Host := ''a'', ClientPort := 1\<rparr>"

definition server_b :: Node where
  "server_b = demo_node\<lparr>Host := ''b'', ClientPort := 2\<rparr>"

lemma gossip_no_redirect: "no_redirect gossip_net"
  by (auto simp: no_redirect_def gossip_net_def gossip_answer_def)

lemma gossip_urls: "client_url server_a = ''http://a:1''" "client_url server_b = ''http://b:2''"
  by code_simp+

lemma gossip_announced:
  assumes "machine \<in> {''http://a:1'', ''http://b:2''}"
  shows "announced_members gossip_net machine w = (Returns (Some ''http://a:1, http://b:2''), Suc (Suc w))"
proof -
  have j: "path_Join [''v2'', ''members''] = ''v2/members''" "path_Join [''v2'', ''machines''] = ''v2/machines''"
    "path_Join [[], ''v2/members''] = ''v2/members''" "path_Join [[], ''v2/machines''] = ''v2/machines''" by code_simp+
  show ?thesis
    using assms
    by (auto simp: announced_members_def createHttpPath_def j ec_http_Get_def gossip_net_def gossip_answer_def root_query_def)
qed

definition client_of :: "string list \<Rightarrow> nat \<Rightarrow> EtcdClient" where
  "client_of machines k =
     \<lparr>ec_cluster = \<lparr>cl_Leader = [], cl_Machines = machines, cl_picked = k\<rparr>, ec_Consistency = ''WEAK'', ec_credentials = None\<rparr>"

theorem synced_client_asks_members_witness:
  "\<exists>r c'' sent v'. etcd_Get demo_world gossip_net (client_of [''http://a:1'', ''http://b:2''] 1) ''/'' False False 2 =
     Some (Returns r, c'', sent, v') \<and> length sent \<le> 4"
proof -
  have s: "SyncCluster gossip_net (client_of [''http://a:1''] 0) 0 =
    ((Returns True, client_of [''http://a:1'', ''http://b:2''] 1), 2)" by code_simp
  have l: "length (Split ''http://a:1, http://b:2'' CHR '','') = 2" by code_simp
  obtain machine members w1 w2 r c'' sent v' where m: "machine \<in> set (cl_Machines (ec_cluster (client_of [''http://a:1''] 0)))"
    "announced_members gossip_net machine w1 = (Returns (Some members), w2)"
    "etcd_Get demo_world gossip_net (client_of [''http://a:1'', ''http://b:2''] 1) ''/'' False False 2 = Some (Returns r, c'', sent, v')"
    "length sent \<le> 2 * length (Split members CHR '','')"
    using synced_client_asks_members [OF s gossip_no_redirect, of demo_world "''/''" False False 2] by (elim exE conjE) (rule that)
  then have "members = ''http://a:1, http://b:2''" using gossip_announced [of machine w1] by (simp add: client_of_def)
  then show ?thesis using m(3,4) l by simp
qed

text \<open>
  C23 (functional): the Raft index by which a server is ranked for a reseed is not its own: the client made
  for the server first replaces its machines by all members the server announces, and then asks the one of
  them that a random number picks.
\<close>

theorem rank_index_of_picked:
  assumes "NewClient en [client_url a] w = (c, w1)" "announced_members en (client_url a) w1 = (Returns (Some members), w2)"
    "members \<noteq> []" "updateFromStr en members (ec_cluster c) w2 = (cl, w3)"
    "p = cl_Machines cl ! cl_picked cl @ ''/v2/keys/?quorum=false&recursive=false&sorted=false''" "en_accepts en p"
    "en_Do en \<lparr>rq_Method = GET, rq_URL = p, rq_Body = None, rq_Auth = None\<rparr> (snd (go_range io (get_options c False False) w3)) =
       (Some r, w4)"
    "rs_StatusCode r = 200" "rs_Body r = ReadOk b" "en_Decode en b"
  shows "cl_Machines cl ! cl_picked cl \<in> set (map TrimSpace (Split members CHR '','')) \<and>
    collect_indices (client_world io en) ((i, a) # rest) (w, c0) =
      (let (ns, v) = collect_indices (client_world io en) rest (w4, c\<lparr>ec_cluster := cl\<rparr>) in
       (\<lparr>ni_RaftIndex = parse_uint 0 (rs_Header r ''X-Raft-Index''), ni_Node = i\<rparr> # ns, v))"
proof -
  note c = NewClient_single [OF assms(1)]
  note u = updateFromStr_machines [OF assms(4)]
  have "client_sync en (client_url a) (w, c0) = (True, w3, c\<lparr>ec_cluster := cl\<rparr>)"
    using assms(1-4) c(1) by (simp add: client_sync_def SyncCluster_def)
  moreover have "client_get io en (client_url a) (w3, c\<lparr>ec_cluster := cl\<rparr>) =
    (Some \<lparr>RaftTerm = parse_uint 0 (rs_Header r ''X-Raft-Term''), RaftIndex = parse_uint 0 (rs_Header r ''X-Raft-Index'')\<rparr>,
     w4, c\<lparr>ec_cluster := cl\<rparr>)"
    using assms(7) c by (intro client_get_first [OF u(1) _ _ _ assms(5,6) _ assms(8-10)]) (simp_all add: get_options_def)
  moreover have "cl_Machines cl ! cl_picked cl \<in> set (map TrimSpace (Split members CHR '',''))"
    using u mset_eq_setD [OF u(2)] nth_mem [of "cl_picked cl" "cl_Machines cl"] by (simp add: cl_ok_def)
  ultimately show ?thesis by (simp add: client_world_def)
qed

theorem rank_index_of_picked_witness:
  "fst (collect_indices (client_world demo_world gossip_net) [(''etcd-1'', server_a), (''etcd-2'', server_b)] (0, client_of [] 0)) =
    [\<lparr>ni_RaftIndex = 9, ni_Node = ''etcd-1''\<rparr>, \<lparr>ni_RaftIndex = 5, ni_Node = ''etcd-2''\<rparr>]"
proof -
  have n: "NewClient gossip_net [client_url server_a] 0 = (client_of [''http://a:1''] 0, 0)"
    "NewClient gossip_net [client_url server_b] 3 = (client_of [''http://b:2''] 0, 3)" by code_simp+
  have u: "updateFromStr gossip_net ''http://a:1, http://b:2'' (ec_cluster (client_of [''http://a:1''] 0)) 2 =
      (\<lparr>cl_Leader = [], cl_Machines = [''http://a:1'', ''http://b:2''], cl_picked = 1\<rparr>, 2)"
    "updateFromStr gossip_net ''http://a:1, http://b:2'' (ec_cluster (client_of [''http://b:2''] 0)) 5 =
      (\<lparr>cl_Leader = [], cl_Machines = [''http://a:1'', ''http://b:2''], cl_picked = 0\<rparr>, 5)" by code_simp+
  have m: "announced_members gossip_net (client_url server_a) 0 = (Returns (Some ''http://a:1, http://b:2''), 2)"
    "announced_members gossip_net (client_url server_b) 3 = (Returns (Some ''http://a:1, http://b:2''), 5)"
    using gossip_announced by (simp_all add: gossip_urls)
  have "snd (go_range demo_world m w) = w" for m :: "(string, option_value) gomap" and w
    by (simp add: go_range_def demo_world_def)
  then have r: "en_Do gossip_net \<lparr>rq_Method = GET, rq_URL = x @ ''/v2/keys/?quorum=false&recursive=false&sorted=false'', rq_Body = None, rq_Auth = None\<rparr>
      (snd (go_range demo_world (get_options c False False) w)) =
    (Some \<lparr>rs_StatusCode = 200, rs_Body = ReadOk ''{}'', rs_Header = (\<lambda>_. if x = ''http://b:2'' then ''9'' else ''5''), rs_Location = None\<rparr>, Suc w)"
    if "x \<in> {''http://a:1'', ''http://b:2''}" for x c w
    using that by (auto simp: gossip_net_def gossip_answer_def root_query_def)
  have e: "en_accepts gossip_net x" "en_Decode gossip_net x" for x by (simp_all add: gossip_net_def)
  note one = rank_index_of_picked [OF n(1) m(1) _ u(1) refl e(1) r _ _ e(2)]
  note two = rank_index_of_picked [OF n(2) m(2) _ u(2) refl e(1) r _ _ e(2)]
  show ?thesis
    using conjunct2 [OF one, of "''{}''" "''etcd-1''" "[(''etcd-2'', server_b)]" "client_of [] 0"]
      conjunct2 [OF two, of "''{}''" "''etcd-2''" "[]" ]
    by (simp add: digit_val_def)
qed

end
