(* ===== verification/Spec2Isabelle.thy ===== *)
theory Spec2Isabelle
  imports Commands Driver_Safety Exec_Safety Http_Transporter Master_Detector Etcd_Client
begin

text \<open>
  Verification of etcd-mesos, a Mesos framework that runs an etcd cluster.
\<close>

section \<open>Lemmas across components\<close>

lemma node_ok_text_part: "node_ok (text_part n) = node_ok n"
  by (simp add: node_ok_def)

lemma cluster_inv_nodes:
  assumes "cluster_inv s" "n \<in> set (map snd (running s))"
  shows "node_ok n"
proof -
  from assms(2) obtain k where "(k, n) \<in> set (running s)" by auto
  with assms(1) have "gm_get (running s) k = Some n" by (simp add: cluster_inv_def gm_ok_get_iff)
  with assms(1) obtain t where "Parse t = Inr (text_part n)" unfolding cluster_inv_def by blast
  then show ?thesis using Parse_node_ok [of t] node_ok_text_part by blast
qed

lemma launched_node:
  assumes "gm_ok (running s)" "launch_task io s offer w = (Returns (s', [LaunchTasks ids [task] r]), w')"
    and "unmarshal_nodes (task_data task) = Some (map Some (node # rest))"
  shows "mset rest = mset (map snd (running s)) \<and> Name node = ''etcd-'' @ fmt_int (highestInstanceID s') \<and>
    Host node = hostname offer \<and> Type node = (if running s = [] then ''new'' else ''existing'')"
  using assms(2)
proof (cases rule: launch_task_ReturnsE)
  case (1 rng rngs ord node' s1)
  have ord: "mset (map snd ord) = mset (map snd (running s))"
    using go_range_mset [OF assms(1), of io w] 1(4) by (metis fst_conv mset_map)
  have "task_data task = marshal_nodes (node' # map snd ord)" using 1(5) by (simp add: new_task_def)
  then have "map Some (node # rest) = map Some (node' # map snd ord)"
    using assms(3) unmarshal_marshal_nodes [of "node' # map snd ord"] by (metis option.inject)
  then have "node # rest = node' # map snd ord" by (metis inj_Some inj_map_eq_map)
  with ord 1 show ?thesis by (auto simp: new_node_def)
qed

lemma NewMesosSchedulerDriver_identity:
  assumes "NewMesosSchedulerDriver user hostName None None cfg = Inr d"
  shows "fi_Id (frameworkInfo d) = fi_Id (dc_Framework cfg)" "fi_Name (frameworkInfo d) = fi_Name (dc_Framework cfg)"
    "fi_FailoverTimeout (frameworkInfo d) = fi_FailoverTimeout (dc_Framework cfg)"
    "failover d \<longleftrightarrow> (case fi_Id (dc_Framework cfg) of None \<Rightarrow> False | Some i \<Rightarrow> i \<noteq> [])"
  using assms by (auto simp: NewMesosSchedulerDriver_def Let_def split: if_splits option.splits)

lemma scheduler_main_framework:
  assumes "scheduler_main io env fl w = (Started (s, cfg, mux), w')"
  shows "fi_Name (dc_Framework cfg) = framework_name fl \<and>
    fi_FailoverTimeout (dc_Framework cfg) = Some (failover_timeout_seconds fl)"
  using assms
proof (rule scheduler_main_Started)
  fix addrs b cred s0 w5
  assume "driver_config io env fl addrs b cred s0 w5 = (Started (s, cfg), w')"
  from driver_config_Started [OF this] obtain addr where
    "dc_Framework cfg = framework_info fl addr (fi_Id (dc_Framework cfg))" by blast
  then show ?thesis by (metis FrameworkInfo.select_convs(2,4) framework_info_def)
qed

section \<open>Properties across components\<close>


text \<open>
  C1 (safety): in every run of a scheduler started by its main program the cluster invariant holds, at
  most one launch is pending, the launcher has not panicked and no offer was answered twice.
\<close>

theorem started_scheduler_safe:
  assumes "scheduler_main io env fl w = (Started (s, cfg, mux), w')"
    and "(sys_step io drv)\<^sup>*\<^sup>* (started_sys s w') st"
  shows "cluster_inv (sched st) \<and> length (pending (sched st)) \<le> 1 \<and> launcher st \<noteq> LPanic \<and>
    distinct (answered (trace st))"
proof -
  have "reachable io drv st"
    using scheduler_main_init [OF assms(1)] assms(2) unfolding reachable_def by blast
  then show ?thesis
    using view_inv_reachable [of io drv st] usable_inv_reachable [of io drv st] offers_inv_reachable [of io drv st]
    by (auto simp: view_inv_cluster usable_inv_def offers_inv_def places_def)
qed


text \<open>
  C4 (liveness): a launch that is lost because the driver is not connected does not block the next
  one: the driver reports the task as lost, and this status update frees the one pending launch of the
  scheduler and queues another attempt.
\<close>

theorem lost_launch_retried:
  assumes "pending s = []" "hostname offer \<noteq> []" "no_space (hostname offer)"
    and "launch_task io s offer w = (Returns (s', [LaunchTasks ids [task] r]), w')"
    and "drv_status d = DRIVER_RUNNING" "\<not> connected d" "selfPid d = Some me" "\<not> queueClosed d"
  shows "\<exists>status.
    msd_LaunchTasks net ids [task] r d v = (Returns ((DRIVER_RUNNING, Some ErrDisconnected), d, [DLost [task]]), v) \<and>
    pushLostTask net task d v = (Returns (d, [DCallback (CbStatusUpdate status None)]), v) \<and> pending s' \<noteq> [] \<and>
    pending (fst (StatusUpdate io status s' w')) = [] \<and> 0 < launchChan (fst (StatusUpdate io status s' w'))"
  using assms(4)
proof (cases rule: launch_task_ReturnsE)
  case (1 rng rngs ord node s1)
  have ok: "node_ok node"
    using assms(2,3) no_space_fmt_int [of "highestInstanceID s1"]
    by (auto simp: 1(3) new_node_def node_ok_def is_space_def)
  have tid: "task_info_id task = node_String node" using 1(5) by (simp add: new_task_def)
  have p: "pending s' = [(Name node, ())]" using 1(6) assms(1) by (simp add: gm_put_def)
  let ?status = "\<lparr>task_id = task_info_id task, status_slave = [], task_state = TASK_LOST\<rparr>"
  have "msd_LaunchTasks net ids [task] r d v = (Returns ((DRIVER_RUNNING, Some ErrDisconnected), d, [DLost [task]]), v)"
    using assms(5,6) by (simp add: msd_LaunchTasks_def)
  moreover have "pushLostTask net task d v = (Returns (d, [DCallback (CbStatusUpdate ?status None)]), v)"
    using assms(5-8)
    by (simp add: pushLostTask_def statusUpdated_def lost_update_def upid_Equal_def call_back_def withScheduler_def)
  moreover have "pending (fst (StatusUpdate io ?status s' w')) = [] \<and> 0 < launchChan (fst (StatusUpdate io ?status s' w'))"
    using Parse_String [OF ok] p
    by (simp add: StatusUpdate_def tid is_terminal_def task_lost_def QueueLaunchAttempt_def PumpTheBrakes_def add_stat_def
        gm_del_def chan_cap_def Let_def)
  ultimately show ?thesis using p by (intro exI [of _ ?status]) simp
qed

section \<open>Witnesses\<close>


theorem started_scheduler_safe_witness:
  "\<exists>s cfg mux w'. scheduler_main zk_demo demo_env demo_flags [] = (Started (s, cfg, mux), w') \<and>
     cluster_inv (sched (started_sys s w')) \<and> length (pending (sched (started_sys s w'))) \<le> 1"
proof -
  obtain s cfg mux w' where m: "scheduler_main zk_demo demo_env demo_flags [] = (Started (s, cfg, mux), w')"
    using demo_main by blast
  have "cluster_inv (sched (started_sys s w')) \<and> length (pending (sched (started_sys s w'))) \<le> 1 \<and>
      launcher (started_sys s w') \<noteq> LPanic \<and> distinct (answered (trace (started_sys s w')))"
    by (rule started_scheduler_safe [where drv = "\<lparr>drv_ReconcileTasks = (\<lambda>_ w. (None, w))\<rparr>", OF m]) simp
  with m show ?thesis by blast
qed


theorem lost_launch_retried_witness:
  "\<exists>s' task w' status. launch_task demo_world demo_sched (demo_offer [\<lparr>Begin = 31000, End = 31009\<rparr>]) 0 =
       (Returns (s', [LaunchTasks [''o1''] [task] 1]), w') \<and>
     pushLostTask demo_net task demo_running () = (Returns (demo_running, [DCallback (CbStatusUpdate status None)]), ()) \<and>
     pending (fst (StatusUpdate demo_world status s' w')) = []"
proof -
  let ?offer = "demo_offer [\<lparr>Begin = 31000, End = 31009\<rparr>]"
  have p: "ports (parseOffer ?offer) = [\<lparr>Begin = 31000, End = 31009\<rparr>]" by (rule demo_offer_sufficient)
  then obtain s' es w' where l: "launch_task demo_world demo_sched ?offer 0 = (Returns (s', es), w')"
    using launch_task_ok [of ?offer demo_world demo_sched 0] by auto
  from l obtain task where e: "es = [LaunchTasks [''o1''] [task] 1]"
    by (cases rule: launch_task_ReturnsE) (auto simp: demo_offer_def)
  have h: "no_space (hostname ?offer)" "hostname ?offer \<noteq> []"
    by (simp_all add: demo_offer_def is_space_def)
  have "pending demo_sched = []" by (simp add: demo_sched_simps)
  from lost_launch_retried [OF this h(2,1) l [unfolded e], of demo_running _ demo_net "()"] l e show ?thesis
    by (fastforce simp: demo_running_def demo_driver_def)
qed

end
